theory Spec2Isabelle
  imports Complex_Main "HOL-Library.Word"
begin

unbundle bit_operations_syntax

section \<open>Siglent SDS driver: acquisition state machine and waveform block decoder\<close>

text \<open>
  A shallow embedding of \<^verbatim>\<open>src/hardware/siglent-sds/protocol.c\<close>. Every C function that
  is modelled keeps its name. The device context \<^verbatim>\<open>struct dev_context\<close> is a record, the
  SCPI transport is a script of the answers the device will give, and everything the
  driver does to the outside world (commands, reads, sleeps, log errors, datafeed
  packets, acquisition stop) is appended to an event trace, so that the order of effects
  can be stated.

  Conventions:
  \<^item> C \<^verbatim>\<open>float\<close> and \<^verbatim>\<open>double\<close> values are real numbers: the rounding of the arithmetic
    is not modelled. The one library function whose single-precision result decides a
    branch, \<^verbatim>\<open>log10f\<close>, is a component \<open>libm_log10f\<close> of the environment, about which
    nothing is assumed.
  \<^item> \<^verbatim>\<open>uint64_t\<close> counters are natural numbers; the one place where the driver relies
    on wrap-around and truncation, \<^verbatim>\<open>(int)(num_samples - num_block_bytes)\<close>, is written out.
  \<^item> A NULL dereference, an out-of-range array read, an allocation with a negative size
    and the use of an uninitialised variable are values of type \<open>fault\<close>.
  \<^item> \<^verbatim>\<open>sdi\<close> and \<^verbatim>\<open>sdi->priv\<close> are not NULL.
\<close>

subsection \<open>Data model\<close>

type_synonym byte = "8 word"

datatype protocol_version = SPO_MODEL | NON_SPO_MODEL | ESERIES

datatype data_source = DATA_SOURCE_SCREEN | DATA_SOURCE_HISTORY | DATA_SOURCE_READ_ONLY

datatype wait_events = WAIT_NONE | WAIT_TRIGGER | WAIT_BLOCK | WAIT_STOP

datatype channel_type = SR_CHANNEL_LOGIC | SR_CHANNEL_ANALOG

datatype fault = NULL_DEREF | OUT_OF_BOUNDS | BAD_ALLOC | UNINITIALIZED

record sr_channel =
  ch_index :: nat
  ch_type :: channel_type
  ch_enabled :: bool

datatype sr_mq = SR_MQ_VOLTAGE | SR_MQ_OTHER

datatype sr_unit = SR_UNIT_VOLT | SR_UNIT_OTHER

text \<open>The call site of a transport read, kept in the trace.\<close>

datatype read_site = RD_FPAR | RD_HEADER | RD_PROBE | RD_PAYLOAD | RD_LINEFEED | RD_DIGITAL

text \<open>
  The observable effects. \<open>SCPI_SEND\<close> keeps the format string and its arguments;
  \<open>SCPI_READ_DATA site maxlen ret bytes\<close> is one call of \<^verbatim>\<open>sr_scpi_read_data\<close> with
  its return value and the bytes it stored; \<open>DF_ANALOG ch data digits mq unit\<close> and
  \<open>DF_LOGIC unitsize data\<close> are the datafeed packets.
\<close>

datatype event =
    SCPI_SEND string "int list"
  | SCPI_GET_STRING string
  | SCPI_GET_INT string
  | SCPI_READ_BEGIN
  | SCPI_READ_DATA read_site int int "byte list"
  | SCPI_READ_COMPLETE
  | G_USLEEP nat
  | SR_ERR_LOG string
  | DF_FRAME_BEGIN
  | DF_FRAME_END
  | DF_ANALOG sr_channel "real list" int sr_mq sr_unit
  | DF_LOGIC nat "byte list"
  | DEV_ACQUISITION_STOP
  | SR_DEV_ACQUISITION_STOP

text \<open>
  \<^verbatim>\<open>struct dev_context\<close>, with the two fields of \<^verbatim>\<open>devc->model->series\<close> the driver
  reads (\<open>protocol\<close>, \<open>num_horizontal_divs\<close>). The GSList cursor \<open>channel_entry\<close> is
  the rest of the list from the current node on: \<open>[]\<close> is NULL, the head is
  \<^verbatim>\<open>->data\<close>, the tail is \<^verbatim>\<open>->next\<close>. The arrays \<open>vdiv\<close> and \<open>vert_offset\<close> are
  functions of the channel index. \<open>dig_buffer\<close> is \<open>None\<close> while the pointer is unset.
\<close>

record dev_context =
  protocol :: protocol_version
  num_horizontal_divs :: nat
  data_source :: data_source
  limit_frames :: nat
  num_frames :: nat
  enabled_channels :: "sr_channel list"
  channel_entry :: "sr_channel list"
  timebase :: real
  vdiv :: "nat \<Rightarrow> real"
  vert_offset :: "nat \<Rightarrow> real"
  memory_depth_analog :: nat
  memory_depth_digital :: nat
  wait_event :: wait_events
  wait_status :: int
  num_header_bytes :: nat
  num_channel_bytes :: nat
  num_block_bytes :: nat
  num_block_read :: nat
  num_samples :: nat
  block_header_size :: int
  retry_count :: int
  close_history :: bool
  dig_buffer :: "byte list option"
  trigger_source :: string
  horiz_triggerpos :: real

text \<open>
  The transport: what the device will answer, call by call. A script that has run out
  means that the device answers no more (the call fails).
\<close>

datatype rd = RD_ERR | RD_DATA "byte list"

record sr_scpi_dev_inst =
  send_rets :: "bool list"
  string_rets :: "string option list"
  int_rets :: "int option list"
  read_begin_rets :: "bool list"
  read_data_rets :: "rd list"
  read_complete_rets :: "bool list"

text \<open>
  \<^verbatim>\<open>struct sr_dev_inst\<close> together with its environment: the session it feeds
  (\<open>session\<close>, the event trace), the wall clock in microseconds, which only \<^verbatim>\<open>g_usleep\<close>
  advances, and the function \<^verbatim>\<open>log10f\<close> of the C library the driver is linked with
  (\<open>libm_log10f\<close>: the value, a \<^verbatim>\<open>float\<close>, that the call returns for a \<^verbatim>\<open>float\<close> argument).
\<close>

record sr_dev_inst =
  channels :: "sr_channel list"
  conn :: sr_scpi_dev_inst
  priv :: dev_context
  session :: "event list"
  clock_us :: nat
  libm_log10f :: "real \<Rightarrow> real"

subsection \<open>Constants of the headers\<close>

text \<open>
  Modelled from the spec: the return codes of \<^verbatim>\<open>libsigrok.h\<close>, the device states and
  the header size of \<^verbatim>\<open>protocol.h\<close> (\<^verbatim>\<open>SIGLENT_HEADER_SIZE\<close> is 363 in the spec), and
  the frequency macros; none of these headers is part of the sources at hand.
\<close>

abbreviation (input) SR_OK :: int where "SR_OK \<equiv> 0"
abbreviation (input) SR_ERR :: int where "SR_ERR \<equiv> - 1"
abbreviation (input) SR_ERR_TIMEOUT :: int where "SR_ERR_TIMEOUT \<equiv> - 8"
abbreviation (input) SR_ERR_DATA :: int where "SR_ERR_DATA \<equiv> - 10"
abbreviation (input) C_TRUE :: int where "C_TRUE \<equiv> 1"
abbreviation (input) G_IO_IN :: int where "G_IO_IN \<equiv> 1"
abbreviation (input) DEVICE_STATE_TRIG_RDY :: int where "DEVICE_STATE_TRIG_RDY \<equiv> 8192"
abbreviation (input) DEVICE_STATE_DATA_TRIG_RDY :: int where "DEVICE_STATE_DATA_TRIG_RDY \<equiv> 8193"
abbreviation (input) SIGLENT_HEADER_SIZE :: int where "SIGLENT_HEADER_SIZE \<equiv> 363"

definition SR_KHZ :: "real \<Rightarrow> real" where
  "SR_KHZ n = n * 1000"

definition SR_MHZ :: "real \<Rightarrow> real" where
  "SR_MHZ n = n * 1000000"

definition SR_GHZ :: "real \<Rightarrow> real" where
  "SR_GHZ n = n * 1000000000"

subsection \<open>Transport and session primitives\<close>

definition emit :: "event \<Rightarrow> sr_dev_inst \<Rightarrow> sr_dev_inst" where
  "emit e sdi = sdi\<lparr>session := session sdi @ [e]\<rparr>"

definition g_usleep :: "nat \<Rightarrow> sr_dev_inst \<Rightarrow> sr_dev_inst" where
  "g_usleep us sdi = emit (G_USLEEP us) (sdi\<lparr>clock_us := clock_us sdi + us\<rparr>)"

text \<open>\<^verbatim>\<open>time(NULL)\<close>: whole seconds of the wall clock.\<close>

definition time_now :: "sr_dev_inst \<Rightarrow> nat" where
  "time_now sdi = clock_us sdi div 1000000"

text \<open>
  Modelled from the spec: the transport adapter of section 4.1, whose code
  (\<^verbatim>\<open>scpi.c\<close>) is not part of the sources at hand. \<open>send\<close> gives ok or a transport
  error; \<open>get_string\<close> gives a text or an error; \<open>read_data(buf, n)\<close> gives \<open>-1\<close> or at
  most \<open>n\<close> bytes (what a scripted chunk holds beyond \<open>n\<close> stays in the device for the
  next read); a negative \<open>n\<close>, which the logic reader passes, places no bound.
\<close>

definition sr_scpi_send :: "string \<Rightarrow> int list \<Rightarrow> sr_dev_inst \<Rightarrow> int \<times> sr_dev_inst" where
  "sr_scpi_send fmt args sdi =
     (case send_rets (conn sdi) of
        [] \<Rightarrow> (SR_ERR, emit (SCPI_SEND fmt args) sdi)
      | r # rs \<Rightarrow> (if r then SR_OK else SR_ERR,
                  emit (SCPI_SEND fmt args) (sdi\<lparr>conn := (conn sdi)\<lparr>send_rets := rs\<rparr>\<rparr>)))"

definition sr_scpi_get_string :: "string \<Rightarrow> sr_dev_inst \<Rightarrow> int \<times> string \<times> sr_dev_inst" where
  "sr_scpi_get_string q sdi =
     (case string_rets (conn sdi) of
        [] \<Rightarrow> (SR_ERR, [], emit (SCPI_GET_STRING q) sdi)
      | r # rs \<Rightarrow>
          (let sdi1 = emit (SCPI_GET_STRING q) (sdi\<lparr>conn := (conn sdi)\<lparr>string_rets := rs\<rparr>\<rparr>)
           in case r of None \<Rightarrow> (SR_ERR, [], sdi1) | Some s \<Rightarrow> (SR_OK, s, sdi1)))"

definition sr_scpi_get_int :: "string \<Rightarrow> sr_dev_inst \<Rightarrow> int \<times> int \<times> sr_dev_inst" where
  "sr_scpi_get_int q sdi =
     (case int_rets (conn sdi) of
        [] \<Rightarrow> (SR_ERR, 0, emit (SCPI_GET_INT q) sdi)
      | r # rs \<Rightarrow>
          (let sdi1 = emit (SCPI_GET_INT q) (sdi\<lparr>conn := (conn sdi)\<lparr>int_rets := rs\<rparr>\<rparr>)
           in case r of None \<Rightarrow> (SR_ERR, 0, sdi1) | Some i \<Rightarrow> (SR_OK, i, sdi1)))"

definition sr_scpi_read_begin :: "sr_dev_inst \<Rightarrow> int \<times> sr_dev_inst" where
  "sr_scpi_read_begin sdi =
     (case read_begin_rets (conn sdi) of
        [] \<Rightarrow> (SR_ERR, emit SCPI_READ_BEGIN sdi)
      | r # rs \<Rightarrow> (if r then SR_OK else SR_ERR,
                  emit SCPI_READ_BEGIN (sdi\<lparr>conn := (conn sdi)\<lparr>read_begin_rets := rs\<rparr>\<rparr>)))"

definition sr_scpi_read_complete :: "sr_dev_inst \<Rightarrow> bool \<times> sr_dev_inst" where
  "sr_scpi_read_complete sdi =
     (case read_complete_rets (conn sdi) of
        [] \<Rightarrow> (False, emit SCPI_READ_COMPLETE sdi)
      | r # rs \<Rightarrow> (r, emit SCPI_READ_COMPLETE (sdi\<lparr>conn := (conn sdi)\<lparr>read_complete_rets := rs\<rparr>\<rparr>)))"

definition sr_scpi_read_data ::
  "read_site \<Rightarrow> int \<Rightarrow> sr_dev_inst \<Rightarrow> int \<times> byte list \<times> sr_dev_inst" where
  "sr_scpi_read_data site maxlen sdi =
     (case read_data_rets (conn sdi) of
        [] \<Rightarrow> (- 1, [], emit (SCPI_READ_DATA site maxlen (- 1) []) sdi)
      | RD_ERR # rest \<Rightarrow>
          (- 1, [], emit (SCPI_READ_DATA site maxlen (- 1) [])
                      (sdi\<lparr>conn := (conn sdi)\<lparr>read_data_rets := rest\<rparr>\<rparr>))
      | RD_DATA bs # rest \<Rightarrow>
          (if maxlen < 0 \<or> int (length bs) \<le> maxlen
           then (int (length bs), bs,
                 emit (SCPI_READ_DATA site maxlen (int (length bs)) bs)
                   (sdi\<lparr>conn := (conn sdi)\<lparr>read_data_rets := rest\<rparr>\<rparr>))
           else (maxlen, take (nat maxlen) bs,
                 emit (SCPI_READ_DATA site maxlen maxlen (take (nat maxlen) bs))
                   (sdi\<lparr>conn := (conn sdi)\<lparr>read_data_rets :=
                      RD_DATA (drop (nat maxlen) bs) # rest\<rparr>\<rparr>))))"

text \<open>
  Modelled from the spec: \<^verbatim>\<open>sr_atoi\<close> of \<^verbatim>\<open>strutil.c\<close> (not part of the sources at
  hand) parses a decimal integer, with an optional minus sign; on anything else it
  fails and leaves its output argument untouched.
\<close>

definition digit_of :: "char \<Rightarrow> nat option" where
  "digit_of c = (let n = of_char c :: nat in if 48 \<le> n \<and> n \<le> 57 then Some (n - 48) else None)"

fun dec_digits :: "nat \<Rightarrow> string \<Rightarrow> nat option" where
  "dec_digits acc [] = Some acc"
| "dec_digits acc (c # cs) =
     (case digit_of c of None \<Rightarrow> None | Some d \<Rightarrow> dec_digits (acc * 10 + d) cs)"

definition sr_atoi :: "string \<Rightarrow> int option" where
  "sr_atoi s =
     (case s of
        [] \<Rightarrow> None
      | c # cs \<Rightarrow>
          if c = CHR ''-'' then (if cs = [] then None else map_option (\<lambda>n. - int n) (dec_digits 0 cs))
          else map_option int (dec_digits 0 s))"

text \<open>Little-endian 32-bit fields of a byte buffer, as \<^verbatim>\<open>memcpy\<close> reads them.\<close>

definition le32 :: "byte list \<Rightarrow> nat \<Rightarrow> nat" where
  "le32 buf off = unat (buf ! off) + 256 * unat (buf ! (off + 1))
     + 65536 * unat (buf ! (off + 2)) + 16777216 * unat (buf ! (off + 3))"

definition le32_signed :: "byte list \<Rightarrow> nat \<Rightarrow> int" where
  "le32_signed buf off =
     (let u = int (le32 buf off) in if u < 2147483648 then u else u - 4294967296)"

text \<open>
  A value stored in an \<^verbatim>\<open>int\<close>: the low 32 bits, read as a two's complement number.
\<close>

definition c_int_cast :: "int \<Rightarrow> int" where
  "c_int_cast x =
     (let m = x mod 4294967296 in if m < 2147483648 then m else m - 4294967296)"

subsection \<open>siglent_sds_set_wait_event\<close>

definition siglent_sds_set_wait_event :: "dev_context \<Rightarrow> wait_events \<Rightarrow> dev_context" where
  "siglent_sds_set_wait_event devc ev =
     (if ev = WAIT_STOP then
        (let devc1 = devc\<lparr>wait_status := 2\<rparr>
         in if protocol devc1 = ESERIES then devc1\<lparr>wait_event := WAIT_STOP\<rparr> else devc1)
      else devc\<lparr>wait_status := 1, wait_event := ev\<rparr>)"

definition set_wait_event :: "wait_events \<Rightarrow> sr_dev_inst \<Rightarrow> sr_dev_inst" where
  "set_wait_event ev sdi = sdi\<lparr>priv := siglent_sds_set_wait_event (priv sdi) ev\<rparr>"

subsection \<open>siglent_sds_event_wait\<close>

text \<open>
  The polling loops of \<^verbatim>\<open>siglent_sds_event_wait\<close>. \<open>out\<close> is \<open>None\<close> while the C
  variable is uninitialised: \<^verbatim>\<open>sr_atoi\<close> does not assign it when it fails. The loops end
  since every turn takes one answer of the script, or fails.
\<close>

function inr_wait_loop :: "nat \<Rightarrow> int option \<Rightarrow> sr_dev_inst \<Rightarrow> fault + (int \<times> sr_dev_inst)" where
  "inr_wait_loop start out sdi =
     (if time_now sdi - start \<ge> 3 then Inr (SR_ERR_TIMEOUT, sdi)
      else
        (case sr_scpi_get_string '':INR?'' sdi of
           (rc, buf, sdi1) \<Rightarrow>
             if rc \<noteq> SR_OK then Inr (SR_ERR, sdi1)
             else
               (let out1 = (case sr_atoi buf of None \<Rightarrow> out | Some v \<Rightarrow> Some v);
                    sdi2 = g_usleep 10000 sdi1
                in case out1 of
                     None \<Rightarrow> Inl UNINITIALIZED
                   | Some v \<Rightarrow>
                       if v AND 1 \<noteq> 1 then inr_wait_loop start out1 sdi2
                       else Inr (SR_OK, sdi2))))"
  by pat_completeness auto
termination
  by (relation "measure (\<lambda>(start, out, sdi). length (string_rets (conn sdi)))")
     (auto simp: sr_scpi_get_string_def g_usleep_def emit_def Let_def
           split: list.splits option.splits)

function trmd_wait_loop :: "nat \<Rightarrow> sr_dev_inst \<Rightarrow> int \<times> sr_dev_inst" where
  "trmd_wait_loop start sdi =
     (if time_now sdi - start \<ge> 3 then (SR_ERR_TIMEOUT, sdi)
      else
        (case sr_scpi_get_string '':TRMD?'' sdi of
           (rc, buf, sdi1) \<Rightarrow>
             if rc \<noteq> SR_OK then (SR_ERR, sdi1)
             else if buf \<noteq> ''STOP'' then trmd_wait_loop start sdi1
             else (SR_OK, sdi1)))"
  by pat_completeness auto
termination
  by (relation "measure (\<lambda>(start, sdi). length (string_rets (conn sdi)))")
     (auto simp: sr_scpi_get_string_def emit_def Let_def split: list.splits option.splits)

declare inr_wait_loop.simps [simp del] trmd_wait_loop.simps [simp del]

definition siglent_sds_event_wait :: "sr_dev_inst \<Rightarrow> fault + (int \<times> sr_dev_inst)" where
  "siglent_sds_event_wait sdi =
     (let start = time_now sdi in
      if wait_status (priv sdi) = 1 then
        (case inr_wait_loop start None sdi of
           Inl f \<Rightarrow> Inl f
         | Inr (rc, sdi1) \<Rightarrow>
             if rc \<noteq> SR_OK then Inr (rc, sdi1)
             else if timebase (priv sdi1) < 0.51 \<and> timebase (priv sdi1) > 0.99 / 1000000 then
               Inr (SR_OK,
                 g_usleep (nat \<lfloor>timebase (priv sdi1)
                    * real (num_horizontal_divs (priv sdi1)) * 1000\<rfloor>) sdi1)
             else Inr (SR_OK, sdi1))
      else if wait_status (priv sdi) = 2 then
        (case (if protocol (priv sdi) = ESERIES then Inr (trmd_wait_loop start sdi)
               else inr_wait_loop start None sdi) of
           Inl f \<Rightarrow> Inl f
         | Inr (rc, sdi1) \<Rightarrow>
             if rc \<noteq> SR_OK then Inr (rc, sdi1)
             else Inr (SR_OK, set_wait_event WAIT_NONE sdi1))
      else Inr (SR_OK, sdi))"

definition siglent_sds_trigger_wait :: "sr_dev_inst \<Rightarrow> fault + (int \<times> sr_dev_inst)" where
  "siglent_sds_trigger_wait sdi = siglent_sds_event_wait sdi"

definition siglent_sds_stop_wait :: "sr_dev_inst \<Rightarrow> fault + (int \<times> sr_dev_inst)" where
  "siglent_sds_stop_wait sdi = siglent_sds_event_wait sdi"

definition siglent_sds_config_set :: "string \<Rightarrow> int list \<Rightarrow> sr_dev_inst \<Rightarrow> int \<times> sr_dev_inst" where
  "siglent_sds_config_set fmt args sdi = sr_scpi_send fmt args sdi"

subsection \<open>siglent_sds_channel_start and siglent_sds_capture_start\<close>

definition siglent_sds_channel_start :: "sr_dev_inst \<Rightarrow> fault + (int \<times> sr_dev_inst)" where
  "siglent_sds_channel_start sdi =
     (case channel_entry (priv sdi) of
        [] \<Rightarrow> Inl NULL_DEREF
      | ch # next \<Rightarrow>
          (case (case protocol (priv sdi) of
                   ESERIES \<Rightarrow>
                     if ch_type ch = SR_CHANNEL_ANALOG
                     then sr_scpi_send ''C%d:WF? ALL'' [int (ch_index ch) + 1] sdi
                     else (SR_OK, sdi)
                 | _ \<Rightarrow>
                     sr_scpi_send
                       (if ch_type ch = SR_CHANNEL_LOGIC then ''D%d:WF?'' else ''C%d:WF? ALL'')
                       [int (ch_index ch) + 1] sdi) of
             (rc, sdi1) \<Rightarrow>
               if rc \<noteq> SR_OK then Inr (SR_ERR, sdi1)
               else Inr (SR_OK,
                 set_wait_event WAIT_NONE
                   (sdi1\<lparr>priv := (priv sdi1)\<lparr>num_channel_bytes := 0, num_header_bytes := 0,
                      num_block_bytes := 0\<rparr>\<rparr>))))"

definition siglent_sds_capture_start :: "sr_dev_inst \<Rightarrow> fault + (int \<times> sr_dev_inst)" where
  "siglent_sds_capture_start sdi0 =
     (let sdi = sdi0\<lparr>priv := (priv sdi0)\<lparr>retry_count := 0\<rparr>\<rparr> in
      case protocol (priv sdi) of
        SPO_MODEL \<Rightarrow>
          (case data_source (priv sdi) of
             DATA_SOURCE_SCREEN \<Rightarrow>
               (case siglent_sds_config_set ''ARM'' [] sdi of
                  (rc, sdi1) \<Rightarrow>
                    if rc \<noteq> SR_OK then Inr (SR_ERR, sdi1)
                    else
                      (case sr_scpi_get_string '':INR?'' sdi1 of
                         (rc2, buf, sdi2) \<Rightarrow>
                           if rc2 \<noteq> SR_OK then Inr (SR_ERR, sdi2)
                           else
                             (case sr_atoi buf of
                                None \<Rightarrow> Inl UNINITIALIZED
                              | Some out \<Rightarrow>
                                  if out = DEVICE_STATE_TRIG_RDY
                                  then Inr (SR_OK, set_wait_event WAIT_TRIGGER sdi2)
                                  else if out = DEVICE_STATE_DATA_TRIG_RDY
                                  then Inr (SR_OK, set_wait_event WAIT_BLOCK sdi2)
                                  else Inr (SR_ERR, sdi2))))
           | DATA_SOURCE_HISTORY \<Rightarrow>
               (case siglent_sds_config_set ''FPAR?'' [] sdi of
                  (rc, sdi1) \<Rightarrow>
                    if rc \<noteq> SR_OK then Inr (SR_ERR, sdi1)
                    else
                      (case sr_scpi_read_data RD_FPAR 200 sdi1 of
                         (ret, buf, sdi2) \<Rightarrow>
                           if ret < 0
                           then Inr (SR_ERR,
                                  emit (SR_ERR_LOG ''Read error while reading data header.'') sdi2)
                           else if length buf < 44 then Inl UNINITIALIZED
                           else
                             (let framecount = le32 buf 40;
                                  sdi3 =
                                    (if limit_frames (priv sdi2) > framecount
                                     then emit (SR_ERR_LOG
                                       ''Frame limit higher than frames in buffer of device!'') sdi2
                                     else if limit_frames (priv sdi2) = 0
                                     then sdi2\<lparr>priv := (priv sdi2)\<lparr>limit_frames := framecount\<rparr>\<rparr>
                                     else sdi2)
                              in case siglent_sds_config_set ''FRAM %i''
                                        [int (num_frames (priv sdi3)) + 1] sdi3 of
                                   (rc3, sdi4) \<Rightarrow>
                                     if rc3 \<noteq> SR_OK then Inr (SR_ERR, sdi4)
                                     else
                                       (case siglent_sds_channel_start sdi4 of
                                          Inl f \<Rightarrow> Inl f
                                        | Inr (rc4, sdi5) \<Rightarrow>
                                            if rc4 \<noteq> SR_OK then Inr (SR_ERR, sdi5)
                                            else Inr (SR_OK, set_wait_event WAIT_STOP sdi5)))))
           | DATA_SOURCE_READ_ONLY \<Rightarrow> Inr (SR_OK, set_wait_event WAIT_STOP sdi))
      | ESERIES \<Rightarrow>
          (case data_source (priv sdi) of
             DATA_SOURCE_SCREEN \<Rightarrow>
               (let sdi1 = sdi\<lparr>priv := (priv sdi)\<lparr>limit_frames := 1, close_history := False\<rparr>\<rparr>
                in case siglent_sds_config_set '':TRMD SINGLE'' [] sdi1 of
                     (rc, sdi2) \<Rightarrow>
                       if rc \<noteq> SR_OK then Inr (SR_ERR, sdi2)
                       else Inr (SR_OK, set_wait_event WAIT_STOP sdi2))
           | DATA_SOURCE_HISTORY \<Rightarrow>
               (case sr_scpi_get_string '':TRMD?'' sdi of
                  (rc, buf, sdi1) \<Rightarrow>
                    if rc \<noteq> SR_OK then Inr (SR_ERR, sdi1)
                    else
                      (let sdi2 = sdi1\<lparr>priv := (priv sdi1)\<lparr>close_history := (buf \<noteq> ''STOP'')\<rparr>\<rparr>
                       in case sr_scpi_get_string '':HSMD?'' sdi2 of
                            (rc2, buf2, sdi3) \<Rightarrow>
                              if rc2 \<noteq> SR_OK then Inr (SR_ERR, sdi3)
                              else
                                (case (if buf2 = ''OFF''
                                       then siglent_sds_config_set '':HSMD ON'' [] sdi3
                                       else siglent_sds_config_set '':FRAM 10000000'' [] sdi3) of
                                   (rc3, sdi4) \<Rightarrow>
                                     if rc3 \<noteq> SR_OK then Inr (SR_ERR, sdi4)
                                     else
                                       (case sr_scpi_get_int '':FRAM?'' sdi4 of
                                          (rc4, framecount, sdi5) \<Rightarrow>
                                            if rc4 \<noteq> SR_OK then Inr (SR_ERR, sdi5)
                                            else if framecount < 1 then Inr (SR_ERR, sdi5)
                                            else
                                              (let sdi6 = sdi5\<lparr>priv := (priv sdi5)
                                                     \<lparr>limit_frames := nat framecount\<rparr>\<rparr>
                                               in case siglent_sds_config_set '':FRAM 1'' [] sdi6 of
                                                    (rc5, sdi7) \<Rightarrow>
                                                      if rc5 \<noteq> SR_OK then Inr (SR_ERR, sdi7)
                                                      else Inr (SR_OK,
                                                        set_wait_event WAIT_STOP sdi7))))))
           | DATA_SOURCE_READ_ONLY \<Rightarrow>
               Inr (SR_OK,
                 set_wait_event WAIT_STOP
                   (sdi\<lparr>priv := (priv sdi)\<lparr>close_history := False, limit_frames := 1\<rparr>\<rparr>)))
      | NON_SPO_MODEL \<Rightarrow> Inr (SR_OK, set_wait_event WAIT_TRIGGER sdi))"

subsection \<open>siglent_sds_read_header\<close>

text \<open>
  The weight of the read script: every read that returns at least one byte makes it
  smaller, which is why the read loops end.
\<close>

fun rd_weight :: "rd \<Rightarrow> nat" where
  "rd_weight RD_ERR = 1"
| "rd_weight (RD_DATA bs) = Suc (length bs)"

definition script_weight :: "sr_dev_inst \<Rightarrow> nat" where
  "script_weight sdi = sum_list (map rd_weight (read_data_rets (conn sdi)))"

lemma read_data_weight:
  "sr_scpi_read_data site maxlen sdi = (n, bs, sdi1) \<Longrightarrow> 0 < n \<Longrightarrow>
   script_weight sdi1 < script_weight sdi"
  by (auto simp: sr_scpi_read_data_def script_weight_def emit_def
           split: list.splits rd.splits if_splits)

lemma read_data_weight_le:
  "sr_scpi_read_data site maxlen sdi = (n, bs, sdi1) \<Longrightarrow>
   script_weight sdi1 \<le> script_weight sdi"
  by (auto simp: sr_scpi_read_data_def script_weight_def emit_def
           split: list.splits rd.splits if_splits)

lemma read_data_ret:
  "sr_scpi_read_data site maxlen sdi = (n, bs, sdi1) \<Longrightarrow> n = - 1 \<or> n = int (length bs)"
  by (auto simp: sr_scpi_read_data_def split: list.splits rd.splits if_splits)

lemma read_data_shrinks:
  assumes "(n, y) = sr_scpi_read_data site maxlen sdi" and "(bs, sdi1) = y"
    and "n \<noteq> - 1" and "n \<noteq> 0"
  shows "script_weight sdi1 < script_weight sdi"
proof -
  from assms(1,2) have rd: "sr_scpi_read_data site maxlen sdi = (n, bs, sdi1)" by simp
  from read_data_ret [OF rd] assms(3,4) have "0 < n" by auto
  from read_data_weight [OF rd this] show ?thesis .
qed

text \<open>
  The \<^verbatim>\<open>do ... while\<close> loop that gathers the 363 header bytes: \<open>None\<close> is the early
  \<^verbatim>\<open>return SR_ERR\<close>, \<open>Some (tot, buf)\<close> the bytes gathered when the loop ends.
\<close>

function read_header_loop ::
  "sr_dev_inst \<Rightarrow> int \<Rightarrow> byte list \<Rightarrow> (int \<times> byte list) option \<times> sr_dev_inst" where
  "read_header_loop sdi tot buf =
     (case sr_scpi_read_data RD_HEADER (SIGLENT_HEADER_SIZE - tot) sdi of
        (n, bs, sdi1) \<Rightarrow>
          if n = - 1 then (None, emit (SR_ERR_LOG ''Read error'') sdi1)
          else if n = 0 then (None, emit (SR_ERR_LOG ''No data'') sdi1)
          else
            (let tot1 = tot + n; buf1 = buf @ bs
             in if tot1 < SIGLENT_HEADER_SIZE then read_header_loop sdi1 tot1 buf1
                else (Some (tot1, buf1), sdi1)))"
  by pat_completeness auto
termination
  by (relation "measure (\<lambda>(sdi, tot, buf). script_weight sdi)")
     (auto elim: read_data_shrinks)

declare read_header_loop.simps [simp del]

text \<open>
  \<^verbatim>\<open>siglent_sds_read_header\<close>. \<^verbatim>\<open>data_length\<close> is a \<^verbatim>\<open>long\<close> initialised to 0 whose low
  four bytes \<^verbatim>\<open>memcpy\<close> fills (an unsigned value where \<^verbatim>\<open>long\<close> has 64 bits);
  \<^verbatim>\<open>desc_length\<close> is an \<^verbatim>\<open>int\<close>, and so is \<^verbatim>\<open>devc->block_header_size\<close>: the sum
  \<^verbatim>\<open>desc_length + 15\<close> wraps around in 32 bits. The result is the C return value and the
  new state.
\<close>

definition siglent_sds_read_header :: "sr_dev_inst \<Rightarrow> int \<times> sr_dev_inst" where
  "siglent_sds_read_header sdi =
     (case read_header_loop sdi 0 [] of
        (None, sdi1) \<Rightarrow> (SR_ERR, sdi1)
      | (Some (header_bytes_read_total, hdr), sdi1) \<Rightarrow>
          (let sdi2 = sdi1\<lparr>priv := (priv sdi1)\<lparr>num_header_bytes :=
                        num_header_bytes (priv sdi1) + nat header_bytes_read_total\<rparr>\<rparr>;
               buf = drop 15 hdr;
               desc_length = le32_signed buf 36;
               data_length = le32 buf 60
           in if data_length = 0 then
                (case sr_scpi_read_data RD_PROBE 3 sdi2 of
                   (len, bs, sdi3) \<Rightarrow>
                     if len = 2 then (SR_ERR, emit (SR_ERR_LOG ''Empty waveform, abort'') sdi3)
                     else (SR_ERR, emit (SR_ERR_LOG ''Garbage waveform, abrot'') sdi3))
              else
                (header_bytes_read_total,
                 sdi2\<lparr>priv := (priv sdi2)\<lparr>block_header_size := c_int_cast (desc_length + 15),
                   num_samples := data_length\<rparr>\<rparr>)))"

subsection \<open>Session events\<close>

text \<open>
  Modelled from the spec: \<^verbatim>\<open>dev_acquisition_stop\<close> of the driver's \<^verbatim>\<open>api.c\<close>,
  \<^verbatim>\<open>sr_dev_acquisition_stop\<close> and the \<^verbatim>\<open>std_session_send_df_*\<close> helpers are not part of
  the sources at hand; each call is recorded in the trace and changes nothing else.
\<close>

definition sr_err :: "string \<Rightarrow> sr_dev_inst \<Rightarrow> sr_dev_inst" where
  "sr_err msg sdi = emit (SR_ERR_LOG msg) sdi"

definition std_session_send_df_frame_begin :: "sr_dev_inst \<Rightarrow> sr_dev_inst" where
  "std_session_send_df_frame_begin sdi = emit DF_FRAME_BEGIN sdi"

definition std_session_send_df_frame_end :: "sr_dev_inst \<Rightarrow> sr_dev_inst" where
  "std_session_send_df_frame_end sdi = emit DF_FRAME_END sdi"

definition dev_acquisition_stop :: "sr_dev_inst \<Rightarrow> sr_dev_inst" where
  "dev_acquisition_stop sdi = emit DEV_ACQUISITION_STOP sdi"

definition sr_dev_acquisition_stop :: "sr_dev_inst \<Rightarrow> sr_dev_inst" where
  "sr_dev_acquisition_stop sdi = emit SR_DEV_ACQUISITION_STOP sdi"

text \<open>The recurring triple: log an error, send the frame end, stop the acquisition.\<close>

definition abort_capture :: "string \<Rightarrow> sr_dev_inst \<Rightarrow> sr_dev_inst" where
  "abort_capture msg sdi =
     dev_acquisition_stop (std_session_send_df_frame_end (sr_err msg sdi))"

subsection \<open>siglent_sds_get_digital\<close>

text \<open>
  The inner \<^verbatim>\<open>for (ii = 0; ii < 8; ii++, sample >>= 1)\<close> loop for one raw byte.
  \<open>prev\<close> is the accumulator of the channel's half (low or high), \<open>flag\<close> its
  \<^verbatim>\<open>low_channels\<close> or \<^verbatim>\<open>high_channels\<close> flag, \<open>tmp\<close> is \<^verbatim>\<open>tmp_samplebuf\<close>. The read of
  \<open>prev\<close> is guarded by the length test, as in the source. \<^verbatim>\<open>sample\<close> is a \<^verbatim>\<open>char\<close>;
  the shift is the arithmetic one of a signed \<^verbatim>\<open>char\<close> (the eight bits that are read
  are the same with a logical shift).
\<close>

fun sample_bits ::
  "nat \<Rightarrow> byte \<Rightarrow> nat \<Rightarrow> byte list \<Rightarrow> nat \<Rightarrow> bool \<Rightarrow> byte list \<Rightarrow> nat \<times> bool \<times> byte list" where
  "sample_bits 0 sample channel_index prev samples_index flag tmp = (samples_index, flag, tmp)"
| "sample_bits (Suc k) sample channel_index prev samples_index flag tmp =
     (let fresh = (length prev \<le> samples_index);
          tmp_value0 = (if fresh then 0 else prev ! samples_index);
          tmp_value = (if sample AND 1 \<noteq> 0 then tmp_value0 OR push_bit channel_index 1
                       else tmp_value0)
      in sample_bits k (signed_drop_bit 1 sample) channel_index prev (Suc samples_index)
           (flag \<or> fresh) (tmp @ [tmp_value]))"

text \<open>
  The loop \<^verbatim>\<open>for (cur_sample_index = 0; cur_sample_index < memory_depth_digital; ...)\<close>:
  \<open>n\<close> counts the turns that are left. \<^verbatim>\<open>g_array_index(buffdata, uint8_t, cur)\<close> does not
  check its index; a read past the \<open>len - 15\<close> bytes of \<open>buffdata\<close> is the fault
  \<open>OUT_OF_BOUNDS\<close>.
\<close>

fun bitplane_loop ::
  "nat \<Rightarrow> nat \<Rightarrow> byte list \<Rightarrow> nat \<Rightarrow> byte list \<Rightarrow> nat \<Rightarrow> bool \<Rightarrow> byte list
   \<Rightarrow> fault + (bool \<times> byte list)" where
  "bitplane_loop 0 cur buffdata channel_index prev samples_index flag tmp = Inr (flag, tmp)"
| "bitplane_loop (Suc n) cur buffdata channel_index prev samples_index flag tmp =
     (if length buffdata \<le> cur then Inl OUT_OF_BOUNDS
      else
        (case sample_bits 8 (buffdata ! cur) channel_index prev samples_index flag tmp of
           (samples_index1, flag1, tmp1) \<Rightarrow>
             bitplane_loop n (Suc cur) buffdata channel_index prev samples_index1 flag1 tmp1))"

text \<open>
  One turn of the loop over \<^verbatim>\<open>sdi->channels\<close>: either the function returns
  (\<open>DIG_RETURN\<close> with the return value) or the loop goes on with the locals \<open>len\<close>,
  \<open>data_low_channels\<close>, \<open>data_high_channels\<close>, \<open>low_channels\<close>, \<open>high_channels\<close>.
\<close>

datatype dig_step =
    DIG_RETURN int sr_dev_inst
  | DIG_NEXT sr_dev_inst int "byte list" "byte list" bool bool

definition get_digital_channel ::
  "sr_channel \<Rightarrow> sr_dev_inst \<Rightarrow> int \<Rightarrow> byte list \<Rightarrow> byte list \<Rightarrow> bool \<Rightarrow> bool
   \<Rightarrow> fault + dig_step" where
  "get_digital_channel ch sdi len data_low data_high low_channels high_channels =
     (if ch_type ch = SR_CHANNEL_LOGIC \<and> ch_enabled ch then
        (case sr_scpi_send ''D%d:WF? DAT2'' [int (ch_index ch)] sdi of
           (rc, sdi1) \<Rightarrow>
             if rc \<noteq> SR_OK then Inr (DIG_RETURN SR_ERR sdi1)
             else
               (case sr_scpi_read_begin sdi1 of
                  (rc2, sdi2) \<Rightarrow>
                    if rc2 \<noteq> SR_OK then Inr (DIG_RETURN C_TRUE sdi2)
                    else
                      (case sr_scpi_read_data RD_DIGITAL (- 1) sdi2 of
                         (len0, bs, sdi3) \<Rightarrow>
                           if len0 < 0 then Inr (DIG_RETURN C_TRUE sdi3)
                           else
                             (let len1 = len0 - 15 in
                              if len1 < 0 then Inl BAD_ALLOC
                              else
                                (let buffdata = take (nat len1) (drop 15 bs);
                                     low = (ch_index ch < 8);
                                     channel_index =
                                       (if low then ch_index ch else ch_index ch - 8)
                                 in case bitplane_loop (memory_depth_digital (priv sdi3)) 0
                                           buffdata channel_index
                                           (if low then data_low else data_high) 0
                                           (if low then low_channels else high_channels) [] of
                                      Inl f \<Rightarrow> Inl f
                                    | Inr (flag1, tmp_samplebuf) \<Rightarrow>
                                        if low
                                        then Inr (DIG_NEXT sdi3 len1 tmp_samplebuf data_high
                                                    flag1 high_channels)
                                        else Inr (DIG_NEXT sdi3 len1 data_low tmp_samplebuf
                                                    low_channels flag1))))))
      else Inr (DIG_NEXT sdi len data_low data_high low_channels high_channels))"

fun get_digital_channels ::
  "sr_channel list \<Rightarrow> sr_dev_inst \<Rightarrow> int \<Rightarrow> byte list \<Rightarrow> byte list \<Rightarrow> bool \<Rightarrow> bool
   \<Rightarrow> fault + dig_step" where
  "get_digital_channels [] sdi len data_low data_high low_channels high_channels =
     Inr (DIG_NEXT sdi len data_low data_high low_channels high_channels)"
| "get_digital_channels (ch # l) sdi len data_low data_high low_channels high_channels =
     (case get_digital_channel ch sdi len data_low data_high low_channels high_channels of
        Inl f \<Rightarrow> Inl f
      | Inr (DIG_RETURN r sdi1) \<Rightarrow> Inr (DIG_RETURN r sdi1)
      | Inr (DIG_NEXT sdi1 len1 low1 high1 lf1 hf1) \<Rightarrow>
          get_digital_channels l sdi1 len1 low1 high1 lf1 hf1)"

text \<open>
  The final loop that interleaves the two accumulators into \<^verbatim>\<open>devc->dig_buffer\<close>;
  again \<^verbatim>\<open>g_array_index\<close> does not check the index.
\<close>

fun dig_interleave ::
  "nat \<Rightarrow> nat \<Rightarrow> byte list \<Rightarrow> byte list \<Rightarrow> bool \<Rightarrow> bool \<Rightarrow> byte list \<Rightarrow> fault + byte list" where
  "dig_interleave 0 idx data_low data_high low_channels high_channels buf = Inr buf"
| "dig_interleave (Suc n) idx data_low data_high low_channels high_channels buf =
     (if low_channels \<and> length data_low \<le> idx then Inl OUT_OF_BOUNDS
      else if high_channels \<and> length data_high \<le> idx then Inl OUT_OF_BOUNDS
      else dig_interleave n (Suc idx) data_low data_high low_channels high_channels
             (buf @ [if low_channels then data_low ! idx else 0,
                     if high_channels then data_high ! idx else 0]))"

definition siglent_sds_get_digital :: "sr_dev_inst \<Rightarrow> fault + (int \<times> sr_dev_inst)" where
  "siglent_sds_get_digital sdi =
     (case get_digital_channels (channels sdi) sdi 0 [] [] False False of
        Inl f \<Rightarrow> Inl f
      | Inr (DIG_RETURN r sdi1) \<Rightarrow> Inr (r, sdi1)
      | Inr (DIG_NEXT sdi1 len data_low data_high low_channels high_channels) \<Rightarrow>
          (case dig_interleave (memory_depth_digital (priv sdi1)) 0 data_low data_high
                  low_channels high_channels [] of
             Inl f \<Rightarrow> Inl f
           | Inr buf \<Rightarrow> Inr (len, sdi1\<lparr>priv := (priv sdi1)\<lparr>dig_buffer := Some buf\<rparr>\<rparr>)))"

subsection \<open>siglent_sds_receive: the analog payload\<close>

text \<open>
  \<^verbatim>\<open>(int)(devc->num_samples - devc->num_block_bytes)\<close>: the difference of two
  \<^verbatim>\<open>uint64_t\<close> wraps modulo \<open>2^64\<close>, and the conversion to \<^verbatim>\<open>int\<close> keeps the low 32
  bits as a two's complement number. The same expression is the length the driver
  asks \<^verbatim>\<open>sr_scpi_read_data\<close> for, whose parameter is an \<^verbatim>\<open>int\<close>.
\<close>

definition samples_left :: "dev_context \<Rightarrow> int" where
  "samples_left devc =
     c_int_cast ((int (num_samples devc) - int (num_block_bytes devc))
                   mod 18446744073709551616)"

text \<open>The conversion \<^verbatim>\<open>(int)\<close> of a floating-point value truncates towards zero.\<close>

definition c_trunc :: "real \<Rightarrow> int" where
  "c_trunc x = (if 0 \<le> x then \<lfloor>x\<rfloor> else \<lceil>x\<rceil>)"

text \<open>
  \<^verbatim>\<open>digits = -(int) vdivlog + (vdivlog < 0.0)\<close> with \<^verbatim>\<open>vdivlog = log10f(vdiv)\<close>; the first
  argument is the library's \<^verbatim>\<open>log10f\<close>.
\<close>

definition analog_digits :: "(real \<Rightarrow> real) \<Rightarrow> real \<Rightarrow> int" where
  "analog_digits log10f vd =
     (let vdivlog = log10f vd in - c_trunc vdivlog + (if vdivlog < 0 then 1 else 0))"

text \<open>
  The conversion of one raw byte, read as \<^verbatim>\<open>int8_t\<close>:
  \<^verbatim>\<open>voltage = (float)raw / 25; voltage = ((vdiv * voltage) - offset);\<close>
\<close>

definition sample_voltage :: "real \<Rightarrow> real \<Rightarrow> byte \<Rightarrow> real" where
  "sample_voltage vd offset raw =
     (let voltage = real_of_int (sint raw) / 25 in (vd * voltage) - offset)"

text \<open>
  Lines 737 to 767: the first \<open>loop_bytes_read\<close> bytes of \<^verbatim>\<open>devc->buffer\<close> become one
  analog packet.
\<close>

definition send_analog :: "sr_channel \<Rightarrow> int \<Rightarrow> byte list \<Rightarrow> sr_dev_inst \<Rightarrow> sr_dev_inst" where
  "send_analog ch loop_bytes_read buffer sdi =
     (let vd = vdiv (priv sdi) (ch_index ch);
          offset = vert_offset (priv sdi) (ch_index ch);
          data = take (nat loop_bytes_read) buffer;
          float_data = map (sample_voltage vd offset) data;
          digits = analog_digits (libm_log10f sdi) vd
      in emit (DF_ANALOG ch float_data digits SR_MQ_VOLTAGE SR_UNIT_VOLT) sdi)"

text \<open>
  The inner \<^verbatim>\<open>do ... while (loop_bytes_read < MIN(10240, loop_bytes_available))\<close> loop.
  \<open>LOOP_RETURN\<close> is a \<^verbatim>\<open>return TRUE\<close> from inside the loop, \<open>LOOP_BREAK\<close> the end of the
  loop (by \<^verbatim>\<open>break\<close> or by its condition) with \<open>loop_bytes_read\<close> and the bytes that
  \<^verbatim>\<open>devc->buffer\<close> holds from its start to \<^verbatim>\<open>buf\<close>.
\<close>

datatype loop_result =
    LOOP_RETURN sr_dev_inst
  | LOOP_BREAK sr_dev_inst int "byte list"

function recv_read_loop :: "sr_dev_inst \<Rightarrow> int \<Rightarrow> int \<Rightarrow> byte list \<Rightarrow> loop_result" where
  "recv_read_loop sdi loop_bytes_read loop_bytes_available data =
     (case sr_scpi_read_data RD_PAYLOAD (samples_left (priv sdi)) sdi of
        (len, bs, sdi1) \<Rightarrow>
          if len = - 1 then
            (if loop_bytes_read > 0 then LOOP_BREAK sdi1 loop_bytes_read data
             else if retry_count (priv sdi1) < 5 then
               LOOP_RETURN
                 (g_usleep 1000
                    (sdi1\<lparr>priv := (priv sdi1)\<lparr>retry_count := retry_count (priv sdi1) + 1\<rparr>\<rparr>))
             else LOOP_RETURN (abort_capture ''Read error, aborting capture.'' sdi1))
          else if len = 0 then
            LOOP_RETURN
              (sr_dev_acquisition_stop
                 (emit DF_FRAME_END (sr_err ''Read zero bytes, aborting capture.'' sdi1)))
          else if len = 2 \<and> num_block_read (priv sdi1) = 0 then
            (let sdi2 = sr_err ''Promised waveform was missing from datastream'' sdi1 in
             if retry_count (priv sdi2) < 5 then
               LOOP_RETURN
                 (set_wait_event WAIT_BLOCK
                    (g_usleep 100000
                       (sdi2\<lparr>priv := (priv sdi2)\<lparr>retry_count := retry_count (priv sdi2) + 1\<rparr>\<rparr>)))
             else LOOP_BREAK sdi2 loop_bytes_read data)
          else
            (let loop_bytes_read1 = loop_bytes_read + len;
                 data1 = data @ bs;
                 sdi2 = sdi1\<lparr>priv := (priv sdi1)
                          \<lparr>num_block_bytes := num_block_bytes (priv sdi1) + nat len,
                           num_block_read := num_block_read (priv sdi1) + 1\<rparr>\<rparr>
             in if loop_bytes_read1 < min 10240 loop_bytes_available
                then recv_read_loop sdi2 loop_bytes_read1 loop_bytes_available data1
                else LOOP_BREAK sdi2 loop_bytes_read1 data1))"
  by pat_completeness auto
termination
  by (relation "measure (\<lambda>(sdi, lbr, lba, data). script_weight sdi)")
     (auto simp: script_weight_def dest!: read_data_shrinks [unfolded script_weight_def])

declare recv_read_loop.simps [simp del]

lemma recv_read_loop_weight:
  "recv_read_loop sdi lbr lba data = LOOP_BREAK sdi1 lbr1 data1 \<Longrightarrow>
   lbr \<le> lbr1 \<and> script_weight sdi1 \<le> script_weight sdi \<and>
   (lbr < lbr1 \<longrightarrow> script_weight sdi1 < script_weight sdi)"
proof (induction sdi lbr lba data rule: recv_read_loop.induct)
  case (1 sdi lbr lba data)
  obtain len bs s1 where rd:
    "sr_scpi_read_data RD_PAYLOAD (samples_left (priv sdi)) sdi = (len, bs, s1)"
    by (cases "sr_scpi_read_data RD_PAYLOAD (samples_left (priv sdi)) sdi") auto
  note le = read_data_weight_le [OF rd]
  show ?case
  proof (cases "len = - 1 \<or> len = 0 \<or> (len = 2 \<and> num_block_read (priv s1) = 0)")
    case True
    with "1.prems" rd le show ?thesis
      by (subst (asm) recv_read_loop.simps)
         (auto simp: Let_def sr_err_def emit_def script_weight_def split: if_splits)
  next
    case False
    then have n1: "len \<noteq> - 1" and n0: "len \<noteq> 0"
      and n2: "\<not> (len = 2 \<and> num_block_read (priv s1) = 0)"
      by auto
    from n1 n0 have pos: "0 < len" using read_data_ret [OF rd] by auto
    note lt = read_data_weight [OF rd pos]
    let ?s2 = "s1\<lparr>priv := (priv s1)
                 \<lparr>num_block_bytes := num_block_bytes (priv s1) + nat len,
                  num_block_read := num_block_read (priv s1) + 1\<rparr>\<rparr>"
    have w2: "script_weight ?s2 = script_weight s1" by (simp add: script_weight_def)
    have unfold: "recv_read_loop sdi lbr lba data =
        (if lbr + len < min 10240 lba then recv_read_loop ?s2 (lbr + len) lba (data @ bs)
         else LOOP_BREAK ?s2 (lbr + len) (data @ bs))"
      by (subst recv_read_loop.simps) (simp add: rd n1 n0 n2 Let_def)
    show ?thesis
    proof (cases "lbr + len < min 10240 lba")
      case True
      with unfold "1.prems"
      have rec: "recv_read_loop ?s2 (lbr + len) lba (data @ bs) = LOOP_BREAK sdi1 lbr1 data1"
        by (simp split: if_splits)
      from "1.IH" [OF rd [symmetric] refl n1 n0 n2 refl refl refl True rec]
      have "lbr + len \<le> lbr1 \<and> script_weight sdi1 \<le> script_weight ?s2"
        by auto
      with lt w2 pos show ?thesis by auto
    next
      case nolt: False
      with unfold "1.prems"
      have "sdi1 = ?s2 \<and> lbr1 = lbr + len"
        by (simp split: if_splits)
      with lt w2 pos show ?thesis by auto
    qed
  qed
qed

text \<open>
  Lines 731 to 796, what one turn of the outer \<^verbatim>\<open>do ... while (!read_complete)\<close> loop
  does behind the inner loop: reset \<open>retry_count\<close>, leave the loop when nothing was
  read (\<open>PASS_DONE\<close>), else send the analog packet and, when the block is complete, read
  the line feeds and check the end of the read (\<open>PASS_DONE\<close>, or \<open>PASS_RETURN\<close> for the
  \<^verbatim>\<open>return TRUE\<close>); \<open>PASS_AGAIN\<close> is the next turn of the loop.
\<close>

datatype pass_result =
    PASS_RETURN sr_dev_inst
  | PASS_DONE sr_dev_inst
  | PASS_AGAIN sr_dev_inst

definition recv_after_pass :: "sr_channel \<Rightarrow> sr_dev_inst \<Rightarrow> int \<Rightarrow> byte list \<Rightarrow> pass_result" where
  "recv_after_pass ch sdi1 loop_bytes_read data =
     (let sdi2 = sdi1\<lparr>priv := (priv sdi1)\<lparr>retry_count := 0\<rparr>\<rparr> in
      if loop_bytes_read = 0
      then PASS_DONE (sr_err ''Abort processing channel'' sdi2)
      else
        (let sdi3 = (if ch_type ch = SR_CHANNEL_ANALOG
                     then send_analog ch loop_bytes_read data sdi2 else sdi2)
         in if num_samples (priv sdi3) \<le> num_block_bytes (priv sdi3) then
              (let sdi4 = sdi3\<lparr>priv := (priv sdi3)
                            \<lparr>num_header_bytes := 0, num_block_bytes := 0\<rparr>\<rparr>
               in case sr_scpi_read_data RD_LINEFEED 3 sdi4 of
                    (len, bs, sdi5) \<Rightarrow>
                      (let sdi6 = (if len \<noteq> 2
                                   then abort_capture ''Expected linefeeds were missing.'' sdi5
                                   else sdi5)
                       in case sr_scpi_read_complete sdi6 of
                            (ok, sdi7) \<Rightarrow>
                              if \<not> ok
                              then PASS_RETURN
                                     (abort_capture ''Read should have been completed.'' sdi7)
                              else PASS_DONE
                                     (sdi7\<lparr>priv := (priv sdi7)\<lparr>num_block_read := 0\<rparr>\<rparr>)))
            else PASS_AGAIN sdi3))"

lemma recv_after_pass_again:
  "recv_after_pass ch sdi1 lbr data = PASS_AGAIN sdi3 \<Longrightarrow>
   lbr \<noteq> 0 \<and> script_weight sdi3 = script_weight sdi1"
  by (auto simp: recv_after_pass_def Let_def script_weight_def send_analog_def emit_def
           split: if_splits prod.splits)

text \<open>
  The outer \<^verbatim>\<open>do ... while (!read_complete)\<close> loop. \<open>BLOCK_RETURN\<close> is a
  \<^verbatim>\<open>return TRUE\<close> of the handler, \<open>BLOCK_DONE\<close> means that control goes on behind the
  loop (or, for \<open>recv_new_block\<close>, behind the header phase).
\<close>

datatype block_result =
    BLOCK_RETURN sr_dev_inst
  | BLOCK_DONE sr_dev_inst

function recv_block_loop :: "sr_channel \<Rightarrow> sr_dev_inst \<Rightarrow> block_result" where
  "recv_block_loop ch sdi =
     (let loop_bytes_available = samples_left (priv sdi) in
      if loop_bytes_available < 0
      then BLOCK_RETURN (abort_capture ''Negative waveform length, woops.'' sdi)
      else
        (case recv_read_loop sdi 0 loop_bytes_available [] of
           LOOP_RETURN sdi1 \<Rightarrow> BLOCK_RETURN sdi1
         | LOOP_BREAK sdi1 loop_bytes_read data \<Rightarrow>
             (case recv_after_pass ch sdi1 loop_bytes_read data of
                PASS_RETURN sdi2 \<Rightarrow> BLOCK_RETURN sdi2
              | PASS_DONE sdi2 \<Rightarrow> BLOCK_DONE sdi2
              | PASS_AGAIN sdi2 \<Rightarrow> recv_block_loop ch sdi2)))"
  by pat_completeness auto
termination
proof (relation "measure (\<lambda>(ch, sdi). script_weight sdi)", goal_cases)
  case 1
  show ?case by simp
next
  case (2 ch sdi lba sdi1 lbr data sdi2)
  from recv_after_pass_again [OF 2(4)] have "lbr \<noteq> 0"
    and w: "script_weight sdi2 = script_weight sdi1" by simp_all
  with recv_read_loop_weight [OF 2(3)] show ?case by auto
qed

declare recv_block_loop.simps [simp del]

subsection \<open>siglent_sds_receive: the phases around the payload loop\<close>

text \<open>
  Lines 626 to 668: when \<open>num_block_bytes = 0\<close> a new block starts; the handler waits,
  begins the read and parses the header. (The second test of \<open>len = -1\<close> in the source
  cannot be reached.)
\<close>

definition recv_new_block :: "sr_dev_inst \<Rightarrow> block_result" where
  "recv_new_block sdi =
     (if num_block_bytes (priv sdi) = 0 then
        (case (case protocol (priv sdi) of
                 ESERIES \<Rightarrow>
                   (case sr_scpi_read_begin sdi of
                      (rc, sdi1) \<Rightarrow>
                        if rc \<noteq> SR_OK then (False, sdi1)
                        else (True,
                          g_usleep (nat \<lfloor>min 10000 (timebase (priv sdi1)
                             * real (num_horizontal_divs (priv sdi1)) * 100000)\<rfloor>) sdi1))
               | _ \<Rightarrow>
                   (let sdi1 = g_usleep (nat \<lfloor>real (memory_depth_analog (priv sdi)) * 2.5\<rfloor>) sdi
                    in case sr_scpi_read_begin sdi1 of (rc, sdi2) \<Rightarrow> (rc = SR_OK, sdi2))) of
           (ok, sdi2) \<Rightarrow>
             if \<not> ok then BLOCK_RETURN sdi2
             else
               (case siglent_sds_read_header sdi2 of
                  (len, sdi3) \<Rightarrow>
                    if len = 0 then BLOCK_RETURN sdi3
                    else if len = - 1
                    then BLOCK_RETURN (abort_capture ''Read error, aborting capture.'' sdi3)
                    else BLOCK_DONE
                           (sdi3\<lparr>priv := (priv sdi3)\<lparr>num_block_bytes := 0,
                              num_block_read := 0\<rparr>\<rparr>)))
      else BLOCK_DONE sdi)"

text \<open>Lines 799 to 845: the next channel, the next frame, or the end.\<close>

definition recv_next_channel :: "sr_dev_inst \<Rightarrow> fault + sr_dev_inst" where
  "recv_next_channel sdi =
     (case channel_entry (priv sdi) of
        [] \<Rightarrow> Inl NULL_DEREF
      | ch # next \<Rightarrow>
          if next \<noteq> [] then
            Inr (set_wait_event WAIT_BLOCK (sdi\<lparr>priv := (priv sdi)\<lparr>channel_entry := next\<rparr>\<rparr>))
          else
            (let sdi1 = std_session_send_df_frame_end sdi;
                 sdi2 = sdi1\<lparr>priv := (priv sdi1)\<lparr>num_frames := num_frames (priv sdi1) + 1\<rparr>\<rparr>
             in if num_frames (priv sdi2) = limit_frames (priv sdi2) then
                  (let sdi3 = dev_acquisition_stop sdi2 in
                   case protocol (priv sdi3) of
                     ESERIES \<Rightarrow>
                       if data_source (priv sdi3) = DATA_SOURCE_HISTORY \<and> close_history (priv sdi3)
                       then
                         (case siglent_sds_config_set '':HSMD OFF'' [] sdi3 of
                            (rc, sdi4) \<Rightarrow>
                              Inr (if rc \<noteq> SR_OK then sr_err ''Failed to close history'' sdi4
                                   else sdi4))
                       else Inr sdi3
                   | _ \<Rightarrow> Inr sdi3)
                else
                  (let sdi3 = sdi2\<lparr>priv := (priv sdi2)
                                \<lparr>channel_entry := enabled_channels (priv sdi2)\<rparr>\<rparr>
                   in case protocol (priv sdi3) of
                        ESERIES \<Rightarrow>
                          (case siglent_sds_config_set '':FRAM %d''
                                  [int (num_frames (priv sdi3)) + 1] sdi3 of
                             (rc, sdi4) \<Rightarrow>
                               if rc \<noteq> SR_OK
                               then Inr (abort_capture ''Changing to frame %d failed'' sdi4)
                               else Inr (set_wait_event WAIT_BLOCK
                                      (std_session_send_df_frame_begin sdi4)))
                      | _ \<Rightarrow>
                          (case siglent_sds_capture_start sdi3 of
                             Inl f \<Rightarrow> Inl f
                           | Inr (rc, sdi4) \<Rightarrow> Inr (std_session_send_df_frame_begin sdi4)))))"

text \<open>
  Lines 847 to 870: the logic channel. \<^verbatim>\<open>devc->dig_buffer->len\<close> dereferences the
  pointer, which is unset when \<^verbatim>\<open>siglent_sds_get_digital\<close> has returned early.
\<close>

definition recv_logic :: "sr_dev_inst \<Rightarrow> fault + sr_dev_inst" where
  "recv_logic sdi =
     (case siglent_sds_get_digital sdi of
        Inl f \<Rightarrow> Inl f
      | Inr (len, sdi1) \<Rightarrow>
          if len = 0 then Inr sdi1
          else
            (case dig_buffer (priv sdi1) of
               None \<Rightarrow> Inl NULL_DEREF
             | Some buf \<Rightarrow>
                 (let sdi2 = dev_acquisition_stop
                               (std_session_send_df_frame_end (emit (DF_LOGIC 2 buf) sdi1));
                      sdi3 = sdi2\<lparr>priv := (priv sdi2)
                               \<lparr>num_frames := num_frames (priv sdi2) + 1\<rparr>\<rparr>
                  in if num_frames (priv sdi3) = limit_frames (priv sdi3)
                     then Inr (dev_acquisition_stop sdi3)
                     else
                       (let sdi4 = sdi3\<lparr>priv := (priv sdi3)
                                     \<lparr>channel_entry := enabled_channels (priv sdi3)\<rparr>\<rparr>
                        in case siglent_sds_capture_start sdi4 of
                             Inl f \<Rightarrow> Inl f
                           | Inr (rc, sdi5) \<Rightarrow> Inr (std_session_send_df_frame_begin sdi5)))))"

text \<open>
  Lines 594 to 620, the dispatch on \<open>wait_event\<close>: the boolean is \<open>False\<close> when the
  handler returns at once. The \<^verbatim>\<open>default\<close> branch of the \<^verbatim>\<open>switch\<close> has no value of
  the enumeration left.
\<close>

definition recv_dispatch :: "sr_dev_inst \<Rightarrow> fault + (bool \<times> sr_dev_inst)" where
  "recv_dispatch sdi =
     (case wait_event (priv sdi) of
        WAIT_NONE \<Rightarrow> Inr (True, sdi)
      | WAIT_TRIGGER \<Rightarrow>
          (case siglent_sds_trigger_wait sdi of
             Inl f \<Rightarrow> Inl f
           | Inr (rc, sdi1) \<Rightarrow>
               if rc \<noteq> SR_OK then Inr (False, sdi1)
               else
                 (case siglent_sds_channel_start sdi1 of
                    Inl f \<Rightarrow> Inl f
                  | Inr (rc2, sdi2) \<Rightarrow> Inr (rc2 = SR_OK, sdi2)))
      | WAIT_BLOCK \<Rightarrow>
          (case siglent_sds_channel_start sdi of
             Inl f \<Rightarrow> Inl f
           | Inr (rc, sdi1) \<Rightarrow> Inr (rc = SR_OK, sdi1))
      | WAIT_STOP \<Rightarrow>
          (case siglent_sds_stop_wait sdi of
             Inl f \<Rightarrow> Inl f
           | Inr (rc, sdi1) \<Rightarrow>
               if rc \<noteq> SR_OK then Inr (False, sdi1)
               else
                 (case siglent_sds_channel_start sdi1 of
                    Inl f \<Rightarrow> Inl f
                  | Inr (rc2, sdi2) \<Rightarrow> Inr (rc2 = SR_OK, sdi2))))"

text \<open>
  The part of the handler behind the header phase, for an analog channel: the payload
  loop, then the channel and frame progression.
\<close>

definition recv_analog_payload :: "sr_channel \<Rightarrow> sr_dev_inst \<Rightarrow> fault + sr_dev_inst" where
  "recv_analog_payload ch sdi =
     (case recv_block_loop ch sdi of
        BLOCK_RETURN sdi1 \<Rightarrow> Inr sdi1
      | BLOCK_DONE sdi1 \<Rightarrow> recv_next_channel sdi1)"

text \<open>
  \<^verbatim>\<open>siglent_sds_receive\<close>, the poll handler. It always returns \<^verbatim>\<open>TRUE\<close>; the result is
  the state it leaves, or a fault.
\<close>

definition siglent_sds_receive :: "int \<Rightarrow> sr_dev_inst \<Rightarrow> fault + sr_dev_inst" where
  "siglent_sds_receive revents sdi0 =
     (let sdi = g_usleep 1000 sdi0 in
      if \<not> (revents = G_IO_IN \<or> revents = 0) then Inr sdi
      else
        (case recv_dispatch sdi of
           Inl f \<Rightarrow> Inl f
         | Inr (go, sdi1) \<Rightarrow>
             if \<not> go then Inr sdi1
             else
               (case channel_entry (priv sdi1) of
                  [] \<Rightarrow> Inl NULL_DEREF
                | ch # next \<Rightarrow>
                    if ch_type ch = SR_CHANNEL_ANALOG then
                      (case recv_new_block sdi1 of
                         BLOCK_RETURN sdi2 \<Rightarrow> Inr sdi2
                       | BLOCK_DONE sdi2 \<Rightarrow> recv_analog_payload ch sdi2)
                    else recv_logic sdi1)))"

subsection \<open>siglent_sds_get_dev_cfg: the trigger position\<close>

text \<open>
  Modelled from the spec: \<^verbatim>\<open>g_strsplit(response, ",", 0)\<close> and \<^verbatim>\<open>g_ascii_strcasecmp\<close> of
  GLib are not part of the sources at hand. The first cuts the text at every comma (the
  empty text has no token); the second compares two texts without regard to the case of
  the ASCII letters.
\<close>

fun split_comma :: "string \<Rightarrow> string \<Rightarrow> string list" where
  "split_comma cur [] = [cur]"
| "split_comma cur (c # cs) =
     (if c = CHR '','' then cur # split_comma [] cs else split_comma (cur @ [c]) cs)"

definition g_strsplit_comma :: "string \<Rightarrow> string list" where
  "g_strsplit_comma response = (if response = [] then [] else split_comma [] response)"

definition g_ascii_tolower :: "char \<Rightarrow> char" where
  "g_ascii_tolower c =
     (case map_of (zip ''ABCDEFGHIJKLMNOPQRSTUVWXYZ'' ''abcdefghijklmnopqrstuvwxyz'') c of
        None \<Rightarrow> c
      | Some d \<Rightarrow> d)"

definition g_ascii_strcasecmp_eq :: "string \<Rightarrow> string \<Rightarrow> bool" where
  "g_ascii_strcasecmp_eq s1 s2 = (map g_ascii_tolower s1 = map g_ascii_tolower s2)"

text \<open>
  Lines 998 to 1012. \<open>atof\<close> is the C library's conversion, a parameter here.
  \<^verbatim>\<open>tokens[4] + (len - 2)\<close> points at the last two characters; for a token shorter than
  two characters it points in front of the text, the fault \<open>OUT_OF_BOUNDS\<close>.
\<close>

definition trigger_pos_of_token :: "(string \<Rightarrow> real) \<Rightarrow> string \<Rightarrow> fault + real" where
  "trigger_pos_of_token atof tok =
     (let len = length tok in
      if len < 2 then Inl OUT_OF_BOUNDS
      else
        (let suffix = drop (len - 2) tok in
         if g_ascii_strcasecmp_eq suffix ''us'' then Inr (atof tok / SR_GHZ 1)
         else if g_ascii_strcasecmp_eq suffix ''ns'' then Inr (atof tok / SR_MHZ 1)
         else if g_ascii_strcasecmp_eq suffix ''ms'' then Inr (atof tok / SR_KHZ 1)
         else if g_ascii_strcasecmp_eq suffix ''s'' then Inr (atof tok)
         else Inr 0))"

text \<open>
  Lines 976 to 1012 of \<^verbatim>\<open>siglent_sds_get_dev_cfg\<close>, from the answer to \<^verbatim>\<open>TRSE?\<close> on:
  fewer than four tokens give \<^verbatim>\<open>SR_ERR_DATA\<close>; with exactly four, \<^verbatim>\<open>tokens[4]\<close> is the
  NULL that ends the vector. \<^verbatim>\<open>g_strstrip\<close> of the trigger source is left out (the
  claims do not read it).
\<close>

definition get_dev_cfg_trigger ::
  "(string \<Rightarrow> real) \<Rightarrow> string \<Rightarrow> dev_context \<Rightarrow> fault + (int \<times> dev_context)" where
  "get_dev_cfg_trigger atof response devc =
     (let tokens = g_strsplit_comma response; num_tokens = length tokens in
      if num_tokens < 4 then Inr (SR_ERR_DATA, devc)
      else
        (let devc1 = devc\<lparr>trigger_source := tokens ! 2\<rparr> in
         if num_tokens < 5 then Inl NULL_DEREF
         else
           (case trigger_pos_of_token atof (tokens ! 4) of
              Inl f \<Rightarrow> Inl f
            | Inr trigger_pos \<Rightarrow> Inr (SR_OK, devc1\<lparr>horiz_triggerpos := trigger_pos\<rparr>))))"

subsection \<open>Observations of the trace\<close>

text \<open>The state that a loop or a phase of the handler leaves.\<close>

definition loop_state :: "loop_result \<Rightarrow> sr_dev_inst" where
  "loop_state r = (case r of LOOP_RETURN s \<Rightarrow> s | LOOP_BREAK s n d \<Rightarrow> s)"

definition pass_state :: "pass_result \<Rightarrow> sr_dev_inst" where
  "pass_state r = (case r of PASS_RETURN s \<Rightarrow> s | PASS_DONE s \<Rightarrow> s | PASS_AGAIN s \<Rightarrow> s)"

definition block_state :: "block_result \<Rightarrow> sr_dev_inst" where
  "block_state r = (case r of BLOCK_RETURN s \<Rightarrow> s | BLOCK_DONE s \<Rightarrow> s)"

text \<open>The number of payload bytes that the transport has delivered.\<close>

fun payload_bytes :: "event list \<Rightarrow> nat" where
  "payload_bytes [] = 0"
| "payload_bytes (SCPI_READ_DATA RD_PAYLOAD maxlen ret bs # es) = length bs + payload_bytes es"
| "payload_bytes (e # es) = payload_bytes es"

text \<open>The payload bytes of a trace, in the order of their delivery.\<close>

fun payload_data :: "event list \<Rightarrow> byte list" where
  "payload_data [] = []"
| "payload_data (SCPI_READ_DATA RD_PAYLOAD maxlen ret bs # es) = bs @ payload_data es"
| "payload_data (e # es) = payload_data es"

text \<open>A trace without analog packets.\<close>

fun no_analog :: "event list \<Rightarrow> bool" where
  "no_analog [] = True"
| "no_analog (DF_ANALOG c float_data digits mq unit # es) = False"
| "no_analog (e # es) = no_analog es"


subsection \<open>A C library for the worked examples\<close>

text \<open>
  The worked examples need one concrete \<^verbatim>\<open>log10f\<close>. They take the correctly rounded
  one: the decimal logarithm, rounded to the nearest number with a significand of 24
  bits (ties to the even significand), as IEEE 754 has it for \<^verbatim>\<open>binary32\<close>; the limits
  of the exponent are left out, no example comes near them.
\<close>

definition round_half_even :: "real \<Rightarrow> int" where
  "round_half_even y =
     (let f = \<lfloor>y\<rfloor>; d = y - of_int f
      in if d < 1 / 2 then f else if 1 / 2 < d then f + 1 else if even f then f else f + 1)"

definition float32_round :: "real \<Rightarrow> real" where
  "float32_round x =
     (if x = 0 then 0
      else (let ulp = 2 powr (of_int \<lfloor>log 2 \<bar>x\<bar>\<rfloor> - 23)
            in ulp * of_int (round_half_even (x / ulp))))"

definition log10f_nearest :: "real \<Rightarrow> real" where
  "log10f_nearest x = float32_round (log 10 x)"

subsection \<open>Concrete devices for the worked examples\<close>

text \<open>
  A zeroed device context, as \<^verbatim>\<open>g_malloc0\<close> gives it, with one volt per division and
  no offset; a transport that accepts four commands and two block reads and delivers
  the scripted data; the correctly rounded \<^verbatim>\<open>log10f\<close>.
\<close>

definition example_analog :: "nat \<Rightarrow> sr_channel" where
  "example_analog i = \<lparr>ch_index = i, ch_type = SR_CHANNEL_ANALOG, ch_enabled = True\<rparr>"

definition example_logic :: "nat \<Rightarrow> sr_channel" where
  "example_logic i = \<lparr>ch_index = i, ch_type = SR_CHANNEL_LOGIC, ch_enabled = True\<rparr>"

definition example_devc :: "protocol_version \<Rightarrow> data_source \<Rightarrow> sr_channel list \<Rightarrow> dev_context" where
  "example_devc p ds chs =
     \<lparr>protocol = p, num_horizontal_divs = 14, data_source = ds, limit_frames = 1,
      num_frames = 0, enabled_channels = chs, channel_entry = chs, timebase = 1,
      vdiv = (\<lambda>i. 1), vert_offset = (\<lambda>i. 0), memory_depth_analog = 0,
      memory_depth_digital = 0, wait_event = WAIT_NONE, wait_status = 0,
      num_header_bytes = 0, num_channel_bytes = 0, num_block_bytes = 0, num_block_read = 0,
      num_samples = 0, block_header_size = 0, retry_count = 0, close_history = False,
      dig_buffer = None, trigger_source = [], horiz_triggerpos = 0\<rparr>"

definition example_conn :: "rd list \<Rightarrow> sr_scpi_dev_inst" where
  "example_conn rds =
     \<lparr>send_rets = [True, True, True, True], string_rets = [], int_rets = [],
      read_begin_rets = [True, True], read_data_rets = rds, read_complete_rets = [True, True]\<rparr>"

definition example_sdi :: "dev_context \<Rightarrow> rd list \<Rightarrow> sr_dev_inst" where
  "example_sdi devc rds =
     \<lparr>channels = enabled_channels devc, conn = example_conn rds, priv = devc, session = [],
      clock_us = 0, libm_log10f = log10f_nearest\<rparr>"

lemmas example_defs =
  example_analog_def example_logic_def example_devc_def example_conn_def example_sdi_def


text \<open>A device that answers a block read with 363 zero bytes and then with \<open>tail\<close>.\<close>

definition example_header_sdi :: "byte list \<Rightarrow> sr_dev_inst" where
  "example_header_sdi tail =
     example_sdi (example_devc SPO_MODEL DATA_SOURCE_SCREEN [example_analog 0])
       [RD_DATA (replicate 363 0), RD_DATA tail]"

text \<open>A device with one logic channel, D1, whose raw stream holds the byte 5.\<close>

definition example_logic_sdi :: "protocol_version \<Rightarrow> nat \<Rightarrow> sr_dev_inst" where
  "example_logic_sdi p limit =
     example_sdi ((example_devc p DATA_SOURCE_READ_ONLY [example_logic 1])
        \<lparr>limit_frames := limit, memory_depth_digital := 1\<rparr>) [RD_DATA (replicate 15 0 @ [5])]"

text \<open>The same device with a memory depth of 2, one more than the raw stream holds.\<close>

definition example_logic_deep :: sr_dev_inst where
  "example_logic_deep =
     example_sdi ((example_devc SPO_MODEL DATA_SOURCE_READ_ONLY [example_logic 1])
        \<lparr>memory_depth_digital := 2\<rparr>) [RD_DATA (replicate 15 0 @ [5])]"



text \<open>
  A device whose channels are set to the \<^verbatim>\<open>float\<close> nearest to 0.1 V per division,
  \<open>13421773 / 2^27\<close>.
\<close>

definition example_tenth_sdi :: sr_dev_inst where
  "example_tenth_sdi =
     example_sdi ((example_devc ESERIES DATA_SOURCE_SCREEN [example_analog 0])
        \<lparr>vdiv := (\<lambda>i. 13421773 / 134217728)\<rparr>) []"

text \<open>
  The device with the logic channel D1, in its first poll (\<^verbatim>\<open>devc->dig_buffer\<close> is still
  unset), whose transport refuses to begin the block read.
\<close>

definition example_logic_stall :: sr_dev_inst where
  "example_logic_stall =
     (example_logic_sdi SPO_MODEL 1)
       \<lparr>conn := (example_conn [])\<lparr>read_begin_rets := [False]\<rparr>\<rparr>"

text \<open>
  A device at the start of a block of two analog channels: the header announces 100
  samples, and then the device sends the two line feeds only.
\<close>

definition example_empty_sdi :: "int \<Rightarrow> sr_dev_inst" where
  "example_empty_sdi retries =
     example_sdi ((example_devc SPO_MODEL DATA_SOURCE_SCREEN [example_analog 0, example_analog 1])
        \<lparr>retry_count := retries\<rparr>)
       [RD_DATA (replicate 75 0 @ [100, 0, 0, 0] @ replicate 284 0), RD_DATA [10, 10]]"

text \<open>
  A device in the middle of a block of 100 samples, of which one read has delivered 10.
\<close>

definition example_midblock_sdi :: "int \<Rightarrow> rd list \<Rightarrow> sr_dev_inst" where
  "example_midblock_sdi retries rds =
     example_sdi ((example_devc SPO_MODEL DATA_SOURCE_SCREEN [example_analog 0, example_analog 1])
        \<lparr>num_block_bytes := 10, num_block_read := 1, num_samples := 100,
         retry_count := retries\<rparr>) rds"

subsection \<open>Positions in the payload loops\<close>

text \<open>
  Where one call of the handler stands in its two loops. \<open>nth_pass ch sdi i\<close> is the
  state at the start of turn \<open>i\<close> of the outer \<^verbatim>\<open>do ... while (!read_complete)\<close> loop that
  was entered in state \<open>sdi\<close>, if the handler gets there: every turn before it has ended
  with an incomplete block. \<open>nth_read sdi loop_bytes_read loop_bytes_available data j\<close>
  is the state, \<^verbatim>\<open>loop_bytes_read\<close> and the content of \<^verbatim>\<open>devc->buffer\<close> after \<open>j\<close> more
  turns of the inner read loop, if each of them has read data and the loop has gone on.
\<close>

fun nth_pass :: "sr_channel \<Rightarrow> sr_dev_inst \<Rightarrow> nat \<Rightarrow> sr_dev_inst option" where
  "nth_pass ch sdi 0 = Some sdi"
| "nth_pass ch sdi (Suc i) =
     (if samples_left (priv sdi) < 0 then None
      else
        (case recv_read_loop sdi 0 (samples_left (priv sdi)) [] of
           LOOP_RETURN sdi1 \<Rightarrow> None
         | LOOP_BREAK sdi1 loop_bytes_read data \<Rightarrow>
             (case recv_after_pass ch sdi1 loop_bytes_read data of
                PASS_RETURN sdi2 \<Rightarrow> None
              | PASS_DONE sdi2 \<Rightarrow> None
              | PASS_AGAIN sdi2 \<Rightarrow> nth_pass ch sdi2 i)))"

fun nth_read ::
  "sr_dev_inst \<Rightarrow> int \<Rightarrow> int \<Rightarrow> byte list \<Rightarrow> nat \<Rightarrow> (sr_dev_inst \<times> int \<times> byte list) option" where
  "nth_read sdi loop_bytes_read loop_bytes_available data 0 = Some (sdi, loop_bytes_read, data)"
| "nth_read sdi loop_bytes_read loop_bytes_available data (Suc j) =
     (case sr_scpi_read_data RD_PAYLOAD (samples_left (priv sdi)) sdi of
        (len, bs, sdi1) \<Rightarrow>
          if len = - 1 \<or> len = 0 \<or> (len = 2 \<and> num_block_read (priv sdi1) = 0) then None
          else
            (let loop_bytes_read1 = loop_bytes_read + len;
                 data1 = data @ bs;
                 sdi2 = sdi1\<lparr>priv := (priv sdi1)
                          \<lparr>num_block_bytes := num_block_bytes (priv sdi1) + nat len,
                           num_block_read := num_block_read (priv sdi1) + 1\<rparr>\<rparr>
             in if loop_bytes_read1 < min 10240 loop_bytes_available
                then nth_read sdi2 loop_bytes_read1 loop_bytes_available data1 j
                else None))"

section \<open>Properties\<close>

subsection \<open>The correctly rounded log10f at the values of the examples\<close>

lemma round_half_even_int [simp]: "round_half_even (of_int k) = k"
  by (simp add: round_half_even_def)

lemma float32_round_zero [simp]: "float32_round 0 = 0"
  by (simp add: float32_round_def)

lemma float32_round_one [simp]: "float32_round 1 = 1"
proof -
  have "round_half_even (of_int 8388608) = 8388608" by (rule round_half_even_int)
  then have "round_half_even 8388608 = 8388608" by simp
  then show ?thesis
    by (simp add: float32_round_def Let_def powr_minus_divide)
qed

lemma float32_round_minus_one [simp]: "float32_round (- 1) = - 1"
proof -
  have "round_half_even (of_int (- 8388608)) = - 8388608" by (rule round_half_even_int)
  then have "round_half_even (- 8388608) = - 8388608" by simp
  then show ?thesis
    by (simp add: float32_round_def Let_def powr_minus_divide)
qed

lemma log10f_nearest_one [simp]: "log10f_nearest 1 = 0"
  by (simp add: log10f_nearest_def)

lemma log10f_nearest_ten [simp]: "log10f_nearest 10 = 1"
  by (simp add: log10f_nearest_def)

lemma floor_log2_half:
  assumes "1 / 2 \<le> a" and "a < (1::real)"
  shows "\<lfloor>log 2 a\<rfloor> = - 1"
proof -
  have pos: "0 < a" using assms by simp
  have "log 2 (1 / 2) \<le> log 2 a" using assms pos by (subst log_le_cancel_iff) simp_all
  moreover have "log 2 (1 / 2) = (- 1 :: real)" by (simp add: log_divide)
  moreover have "log 2 a < log 2 1" using assms pos by (subst log_less_cancel_iff) simp_all
  ultimately have "- 1 \<le> log 2 a" and "log 2 a < 0" by simp_all
  then show ?thesis by (simp add: floor_eq_iff)
qed

lemma float32_round_below_minus_one:
  assumes "- 1 < x" and "x < - 1 + 1 / 33554432"
  shows "float32_round x = - 1"
proof -
  have nz: "x \<noteq> 0" using assms by simp
  have ab: "\<bar>x\<bar> = - x" using assms by simp
  have e: "\<lfloor>log 2 \<bar>x\<bar>\<rfloor> = - 1" using assms by (intro floor_log2_half) (simp_all add: ab)
  have ulp: "(2::real) powr (- 24) = 1 / 16777216"
    by (simp add: powr_minus_divide)
  have y1: "- 16777216 < x * 16777216" and y2: "x * 16777216 < - 16777216 + 1 / 2"
    using assms by simp_all
  have fl: "\<lfloor>x * 16777216\<rfloor> = - 16777216" using y1 y2 by (simp add: floor_eq_iff)
  have "round_half_even (x * 16777216) = - 16777216"
    using y2 by (simp add: round_half_even_def fl Let_def)
  then show ?thesis using nz by (simp add: float32_round_def e ulp Let_def)
qed

lemma ln_ten_gt_one: "1 < ln (10::real)"
proof -
  have "exp 1 \<le> (3::real)" by (rule exp_le)
  then have "exp 1 < (10::real)" by simp
  then have "ln (exp 1) < ln (10::real)" by (subst ln_less_cancel_iff) simp_all
  then show ?thesis by simp
qed

lemma log10_tenth_float:
  "- 1 < log 10 (13421773 / 134217728 :: real)"
  "log 10 (13421773 / 134217728 :: real) < - 1 + 1 / 33554432"
proof -
  have "log 10 (1 / 10) < log 10 (13421773 / 134217728 :: real)"
    by (subst log_less_cancel_iff) simp_all
  moreover have "log 10 (1 / 10) = (- 1 :: real)" by (simp add: log_divide)
  ultimately show "- 1 < log 10 (13421773 / 134217728 :: real)" by simp
next
  let ?c = "1 / 33554432 :: real"
  have "1 + ?c * ln 10 \<le> exp (?c * ln 10)" by (rule exp_ge_add_one_self)
  moreover have "?c < ?c * ln 10" using ln_ten_gt_one by simp
  ultimately have "1 + ?c < exp (?c * ln 10)" by linarith
  then have a: "1 + ?c < 10 powr ?c" by (simp add: powr_def mult.commute)
  have "(13421773 / 134217728 :: real) < (1 / 10) * (1 + ?c)" by simp
  also have "\<dots> < (1 / 10) * 10 powr ?c" using a by simp
  also have "\<dots> = 10 powr (- 1 + ?c)"
  proof -
    have "(10::real) powr (- 1 + ?c) = 10 powr (- 1) * 10 powr ?c" by (rule powr_add)
    moreover have "(10::real) powr (- 1) = 1 / 10" by (simp add: powr_minus_divide)
    ultimately show ?thesis by simp
  qed
  finally have "log 10 (13421773 / 134217728 :: real) < log 10 (10 powr (- 1 + ?c))"
    by (subst log_less_cancel_iff) simp_all
  then show "log 10 (13421773 / 134217728 :: real) < - 1 + 1 / 33554432" by simp
qed

lemma log10f_nearest_tenth_float: "log10f_nearest (13421773 / 134217728) = - 1"
  unfolding log10f_nearest_def
  by (rule float32_round_below_minus_one [OF log10_tenth_float])

lemma round_half_even_near:
  "real_of_int (round_half_even y) \<le> y + 1 \<and> y - 1 \<le> real_of_int (round_half_even y)"
proof -
  have a: "real_of_int \<lfloor>y\<rfloor> \<le> y" and b: "y < real_of_int \<lfloor>y\<rfloor> + 1" by linarith+
  show ?thesis
    unfolding round_half_even_def Let_def using a b
    by (simp only: of_int_add of_int_1 split: if_split) linarith
qed

lemma float32_round_quarter:
  assumes "- 1 / 2 < x" and "x \<le> - 1 / 4"
  shows "x - 1 / 33554432 \<le> float32_round x" and "float32_round x \<le> x + 1 / 33554432"
proof -
  have nz: "x \<noteq> 0" using assms by simp
  have ab: "\<bar>x\<bar> = - x" using assms by simp
  have "log 2 (1 / 4) \<le> log 2 \<bar>x\<bar>" using assms by (subst log_le_cancel_iff) (simp_all add: ab)
  moreover have "log 2 (1 / 4) = (- 2 :: real)"
    using log_powr_cancel [of 2 "- 2"] by (simp add: powr_minus_divide)
  moreover have "log 2 \<bar>x\<bar> < log 2 (1 / 2)"
    using assms by (subst log_less_cancel_iff) (simp_all add: ab)
  moreover have "log 2 (1 / 2) = (- 1 :: real)" by (simp add: log_divide)
  ultimately have "- 2 \<le> log 2 \<bar>x\<bar>" and "log 2 \<bar>x\<bar> < - 1" by simp_all
  then have e: "\<lfloor>log 2 \<bar>x\<bar>\<rfloor> = - 2" by (simp add: floor_eq_iff)
  have ulp: "(2::real) powr (- 25) = 1 / 33554432"
    by (simp add: powr_minus_divide)
  have r: "float32_round x = real_of_int (round_half_even (x * 33554432)) / 33554432"
    using nz by (simp add: float32_round_def e ulp Let_def)
  note n = round_half_even_near [of "x * 33554432"]
  show "x - 1 / 33554432 \<le> float32_round x" unfolding r using n by (simp add: field_simps)
  show "float32_round x \<le> x + 1 / 33554432" unfolding r using n by (simp add: field_simps)
qed

lemma log10_half:
  "- 1 / 3 < log 10 (1 / 2 :: real)" "log 10 (1 / 2 :: real) < - 3 / 10"
proof -
  have l: "log 10 (1 / 2) = - log 10 (2 :: real)" by (simp add: log_divide)
  have "log 10 (8::real) < log 10 10" by (subst log_less_cancel_iff) simp_all
  moreover have "log 10 (8::real) = 3 * log 10 2" using log_nat_power [of 2 10 3] by simp
  ultimately have "3 * log 10 (2::real) < 1" by simp
  then show "- 1 / 3 < log 10 (1 / 2 :: real)" unfolding l by simp
  have "log 10 (1000::real) < log 10 1024" by (subst log_less_cancel_iff) simp_all
  moreover have "log 10 (1024::real) = 10 * log 10 2" using log_nat_power [of 2 10 10] by simp
  moreover have "log 10 (1000::real) = 3" using log_nat_power [of 10 10 3] by simp
  ultimately have "3 < 10 * log 10 (2::real)" by simp
  then show "log 10 (1 / 2 :: real) < - 3 / 10" unfolding l by simp
qed

lemma log10f_nearest_half:
  "- 1 < log10f_nearest (1 / 2)" "log10f_nearest (1 / 2) < 0"
proof -
  have a: "- 1 / 2 < log 10 (1 / 2 :: real)" and b: "log 10 (1 / 2 :: real) \<le> - 1 / 4"
    using log10_half by simp_all
  from float32_round_quarter [OF a b] log10_half
  show "- 1 < log10f_nearest (1 / 2)" "log10f_nearest (1 / 2) < 0"
    unfolding log10f_nearest_def by simp_all
qed

subsection \<open>The transport leaves the device context alone\<close>

lemma send_priv: "sr_scpi_send f a s = (rc, s') \<Longrightarrow> priv s' = priv s"
  by (auto simp: sr_scpi_send_def emit_def split: list.splits)

lemma read_data_priv: "sr_scpi_read_data site n s = (len, bs, s') \<Longrightarrow> priv s' = priv s"
  by (auto simp: sr_scpi_read_data_def emit_def split: list.splits rd.splits if_splits)

lemma channel_start_ok:
  "siglent_sds_channel_start s = Inr (SR_OK, s') \<Longrightarrow>
   wait_event (priv s') = WAIT_NONE \<and> wait_status (priv s') = 1 \<and>
   protocol (priv s') = protocol (priv s)"
  by (auto simp: siglent_sds_channel_start_def set_wait_event_def
        siglent_sds_set_wait_event_def
      dest!: send_priv
      split: list.splits prod.splits if_splits protocol_version.splits)

subsection \<open>C1: the wait state after arming an SPO model\<close>

lemma capture_start_spo_read_only:
  "protocol (priv sdi) = SPO_MODEL \<Longrightarrow> data_source (priv sdi) = DATA_SOURCE_READ_ONLY \<Longrightarrow>
   siglent_sds_capture_start sdi =
     Inr (SR_OK, sdi\<lparr>priv := (priv sdi)\<lparr>retry_count := 0, wait_status := 2\<rparr>\<rparr>)"
  by (simp add: siglent_sds_capture_start_def Let_def set_wait_event_def
        siglent_sds_set_wait_event_def)

lemma capture_start_spo_history:
  assumes "protocol (priv sdi) = SPO_MODEL" and "data_source (priv sdi) = DATA_SOURCE_HISTORY"
    and "siglent_sds_capture_start sdi = Inr (SR_OK, sdi')"
  shows "wait_status (priv sdi') = 2 \<and> wait_event (priv sdi') = WAIT_NONE"
  using assms
  apply (simp add: siglent_sds_capture_start_def Let_def siglent_sds_config_set_def
           split: prod.splits if_splits sum.splits)
  apply (auto dest!: send_priv read_data_priv channel_start_ok
           simp: emit_def set_wait_event_def siglent_sds_set_wait_event_def)
  done

text \<open>
  Claim C1, as the code has it. For protocol \<open>SPO_MODEL\<close>, \<^verbatim>\<open>siglent_sds_capture_start\<close>
  with data source \<open>READ_ONLY\<close> always succeeds and changes only \<open>retry_count\<close> (to 0) and
  \<open>wait_status\<close> (to 2): \<open>wait_event\<close> keeps the value it had. With data source
  \<open>HISTORY\<close>, whenever it succeeds it leaves \<open>wait_status = 2\<close> and
  \<open>wait_event = WAIT_NONE\<close> (the value \<^verbatim>\<open>siglent_sds_channel_start\<close> stored).
  \<^verbatim>\<open>siglent_sds_set_wait_event\<close> stores \<open>WAIT_STOP\<close> in \<open>wait_event\<close> for \<open>ESERIES\<close> only.
\<close>

theorem capture_start_spo_wait_state:
  "protocol (priv sdi) = SPO_MODEL \<Longrightarrow>
     (data_source (priv sdi) = DATA_SOURCE_READ_ONLY \<longrightarrow>
        siglent_sds_capture_start sdi =
          Inr (SR_OK, sdi\<lparr>priv := (priv sdi)\<lparr>retry_count := 0, wait_status := 2\<rparr>\<rparr>)) \<and>
     (data_source (priv sdi) = DATA_SOURCE_HISTORY \<longrightarrow>
        (\<forall>sdi'. siglent_sds_capture_start sdi = Inr (SR_OK, sdi') \<longrightarrow>
           wait_status (priv sdi') = 2 \<and> wait_event (priv sdi') = WAIT_NONE))"
  using capture_start_spo_read_only capture_start_spo_history by blast

theorem capture_start_spo_wait_state_witness:
  "protocol (example_devc SPO_MODEL DATA_SOURCE_READ_ONLY [example_analog 0]) = SPO_MODEL \<and>
   siglent_sds_capture_start
     (example_sdi (example_devc SPO_MODEL DATA_SOURCE_READ_ONLY [example_analog 0]) []) =
   Inr (SR_OK,
     example_sdi ((example_devc SPO_MODEL DATA_SOURCE_READ_ONLY [example_analog 0])
        \<lparr>retry_count := 0, wait_status := 2\<rparr>) []) \<and>
   (case siglent_sds_capture_start
           (example_sdi (example_devc SPO_MODEL DATA_SOURCE_HISTORY [example_analog 0])
              [RD_DATA (replicate 200 0)]) of
      Inl f \<Rightarrow> False
    | Inr (rc, s) \<Rightarrow>
        rc = SR_OK \<and> wait_status (priv s) = 2 \<and> wait_event (priv s) = WAIT_NONE)"
proof -
  let ?ro = "example_sdi (example_devc SPO_MODEL DATA_SOURCE_READ_ONLY [example_analog 0]) []"
  let ?hi = "example_sdi (example_devc SPO_MODEL DATA_SOURCE_HISTORY [example_analog 0])
               [RD_DATA (replicate 200 0)]"
  have p1: "protocol (priv ?ro) = SPO_MODEL" and d1: "data_source (priv ?ro) = DATA_SOURCE_READ_ONLY"
    by (simp_all add: example_defs)
  have p2: "protocol (priv ?hi) = SPO_MODEL" and d2: "data_source (priv ?hi) = DATA_SOURCE_HISTORY"
    by (simp_all add: example_defs)
  have ex: "\<exists>s. siglent_sds_capture_start ?hi = Inr (SR_OK, s)"
    by (simp add: siglent_sds_capture_start_def example_defs Let_def set_wait_event_def
          siglent_sds_set_wait_event_def siglent_sds_config_set_def sr_scpi_send_def
          sr_scpi_read_data_def emit_def le32_def siglent_sds_channel_start_def)
  then obtain s where s: "siglent_sds_capture_start ?hi = Inr (SR_OK, s)" ..
  from capture_start_spo_wait_state [OF p2] d2 s
  have "wait_status (priv s) = 2 \<and> wait_event (priv s) = WAIT_NONE" by blast
  with s have hist: "(case siglent_sds_capture_start ?hi of
      Inl f \<Rightarrow> False
    | Inr (rc, s) \<Rightarrow>
        rc = SR_OK \<and> wait_status (priv s) = 2 \<and> wait_event (priv s) = WAIT_NONE)"
    by simp
  from capture_start_spo_wait_state [OF p1] d1
  have "siglent_sds_capture_start ?ro =
          Inr (SR_OK, ?ro\<lparr>priv := (priv ?ro)\<lparr>retry_count := 0, wait_status := 2\<rparr>\<rparr>)"
    by blast
  then have ro: "siglent_sds_capture_start ?ro =
      Inr (SR_OK, example_sdi ((example_devc SPO_MODEL DATA_SOURCE_READ_ONLY [example_analog 0])
        \<lparr>retry_count := 0, wait_status := 2\<rparr>) [])"
    by (simp add: example_defs)
  from ro hist show ?thesis by (simp add: example_devc_def)
qed

text \<open>
  The claim as stated fails: an SPO model armed for \<open>READ_ONLY\<close>, and one armed for
  \<open>HISTORY\<close> against a device that answers \<^verbatim>\<open>FPAR?\<close> with 200 zero bytes, end with
  \<open>wait_status = 2\<close> and \<open>wait_event = WAIT_NONE\<close>, not \<open>WAIT_STOP\<close>; the dispatch of the
  next poll then passes without waiting for anything.
\<close>

theorem capture_start_spo_wait_event_counterexample:
  "(case siglent_sds_capture_start
           (example_sdi (example_devc SPO_MODEL DATA_SOURCE_READ_ONLY [example_analog 0]) []) of
      Inl f \<Rightarrow> False
    | Inr (rc, s) \<Rightarrow>
        rc = SR_OK \<and> wait_status (priv s) = 2 \<and> wait_event (priv s) \<noteq> WAIT_STOP \<and>
        recv_dispatch s = Inr (True, s)) \<and>
   (case siglent_sds_capture_start
           (example_sdi (example_devc SPO_MODEL DATA_SOURCE_HISTORY [example_analog 0])
              [RD_DATA (replicate 200 0)]) of
      Inl f \<Rightarrow> False
    | Inr (rc, s) \<Rightarrow>
        rc = SR_OK \<and> wait_status (priv s) = 2 \<and> wait_event (priv s) \<noteq> WAIT_STOP \<and>
        recv_dispatch s = Inr (True, s))"
  by (simp add: siglent_sds_capture_start_def example_defs Let_def set_wait_event_def
        siglent_sds_set_wait_event_def recv_dispatch_def siglent_sds_config_set_def
        sr_scpi_send_def sr_scpi_read_data_def emit_def le32_def siglent_sds_channel_start_def)

subsection \<open>C6: a header that announces no data\<close>

lemma read_data_session:
  "sr_scpi_read_data site n s = (len, bs, s') \<Longrightarrow>
   session s' = session s @ [SCPI_READ_DATA site n len bs]"
  by (auto simp: sr_scpi_read_data_def emit_def split: list.splits rd.splits if_splits)

lemma read_header_loop_priv:
  "read_header_loop s t b = (r, s') \<Longrightarrow> priv s' = priv s"
proof (induction s t b rule: read_header_loop.induct)
  case (1 sdi tot buf)
  obtain n bs s1 where rd: "sr_scpi_read_data RD_HEADER (SIGLENT_HEADER_SIZE - tot) sdi = (n, bs, s1)"
    by (cases "sr_scpi_read_data RD_HEADER (SIGLENT_HEADER_SIZE - tot) sdi") auto
  note p = read_data_priv [OF rd]
  show ?case
  proof (cases "n = - 1 \<or> n = 0 \<or> \<not> tot + n < SIGLENT_HEADER_SIZE")
    case True
    with "1.prems" rd p show ?thesis
      by (subst (asm) read_header_loop.simps) (auto simp: Let_def emit_def split: if_splits)
  next
    case False
    then have n1: "n \<noteq> - 1" and n0: "n \<noteq> 0" and lt: "tot + n < SIGLENT_HEADER_SIZE" by auto
    from "1.prems" rd n1 n0 lt have "read_header_loop s1 (tot + n) (buf @ bs) = (r, s')"
      by (subst (asm) read_header_loop.simps) (simp add: Let_def)
    from "1.IH" [OF rd [symmetric] refl n1 n0 refl refl lt this] p show ?thesis by simp
  qed
qed

text \<open>
  Claim C6. When the header loop has gathered its bytes (\<open>hdr\<close>) and the data length
  field, bytes 60 to 63 behind the 15 bytes of framing, is 0, the header parse asks the
  transport for 3 more bytes (the read \<open>RD_PROBE 3\<close> is the next event of the trace),
  logs the empty-waveform error when exactly 2 bytes came back and the garbage-waveform
  error otherwise, returns \<^verbatim>\<open>SR_ERR\<close> in both cases, and leaves \<open>num_samples\<close> and
  \<open>block_header_size\<close> as they were.
\<close>

theorem read_header_zero_data_length:
  assumes loop: "read_header_loop sdi 0 [] = (Some (tot, hdr), sdi1)"
    and zero: "le32 (drop 15 hdr) 60 = 0"
    and probe: "sr_scpi_read_data RD_PROBE 3
        (sdi1\<lparr>priv := (priv sdi1)\<lparr>num_header_bytes :=
           num_header_bytes (priv sdi1) + nat tot\<rparr>\<rparr>) = (len, bs, sdi3)"
  shows "siglent_sds_read_header sdi =
           (SR_ERR, sr_err (if len = 2 then ''Empty waveform, abort''
                            else ''Garbage waveform, abrot'') sdi3) \<and>
         session sdi3 = session sdi1 @ [SCPI_READ_DATA RD_PROBE 3 len bs] \<and>
         num_samples (priv (snd (siglent_sds_read_header sdi))) = num_samples (priv sdi) \<and>
         block_header_size (priv (snd (siglent_sds_read_header sdi))) =
           block_header_size (priv sdi)"
proof -
  have res: "siglent_sds_read_header sdi =
           (SR_ERR, sr_err (if len = 2 then ''Empty waveform, abort''
                            else ''Garbage waveform, abrot'') sdi3)"
    using loop zero probe by (simp add: siglent_sds_read_header_def Let_def sr_err_def)
  have "priv sdi3 = (priv sdi1)\<lparr>num_header_bytes := num_header_bytes (priv sdi1) + nat tot\<rparr>"
    using read_data_priv [OF probe] by simp
  moreover have "priv sdi1 = priv sdi" using read_header_loop_priv [OF loop] .
  moreover have "session sdi3 = session sdi1 @ [SCPI_READ_DATA RD_PROBE 3 len bs]"
    using read_data_session [OF probe] by simp
  ultimately show ?thesis using res by (simp add: sr_err_def emit_def)
qed

theorem read_header_zero_data_length_witness:
  "siglent_sds_read_header (example_header_sdi [10, 10]) =
     (SR_ERR,
      (example_header_sdi [10, 10])
        \<lparr>conn := example_conn [],
         priv := (example_devc SPO_MODEL DATA_SOURCE_SCREEN [example_analog 0])
                   \<lparr>num_header_bytes := 363\<rparr>,
         session := [SCPI_READ_DATA RD_HEADER 363 363 (replicate 363 0),
                     SCPI_READ_DATA RD_PROBE 3 2 [10, 10],
                     SR_ERR_LOG ''Empty waveform, abort'']\<rparr>) \<and>
   siglent_sds_read_header (example_header_sdi [1, 2, 3]) =
     (SR_ERR,
      (example_header_sdi [1, 2, 3])
        \<lparr>conn := example_conn [],
         priv := (example_devc SPO_MODEL DATA_SOURCE_SCREEN [example_analog 0])
                   \<lparr>num_header_bytes := 363\<rparr>,
         session := [SCPI_READ_DATA RD_HEADER 363 363 (replicate 363 0),
                     SCPI_READ_DATA RD_PROBE 3 3 [1, 2, 3],
                     SR_ERR_LOG ''Garbage waveform, abrot'']\<rparr>)"
proof -
  have one: "siglent_sds_read_header (example_header_sdi tail) =
     (SR_ERR,
      (example_header_sdi tail)
        \<lparr>conn := example_conn [],
         priv := (example_devc SPO_MODEL DATA_SOURCE_SCREEN [example_analog 0])
                   \<lparr>num_header_bytes := 363\<rparr>,
         session := [SCPI_READ_DATA RD_HEADER 363 363 (replicate 363 0),
                     SCPI_READ_DATA RD_PROBE 3 (int (length tail)) tail,
                     SR_ERR_LOG (if int (length tail) = 2 then ''Empty waveform, abort''
                            else ''Garbage waveform, abrot'')]\<rparr>)"
    if "length tail \<le> 3" for tail
  proof -
    let ?X = "example_header_sdi tail"
    let ?X1 = "?X\<lparr>conn := example_conn [RD_DATA tail],
                 session := [SCPI_READ_DATA RD_HEADER 363 363 (replicate 363 0)]\<rparr>"
    let ?X3 = "?X\<lparr>conn := example_conn [],
                 priv := (priv ?X)\<lparr>num_header_bytes := 363\<rparr>,
                 session := [SCPI_READ_DATA RD_HEADER 363 363 (replicate 363 0),
                             SCPI_READ_DATA RD_PROBE 3 (int (length tail)) tail]\<rparr>"
    have loop: "read_header_loop ?X 0 [] = (Some (363, replicate 363 0), ?X1)"
      by (subst read_header_loop.simps)
         (simp add: example_header_sdi_def example_defs sr_scpi_read_data_def emit_def)
    have zero: "le32 (drop 15 (replicate 363 0 :: byte list)) 60 = 0"
      by (simp add: le32_def)
    have probe: "sr_scpi_read_data RD_PROBE 3
        (?X1\<lparr>priv := (priv ?X1)\<lparr>num_header_bytes :=
           num_header_bytes (priv ?X1) + nat 363\<rparr>\<rparr>) = (int (length tail), tail, ?X3)"
      using that
      by (simp add: example_header_sdi_def example_defs sr_scpi_read_data_def emit_def)
    from read_header_zero_data_length [OF loop zero probe]
    show ?thesis
      by (simp add: example_header_sdi_def example_defs sr_err_def emit_def)
  qed
  from one [of "[10, 10]"] one [of "[1, 2, 3]"] show ?thesis by simp
qed

subsection \<open>C7: the unit of the trigger delay\<close>

lemma strcasecmp_len: "g_ascii_strcasecmp_eq s1 s2 \<Longrightarrow> length s1 = length s2"
  unfolding g_ascii_strcasecmp_eq_def by (metis length_map)

text \<open>
  Claim C7, where the code departs from it. The comparison with \<^verbatim>\<open>"s"\<close> is made
  against the last two characters of the token, like the three before it, and two
  characters never equal a text of one: a token of at least two characters that ends
  in none of \<open>us\<close>, \<open>ns\<close>, \<open>ms\<close> gives the trigger position 0, whatever \<open>atof\<close> makes
  of it. A delay in seconds such as \<open>2.00s\<close> is stored as 0, not as 2.
\<close>

theorem trigger_pos_seconds_suffix_dropped:
  assumes "2 \<le> length tok"
    and "\<not> g_ascii_strcasecmp_eq (drop (length tok - 2) tok) ''us''"
    and "\<not> g_ascii_strcasecmp_eq (drop (length tok - 2) tok) ''ns''"
    and "\<not> g_ascii_strcasecmp_eq (drop (length tok - 2) tok) ''ms''"
  shows "trigger_pos_of_token atof tok = Inr 0"
proof -
  have "length (drop (length tok - 2) tok) = 2" using assms(1) by simp
  then have "\<not> g_ascii_strcasecmp_eq (drop (length tok - 2) tok) ''s''"
    using strcasecmp_len by fastforce
  with assms show ?thesis by (simp add: trigger_pos_of_token_def Let_def)
qed

theorem trigger_pos_seconds_suffix_dropped_witness:
  "trigger_pos_of_token (\<lambda>s. 2) ''2.00s'' = Inr 0 \<and>
   get_dev_cfg_trigger (\<lambda>s. 2) ''EDGE,SR,C1,HT,2.00s''
     (example_devc SPO_MODEL DATA_SOURCE_SCREEN [example_analog 0]) =
   Inr (SR_OK, (example_devc SPO_MODEL DATA_SOURCE_SCREEN [example_analog 0])
                 \<lparr>trigger_source := ''C1'', horiz_triggerpos := 0\<rparr>) \<and>
   trigger_pos_of_token (\<lambda>s. 2) ''2.00us'' = Inr (2 / 1000000000) \<and>
   trigger_pos_of_token (\<lambda>s. 2) ''2.00NS'' = Inr (2 / 1000000) \<and>
   trigger_pos_of_token (\<lambda>s. 2) ''2.00mS'' = Inr (2 / 1000)"
  using trigger_pos_seconds_suffix_dropped [of "''2.00s''" "\<lambda>s. 2"]
  by (simp add: get_dev_cfg_trigger_def g_strsplit_comma_def Let_def
        g_ascii_strcasecmp_eq_def g_ascii_tolower_def trigger_pos_of_token_def
        SR_GHZ_def SR_MHZ_def SR_KHZ_def)

subsection \<open>C10: array bounds in the logic reader\<close>

lemma read_begin_priv: "sr_scpi_read_begin s = (rc, s') \<Longrightarrow> priv s' = priv s"
  by (auto simp: sr_scpi_read_begin_def emit_def split: list.splits)

lemma sample_bits_shape:
  "sample_bits k s c prev si flag tmp = (si', flag', tmp') \<Longrightarrow>
   si' = si + k \<and> length tmp' = length tmp + k \<and>
   (flag' \<longleftrightarrow> flag \<or> (0 < k \<and> length prev < si + k))"
proof (induction k arbitrary: s si flag tmp)
  case 0
  then show ?case by simp
next
  case (Suc k)
  let ?v = "if s AND 1 \<noteq> 0
         then (if length prev \<le> si then 0 else prev ! si) OR push_bit c 1
         else if length prev \<le> si then 0 else prev ! si"
  from Suc.prems
  have "sample_bits k (signed_drop_bit 1 s) c prev (Suc si) (flag \<or> length prev \<le> si)
          (tmp @ [?v]) = (si', flag', tmp')"
    by (simp add: Let_def)
  from Suc.IH [OF this] show ?case by auto
qed

lemma bitplane_loop_fault:
  "(bitplane_loop n cur bd c prev si flag tmp = Inl f) \<longleftrightarrow>
   (f = OUT_OF_BOUNDS \<and> 0 < n \<and> length bd < cur + n)"
proof (induction n arbitrary: cur si flag tmp)
  case 0
  then show ?case by simp
next
  case (Suc n)
  show ?case
  proof (cases "length bd \<le> cur")
    case True
    then show ?thesis by auto
  next
    case False
    obtain si1 flag1 tmp1 where sb: "sample_bits 8 (bd ! cur) c prev si flag tmp = (si1, flag1, tmp1)"
      by (cases "sample_bits 8 (bd ! cur) c prev si flag tmp") auto
    from False sb Suc.IH [of "Suc cur" si1 flag1 tmp1] show ?thesis by auto
  qed
qed

lemma bitplane_loop_shape:
  "bitplane_loop n cur bd c prev si flag tmp = Inr (flag', tmp') \<Longrightarrow>
   length tmp' = length tmp + 8 * n \<and>
   (flag' \<longleftrightarrow> flag \<or> (0 < n \<and> length prev < si + 8 * n))"
proof (induction n arbitrary: cur si flag tmp)
  case 0
  then show ?case by simp
next
  case (Suc n)
  from Suc.prems have nb: "\<not> length bd \<le> cur" by (auto split: if_splits)
  obtain si1 flag1 tmp1 where sb: "sample_bits 8 (bd ! cur) c prev si flag tmp = (si1, flag1, tmp1)"
    by (cases "sample_bits 8 (bd ! cur) c prev si flag tmp") auto
  note sh = sample_bits_shape [OF sb]
  from Suc.prems nb sb have "bitplane_loop n (Suc cur) bd c prev si1 flag1 tmp1 = Inr (flag', tmp')"
    by simp
  from Suc.IH [OF this] sh show ?case by auto
qed

lemma dig_interleave_fault:
  "(dig_interleave n idx lo hi lf hf buf = Inl f) \<longleftrightarrow>
   (f = OUT_OF_BOUNDS \<and> 0 < n \<and>
      ((lf \<and> length lo < idx + n) \<or> (hf \<and> length hi < idx + n)))"
proof (induction n arbitrary: idx buf)
  case 0
  then show ?case by simp
next
  case (Suc n)
  from Suc.IH [of "Suc idx"] show ?case by auto
qed

lemma dig_interleave_length:
  "dig_interleave n idx lo hi lf hf buf = Inr buf' \<Longrightarrow> length buf' = length buf + 2 * n"
proof (induction n arbitrary: idx buf)
  case 0
  then show ?case by simp
next
  case (Suc n)
  from Suc.prems Suc.IH [of "Suc idx"] show ?case by (auto split: if_splits)
qed


lemma get_digital_channel_read:
  assumes "ch_type ch = SR_CHANNEL_LOGIC" and "ch_enabled ch"
    and "sr_scpi_send ''D%d:WF? DAT2'' [int (ch_index ch)] sdi = (rc, sdi1)"
    and "sr_scpi_read_begin sdi1 = (rc2, sdi2)"
    and "sr_scpi_read_data RD_DIGITAL (- 1) sdi2 = (len0, bs, sdi3)"
  shows "get_digital_channel ch sdi len lo hi lf hf =
     (if rc \<noteq> SR_OK then Inr (DIG_RETURN SR_ERR sdi1)
      else if rc2 \<noteq> SR_OK then Inr (DIG_RETURN C_TRUE sdi2)
      else if len0 < 0 then Inr (DIG_RETURN C_TRUE sdi3)
      else if len0 - 15 < 0 then Inl BAD_ALLOC
      else
        (case bitplane_loop (memory_depth_digital (priv sdi3)) 0
                (take (nat (len0 - 15)) (drop 15 bs))
                (if ch_index ch < 8 then ch_index ch else ch_index ch - 8)
                (if ch_index ch < 8 then lo else hi) 0
                (if ch_index ch < 8 then lf else hf) [] of
           Inl f \<Rightarrow> Inl f
         | Inr (flag1, tmp_samplebuf) \<Rightarrow>
             if ch_index ch < 8 then Inr (DIG_NEXT sdi3 (len0 - 15) tmp_samplebuf hi flag1 hf)
             else Inr (DIG_NEXT sdi3 (len0 - 15) lo tmp_samplebuf lf flag1)))"
  unfolding get_digital_channel_def Let_def using assms by simp


lemma get_digital_channel_fault:
  assumes lg: "ch_type ch = SR_CHANNEL_LOGIC" and en: "ch_enabled ch"
    and snd: "sr_scpi_send ''D%d:WF? DAT2'' [int (ch_index ch)] sdi = (SR_OK, sdi1)"
    and beg: "sr_scpi_read_begin sdi1 = (SR_OK, sdi2)"
    and rd: "sr_scpi_read_data RD_DIGITAL (- 1) sdi2 = (len0, bs, sdi3)"
    and nn: "0 \<le> len0"
  shows "(\<exists>f. get_digital_channel ch sdi len lo hi lf hf = Inl f) \<longleftrightarrow>
         len0 - 15 < int (memory_depth_digital (priv sdi))"
proof -
  have mdd: "memory_depth_digital (priv sdi3) = memory_depth_digital (priv sdi)"
    using send_priv [OF snd] read_begin_priv [OF beg] read_data_priv [OF rd] by simp
  have lenbs: "int (length bs) = len0" using read_data_ret [OF rd] nn by auto
  note eq = get_digital_channel_read [OF lg en snd beg rd, of len lo hi lf hf]
  show ?thesis
  proof (cases "len0 - 15 < 0")
    case True
    with nn show ?thesis unfolding eq by simp
  next
    case False
    let ?bd = "take (nat (len0 - 15)) (drop 15 bs)"
    have lbd: "length ?bd = nat (len0 - 15)" using lenbs False by auto
    let ?c = "if ch_index ch < 8 then ch_index ch else ch_index ch - 8"
    let ?prev = "if ch_index ch < 8 then lo else hi"
    let ?flag = "if ch_index ch < 8 then lf else hf"
    let ?bl = "bitplane_loop (memory_depth_digital (priv sdi)) 0 ?bd ?c ?prev 0 ?flag []"
    have "(?bl = Inl f) \<longleftrightarrow>
          (f = OUT_OF_BOUNDS \<and> 0 < memory_depth_digital (priv sdi) \<and>
           length ?bd < memory_depth_digital (priv sdi))" for f
      using bitplane_loop_fault [of "memory_depth_digital (priv sdi)" 0 ?bd ?c ?prev 0 ?flag "[]" f]
      by simp
    then have "(\<exists>f. ?bl = Inl f) \<longleftrightarrow>
          (0 < memory_depth_digital (priv sdi) \<and> length ?bd < memory_depth_digital (priv sdi))"
      by blast
    also have "\<dots> \<longleftrightarrow> len0 - 15 < int (memory_depth_digital (priv sdi))"
      unfolding lbd using False by linarith
    finally have bl: "(\<exists>f. ?bl = Inl f) \<longleftrightarrow>
        len0 - 15 < int (memory_depth_digital (priv sdi))" .
    have eq2: "get_digital_channel ch sdi len lo hi lf hf =
        (case ?bl of
           Inl f \<Rightarrow> Inl f
         | Inr (flag1, tmp_samplebuf) \<Rightarrow>
             if ch_index ch < 8 then Inr (DIG_NEXT sdi3 (len0 - 15) tmp_samplebuf hi flag1 hf)
             else Inr (DIG_NEXT sdi3 (len0 - 15) lo tmp_samplebuf lf flag1))"
      unfolding eq mdd using nn False by simp
    have "(\<exists>f. get_digital_channel ch sdi len lo hi lf hf = Inl f) \<longleftrightarrow> (\<exists>f. ?bl = Inl f)"
    proof (cases ?bl)
      case (Inl f)
      then show ?thesis unfolding eq2 by simp
    next
      case (Inr p)
      then show ?thesis unfolding eq2 by (cases p) simp
    qed
    with bl show ?thesis by simp
  qed
qed

lemma get_digital_channel_inv:
  assumes step: "get_digital_channel ch sdi len lo hi lf hf = Inr (DIG_NEXT sdi' len' lo' hi' lf' hf')"
    and lo: "length lo = (if lf then 8 * memory_depth_digital (priv sdi) else 0)"
    and hi: "length hi = (if hf then 8 * memory_depth_digital (priv sdi) else 0)"
  shows "memory_depth_digital (priv sdi') = memory_depth_digital (priv sdi) \<and>
         length lo' = (if lf' then 8 * memory_depth_digital (priv sdi) else 0) \<and>
         length hi' = (if hf' then 8 * memory_depth_digital (priv sdi) else 0)"
proof (cases "ch_type ch = SR_CHANNEL_LOGIC \<and> ch_enabled ch")
  case False
  with assms show ?thesis by (auto simp: get_digital_channel_def)
next
  case True
  then have lg: "ch_type ch = SR_CHANNEL_LOGIC" and en: "ch_enabled ch" by auto
  obtain rc sdi1 where snd: "sr_scpi_send ''D%d:WF? DAT2'' [int (ch_index ch)] sdi = (rc, sdi1)"
    by (cases "sr_scpi_send ''D%d:WF? DAT2'' [int (ch_index ch)] sdi") auto
  obtain rc2 sdi2 where beg: "sr_scpi_read_begin sdi1 = (rc2, sdi2)"
    by (cases "sr_scpi_read_begin sdi1") auto
  obtain len0 bs sdi3 where rd: "sr_scpi_read_data RD_DIGITAL (- 1) sdi2 = (len0, bs, sdi3)"
    by (cases "sr_scpi_read_data RD_DIGITAL (- 1) sdi2") auto
  have mdd: "memory_depth_digital (priv sdi3) = memory_depth_digital (priv sdi)"
    using send_priv [OF snd] read_begin_priv [OF beg] read_data_priv [OF rd] by simp
  let ?m = "memory_depth_digital (priv sdi)"
  let ?bd = "take (nat (len0 - 15)) (drop 15 bs)"
  note eq = get_digital_channel_read [OF lg en snd beg rd, of len lo hi lf hf]
  from step have ok: "rc = SR_OK" "rc2 = SR_OK" "\<not> len0 < 0" "\<not> len0 - 15 < 0"
    unfolding eq by (auto split: if_splits)
  show ?thesis
  proof (cases "ch_index ch < 8")
    case low: True
    from step ok low mdd
    obtain flag1 tmp where bl: "bitplane_loop ?m 0 ?bd (ch_index ch) lo 0 lf [] = Inr (flag1, tmp)"
      and res: "sdi' = sdi3" "lo' = tmp" "hi' = hi" "lf' = flag1" "hf' = hf"
      unfolding eq
      by (cases "bitplane_loop ?m 0 ?bd (ch_index ch) lo 0 lf []") auto
    from bitplane_loop_shape [OF bl] lo hi res mdd show ?thesis by (auto split: if_splits)
  next
    case high: False
    from step ok high mdd
    obtain flag1 tmp where bl: "bitplane_loop ?m 0 ?bd (ch_index ch - 8) hi 0 hf [] = Inr (flag1, tmp)"
      and res: "sdi' = sdi3" "lo' = lo" "hi' = tmp" "lf' = lf" "hf' = flag1"
      unfolding eq
      by (cases "bitplane_loop ?m 0 ?bd (ch_index ch - 8) hi 0 hf []") auto
    from bitplane_loop_shape [OF bl] lo hi res mdd show ?thesis by (auto split: if_splits)
  qed
qed

lemma get_digital_channels_inv:
  "get_digital_channels l sdi len lo hi lf hf = Inr (DIG_NEXT sdi' len' lo' hi' lf' hf') \<Longrightarrow>
   length lo = (if lf then 8 * memory_depth_digital (priv sdi) else 0) \<Longrightarrow>
   length hi = (if hf then 8 * memory_depth_digital (priv sdi) else 0) \<Longrightarrow>
   memory_depth_digital (priv sdi') = memory_depth_digital (priv sdi) \<and>
   length lo' = (if lf' then 8 * memory_depth_digital (priv sdi) else 0) \<and>
   length hi' = (if hf' then 8 * memory_depth_digital (priv sdi) else 0)"
proof (induction l arbitrary: sdi len lo hi lf hf)
  case Nil
  then show ?case by simp
next
  case (Cons ch l)
  from Cons.prems(1) obtain s1 len1 lo1 hi1 lf1 hf1 where
    step: "get_digital_channel ch sdi len lo hi lf hf = Inr (DIG_NEXT s1 len1 lo1 hi1 lf1 hf1)"
    and rest: "get_digital_channels l s1 len1 lo1 hi1 lf1 hf1 = Inr (DIG_NEXT sdi' len' lo' hi' lf' hf')"
    by (auto split: sum.splits dig_step.splits)
  note i1 = get_digital_channel_inv [OF step Cons.prems(2,3)]
  from Cons.IH [OF rest] i1 show ?case by simp
qed


text \<open>
  Claim C10. For an enabled logic channel whose command and read begin succeed and
  whose read returns \<open>len0 \<ge> 0\<close>, the raw array holds \<open>len0 - 15\<close> bytes and the
  bit-planing loop reads it at the indices below \<open>memory_depth_digital\<close>: the channel
  step faults (an allocation with a negative length, or a read past the array) exactly
  when \<open>len0 - 15 < memory_depth_digital\<close>. When the loop over the channels comes
  through, an accumulator whose flag is set holds \<open>8 * memory_depth_digital\<close> bytes (a
  channel of that half was processed) and one whose flag is not set is not read at all,
  so the interleave reads the indices below \<open>memory_depth_digital\<close> within bounds and
  stores \<open>2 * memory_depth_digital\<close> bytes.
\<close>

theorem get_digital_bounds:
  "(ch_type ch = SR_CHANNEL_LOGIC \<and> ch_enabled ch \<and>
    sr_scpi_send ''D%d:WF? DAT2'' [int (ch_index ch)] sdi = (SR_OK, sdi1) \<and>
    sr_scpi_read_begin sdi1 = (SR_OK, sdi2) \<and>
    sr_scpi_read_data RD_DIGITAL (- 1) sdi2 = (len0, bs, sdi3) \<and> 0 \<le> len0 \<longrightarrow>
      ((\<exists>f. get_digital_channel ch sdi len lo hi lf hf = Inl f) \<longleftrightarrow>
       len0 - 15 < int (memory_depth_digital (priv sdi)))) \<and>
   (\<forall>sdi' len' lo' hi' lf' hf'.
      get_digital_channels (channels sdi) sdi 0 [] [] False False =
        Inr (DIG_NEXT sdi' len' lo' hi' lf' hf') \<longrightarrow>
      length lo' = (if lf' then 8 * memory_depth_digital (priv sdi) else 0) \<and>
      length hi' = (if hf' then 8 * memory_depth_digital (priv sdi) else 0) \<and>
      (\<exists>buf. length buf = 2 * memory_depth_digital (priv sdi) \<and>
         siglent_sds_get_digital sdi =
           Inr (len', sdi'\<lparr>priv := (priv sdi')\<lparr>dig_buffer := Some buf\<rparr>\<rparr>)))"
proof (intro conjI impI allI)
  assume "ch_type ch = SR_CHANNEL_LOGIC \<and> ch_enabled ch \<and>
    sr_scpi_send ''D%d:WF? DAT2'' [int (ch_index ch)] sdi = (SR_OK, sdi1) \<and>
    sr_scpi_read_begin sdi1 = (SR_OK, sdi2) \<and>
    sr_scpi_read_data RD_DIGITAL (- 1) sdi2 = (len0, bs, sdi3) \<and> 0 \<le> len0"
  then show "(\<exists>f. get_digital_channel ch sdi len lo hi lf hf = Inl f) \<longleftrightarrow>
       len0 - 15 < int (memory_depth_digital (priv sdi))"
    using get_digital_channel_fault by blast
next
  fix sdi' len' lo' hi' lf' hf'
  let ?m = "memory_depth_digital (priv sdi)"
  assume run: "get_digital_channels (channels sdi) sdi 0 [] [] False False =
        Inr (DIG_NEXT sdi' len' lo' hi' lf' hf')"
  have inv: "memory_depth_digital (priv sdi') = ?m \<and>
      length lo' = (if lf' then 8 * ?m else 0) \<and> length hi' = (if hf' then 8 * ?m else 0)"
    using get_digital_channels_inv [OF run] by simp
  then show "length lo' = (if lf' then 8 * ?m else 0)"
    and "length hi' = (if hf' then 8 * ?m else 0)" by simp_all
  have nofault: "dig_interleave ?m 0 lo' hi' lf' hf' [] \<noteq> Inl f" for f
    using dig_interleave_fault [of ?m 0 lo' hi' lf' hf' "[]" f] inv by auto
  then obtain buf where buf: "dig_interleave ?m 0 lo' hi' lf' hf' [] = Inr buf"
    by (cases "dig_interleave ?m 0 lo' hi' lf' hf' []") auto
  have "length buf = 2 * ?m" using dig_interleave_length [OF buf] by simp
  moreover have "siglent_sds_get_digital sdi =
           Inr (len', sdi'\<lparr>priv := (priv sdi')\<lparr>dig_buffer := Some buf\<rparr>\<rparr>)"
    using run buf inv by (simp add: siglent_sds_get_digital_def)
  ultimately show "\<exists>buf. length buf = 2 * ?m \<and>
         siglent_sds_get_digital sdi =
           Inr (len', sdi'\<lparr>priv := (priv sdi')\<lparr>dig_buffer := Some buf\<rparr>\<rparr>)"
    by blast
qed

theorem get_digital_bounds_witness:
  "\<not> (\<exists>f. get_digital_channel (example_logic 1) (example_logic_sdi SPO_MODEL 1)
            0 [] [] False False = Inl f) \<and>
   (\<exists>f. get_digital_channel (example_logic 1) example_logic_deep 0 [] [] False False = Inl f) \<and>
   (case siglent_sds_get_digital (example_logic_sdi SPO_MODEL 1) of
      Inl f \<Rightarrow> False
    | Inr (len, s) \<Rightarrow> len = 1 \<and> map_option length (dig_buffer (priv s)) = Some 2)"
proof -
  let ?X = "example_logic_sdi SPO_MODEL 1"
  let ?c = "\<lambda>X. (conn X)\<lparr>send_rets := [True, True, True]\<rparr>"
  have lg: "ch_type (example_logic 1) = SR_CHANNEL_LOGIC \<and> ch_enabled (example_logic 1)"
    by (simp add: example_defs)
  have tr: "\<exists>sdi1 sdi2 sdi3.
     sr_scpi_send ''D%d:WF? DAT2'' [int (ch_index (example_logic 1))] X = (SR_OK, sdi1) \<and>
     sr_scpi_read_begin sdi1 = (SR_OK, sdi2) \<and>
     sr_scpi_read_data RD_DIGITAL (- 1) sdi2 = (16, replicate 15 0 @ [5], sdi3) \<and> (0::int) \<le> 16"
    if "X = ?X \<or> X = example_logic_deep" for X
    using that
    by (auto simp: example_logic_sdi_def example_logic_deep_def example_defs sr_scpi_send_def
          sr_scpi_read_begin_def sr_scpi_read_data_def emit_def)
  have a: "\<not> (\<exists>f. get_digital_channel (example_logic 1) ?X 0 [] [] False False = Inl f)"
  proof -
    from tr [of ?X] obtain sdi1 sdi2 sdi3 where
      "sr_scpi_send ''D%d:WF? DAT2'' [int (ch_index (example_logic 1))] ?X = (SR_OK, sdi1) \<and>
       sr_scpi_read_begin sdi1 = (SR_OK, sdi2) \<and>
       sr_scpi_read_data RD_DIGITAL (- 1) sdi2 = (16, replicate 15 0 @ [5], sdi3) \<and> (0::int) \<le> 16"
      by blast
    with lg get_digital_bounds [of "example_logic 1" ?X sdi1 sdi2 16 "replicate 15 0 @ [5]" sdi3
        0 "[]" "[]" False False]
    have "(\<exists>f. get_digital_channel (example_logic 1) ?X 0 [] [] False False = Inl f) \<longleftrightarrow>
       (16::int) - 15 < int (memory_depth_digital (priv ?X))" by blast
    then show ?thesis by (simp add: example_logic_sdi_def example_defs)
  qed
  have b: "\<exists>f. get_digital_channel (example_logic 1) example_logic_deep 0 [] [] False False = Inl f"
  proof -
    from tr [of example_logic_deep] obtain sdi1 sdi2 sdi3 where
      "sr_scpi_send ''D%d:WF? DAT2'' [int (ch_index (example_logic 1))] example_logic_deep = (SR_OK, sdi1) \<and>
       sr_scpi_read_begin sdi1 = (SR_OK, sdi2) \<and>
       sr_scpi_read_data RD_DIGITAL (- 1) sdi2 = (16, replicate 15 0 @ [5], sdi3) \<and> (0::int) \<le> 16"
      by blast
    with lg get_digital_bounds [of "example_logic 1" example_logic_deep sdi1 sdi2 16
        "replicate 15 0 @ [5]" sdi3 0 "[]" "[]" False False]
    have "(\<exists>f. get_digital_channel (example_logic 1) example_logic_deep 0 [] [] False False = Inl f) \<longleftrightarrow>
       (16::int) - 15 < int (memory_depth_digital (priv example_logic_deep))" by blast
    then show ?thesis by (simp add: example_logic_deep_def example_defs)
  qed
  have sb: "sample_bits 8 (5::byte) (Suc 0) [] 0 False [] = (8, True, [2, 0, 2, 0, 0, 0, 0, 0])"
    by (simp add: eval_nat_numeral Let_def)
  have "\<exists>sdi' lo' hi' lf' hf'.
      get_digital_channels (channels ?X) ?X 0 [] [] False False =
        Inr (DIG_NEXT sdi' 1 lo' hi' lf' hf')"
    by (auto simp: get_digital_channel_def example_logic_sdi_def example_defs
          sr_scpi_send_def sr_scpi_read_begin_def sr_scpi_read_data_def emit_def Let_def sb)
  then obtain sdi' lo' hi' lf' hf' where
    "get_digital_channels (channels ?X) ?X 0 [] [] False False =
        Inr (DIG_NEXT sdi' 1 lo' hi' lf' hf')" by blast
  with get_digital_bounds [of "example_logic 1" ?X]
  obtain buf where "length buf = 2 * memory_depth_digital (priv ?X)"
    and "siglent_sds_get_digital ?X = Inr (1, sdi'\<lparr>priv := (priv sdi')\<lparr>dig_buffer := Some buf\<rparr>\<rparr>)"
    by blast
  then have c: "(case siglent_sds_get_digital ?X of
      Inl f \<Rightarrow> False
    | Inr (len, s) \<Rightarrow> len = 1 \<and> map_option length (dig_buffer (priv s)) = Some 2)"
    by (simp add: example_logic_sdi_def example_defs)
  from a b c show ?thesis by blast
qed

subsection \<open>The payload loops, one step at a time\<close>

lemma recv_read_loop_unfold:
  assumes "sr_scpi_read_data RD_PAYLOAD (samples_left (priv sdi)) sdi = (len, bs, sdi1)"
  shows "recv_read_loop sdi lbr lba data =
     (if len = - 1 then
        (if lbr > 0 then LOOP_BREAK sdi1 lbr data
         else if retry_count (priv sdi1) < 5 then
           LOOP_RETURN
             (g_usleep 1000
                (sdi1\<lparr>priv := (priv sdi1)\<lparr>retry_count := retry_count (priv sdi1) + 1\<rparr>\<rparr>))
         else LOOP_RETURN (abort_capture ''Read error, aborting capture.'' sdi1))
      else if len = 0 then
        LOOP_RETURN
          (sr_dev_acquisition_stop
             (emit DF_FRAME_END (sr_err ''Read zero bytes, aborting capture.'' sdi1)))
      else if len = 2 \<and> num_block_read (priv sdi1) = 0 then
        (if retry_count (priv sdi1) < 5 then
           LOOP_RETURN
             (set_wait_event WAIT_BLOCK
                (g_usleep 100000
                   ((sr_err ''Promised waveform was missing from datastream'' sdi1)
                      \<lparr>priv := (priv sdi1)\<lparr>retry_count := retry_count (priv sdi1) + 1\<rparr>\<rparr>)))
         else LOOP_BREAK (sr_err ''Promised waveform was missing from datastream'' sdi1) lbr data)
      else if lbr + len < min 10240 lba
      then recv_read_loop
             (sdi1\<lparr>priv := (priv sdi1)
                \<lparr>num_block_bytes := num_block_bytes (priv sdi1) + nat len,
                 num_block_read := num_block_read (priv sdi1) + 1\<rparr>\<rparr>)
             (lbr + len) lba (data @ bs)
      else LOOP_BREAK
             (sdi1\<lparr>priv := (priv sdi1)
                \<lparr>num_block_bytes := num_block_bytes (priv sdi1) + nat len,
                 num_block_read := num_block_read (priv sdi1) + 1\<rparr>\<rparr>)
             (lbr + len) (data @ bs))"
  by (subst recv_read_loop.simps) (simp add: assms Let_def sr_err_def emit_def)

lemma recv_block_loop_unfold:
  "recv_block_loop ch sdi =
     (if samples_left (priv sdi) < 0
      then BLOCK_RETURN (abort_capture ''Negative waveform length, woops.'' sdi)
      else
        (case recv_read_loop sdi 0 (samples_left (priv sdi)) [] of
           LOOP_RETURN sdi1 \<Rightarrow> BLOCK_RETURN sdi1
         | LOOP_BREAK sdi1 loop_bytes_read data \<Rightarrow>
             (case recv_after_pass ch sdi1 loop_bytes_read data of
                PASS_RETURN sdi2 \<Rightarrow> BLOCK_RETURN sdi2
              | PASS_DONE sdi2 \<Rightarrow> BLOCK_DONE sdi2
              | PASS_AGAIN sdi2 \<Rightarrow> recv_block_loop ch sdi2)))"
  by (subst recv_block_loop.simps) (simp add: Let_def)

subsection \<open>The retry counter across the handler\<close>

text \<open>
  Only three places write \<open>retry_count\<close>: \<^verbatim>\<open>siglent_sds_capture_start\<close> and the end of a
  pass of the read loop set it to 0, and the read loop increments it while it is below 5.
\<close>

lemma get_string_priv: "sr_scpi_get_string q s = (rc, buf, s') \<Longrightarrow> priv s' = priv s"
  by (auto simp: sr_scpi_get_string_def emit_def Let_def split: list.splits option.splits)

lemma get_int_priv: "sr_scpi_get_int q s = (rc, i, s') \<Longrightarrow> priv s' = priv s"
  by (auto simp: sr_scpi_get_int_def emit_def Let_def split: list.splits option.splits)

lemma read_complete_priv: "sr_scpi_read_complete s = (ok, s') \<Longrightarrow> priv s' = priv s"
  by (auto simp: sr_scpi_read_complete_def emit_def split: list.splits)

lemma g_usleep_priv [simp]: "priv (g_usleep us s) = priv s"
  by (simp add: g_usleep_def emit_def)

lemma emit_priv [simp]: "priv (emit e s) = priv s"
  by (simp add: emit_def)

lemma abort_capture_priv [simp]: "priv (abort_capture msg s) = priv s"
  by (simp add: abort_capture_def dev_acquisition_stop_def std_session_send_df_frame_end_def
        sr_err_def)

lemma set_wait_event_retry [simp]:
  "retry_count (priv (set_wait_event ev s)) = retry_count (priv s)"
  by (simp add: set_wait_event_def siglent_sds_set_wait_event_def Let_def)

lemma inr_wait_loop_priv:
  "inr_wait_loop start out s = Inr (rc, s') \<Longrightarrow> priv s' = priv s"
proof (induction start out s rule: inr_wait_loop.induct)
  case (1 start out sdi)
  show ?case
  proof (cases "time_now sdi - start \<ge> 3")
    case True
    with "1.prems" show ?thesis by (subst (asm) inr_wait_loop.simps) simp
  next
    case False
    obtain rc1 buf s1 where gs: "sr_scpi_get_string '':INR?'' sdi = (rc1, buf, s1)"
      by (cases "sr_scpi_get_string '':INR?'' sdi") auto
    note p = get_string_priv [OF gs]
    show ?thesis
    proof (cases "rc1 \<noteq> SR_OK")
      case True
      with "1.prems" False gs p show ?thesis by (subst (asm) inr_wait_loop.simps) simp
    next
      case ok: False
      let ?out1 = "case sr_atoi buf of None \<Rightarrow> out | Some v \<Rightarrow> Some v"
      show ?thesis
      proof (cases ?out1)
        case None
        with "1.prems" False gs ok show ?thesis
          by (subst (asm) inr_wait_loop.simps) (simp add: Let_def)
      next
        case (Some v)
        show ?thesis
        proof (cases "v AND 1 \<noteq> 1")
          case True
          with "1.prems" False gs ok Some
          have "inr_wait_loop start ?out1 (g_usleep 10000 s1) = Inr (rc, s')"
            by (subst (asm) inr_wait_loop.simps) (simp add: Let_def)
          from "1.IH" [OF False gs [symmetric] refl _ refl refl Some True this] ok p
          show ?thesis by simp
        next
          case stop: False
          with "1.prems" False gs ok Some p show ?thesis
            by (subst (asm) inr_wait_loop.simps) (auto simp: Let_def)
        qed
      qed
    qed
  qed
qed

lemma trmd_wait_loop_priv:
  "trmd_wait_loop start s = (rc, s') \<Longrightarrow> priv s' = priv s"
proof (induction start s rule: trmd_wait_loop.induct)
  case (1 start sdi)
  show ?case
  proof (cases "time_now sdi - start \<ge> 3")
    case True
    with "1.prems" show ?thesis by (subst (asm) trmd_wait_loop.simps) simp
  next
    case False
    obtain rc1 buf s1 where gs: "sr_scpi_get_string '':TRMD?'' sdi = (rc1, buf, s1)"
      by (cases "sr_scpi_get_string '':TRMD?'' sdi") auto
    note p = get_string_priv [OF gs]
    show ?thesis
    proof (cases "rc1 \<noteq> SR_OK \<or> buf = ''STOP''")
      case True
      with "1.prems" False gs p show ?thesis
        by (subst (asm) trmd_wait_loop.simps) (auto split: if_splits)
    next
      case go: False
      with "1.prems" False gs have "trmd_wait_loop start s1 = (rc, s')"
        by (subst (asm) trmd_wait_loop.simps) simp
      from "1.IH" [OF False gs [symmetric] refl _ _ this] go p show ?thesis by simp
    qed
  qed
qed

lemma event_wait_retry:
  "siglent_sds_event_wait s = Inr (rc, s') \<Longrightarrow> retry_count (priv s') = retry_count (priv s)"
  by (auto simp: siglent_sds_event_wait_def Let_def
           dest!: inr_wait_loop_priv trmd_wait_loop_priv
           split: if_splits sum.splits prod.splits)

lemma channel_start_retry:
  "siglent_sds_channel_start s = Inr (rc, s') \<Longrightarrow> retry_count (priv s') = retry_count (priv s)"
  by (auto simp: siglent_sds_channel_start_def
           dest!: send_priv
           split: list.splits if_splits prod.splits protocol_version.splits)


lemma capture_start_retry:
  assumes "siglent_sds_capture_start s = Inr (rc, s')"
  shows "retry_count (priv s') = 0"
proof (cases "protocol (priv s)")
  case SPO_MODEL
  show ?thesis
  proof (cases "data_source (priv s)")
    case DATA_SOURCE_SCREEN
    with SPO_MODEL assms show ?thesis
      apply (simp add: siglent_sds_capture_start_def Let_def siglent_sds_config_set_def
               split: prod.splits if_splits option.splits)
      apply (auto dest!: send_priv get_string_priv)
      done
  next
    case DATA_SOURCE_HISTORY
    with SPO_MODEL assms show ?thesis
      apply (simp add: siglent_sds_capture_start_def Let_def siglent_sds_config_set_def
               split: prod.splits if_splits sum.splits)
      apply (auto dest!: send_priv read_data_priv channel_start_retry)
      done
  next
    case DATA_SOURCE_READ_ONLY
    with SPO_MODEL assms show ?thesis
      by (auto simp: siglent_sds_capture_start_def Let_def)
  qed
next
  case NON_SPO_MODEL
  with assms show ?thesis by (auto simp: siglent_sds_capture_start_def Let_def)
next
  case ESERIES
  show ?thesis
  proof (cases "data_source (priv s)")
    case DATA_SOURCE_SCREEN
    with ESERIES assms show ?thesis
      apply (simp add: siglent_sds_capture_start_def Let_def siglent_sds_config_set_def
               split: prod.splits if_splits)
      apply (auto dest!: send_priv)
      done
  next
    case DATA_SOURCE_HISTORY
    with ESERIES assms show ?thesis
      apply (simp add: siglent_sds_capture_start_def Let_def siglent_sds_config_set_def
               split: prod.splits if_splits)
      apply (auto dest!: send_priv get_string_priv get_int_priv)
      done
  next
    case DATA_SOURCE_READ_ONLY
    with ESERIES assms show ?thesis
      by (auto simp: siglent_sds_capture_start_def Let_def)
  qed
qed

lemma read_header_retry:
  "siglent_sds_read_header s = (len, s') \<Longrightarrow> retry_count (priv s') = retry_count (priv s)"
  by (auto simp: siglent_sds_read_header_def Let_def
           dest!: read_header_loop_priv read_data_priv
           split: prod.splits option.splits if_splits)

lemma recv_after_pass_retry:
  "retry_count (priv (pass_state (recv_after_pass ch s lbr data))) = 0"
proof -
  obtain r where r: "recv_after_pass ch s lbr data = r" by simp
  then show ?thesis
    by (auto simp: recv_after_pass_def Let_def send_analog_def sr_err_def pass_state_def
           dest!: read_data_priv read_complete_priv
           split: prod.splits if_splits)
qed

lemma recv_read_loop_retry:
  "retry_count (priv s) \<le> 5 \<Longrightarrow>
   retry_count (priv (loop_state (recv_read_loop s lbr lba data))) \<le> 5"
proof (induction s lbr lba data rule: recv_read_loop.induct)
  case (1 sdi lbr lba data)
  obtain len bs s1 where rd:
    "sr_scpi_read_data RD_PAYLOAD (samples_left (priv sdi)) sdi = (len, bs, s1)"
    by (cases "sr_scpi_read_data RD_PAYLOAD (samples_left (priv sdi)) sdi") auto
  note p = read_data_priv [OF rd]
  note u = recv_read_loop_unfold [OF rd, of lbr lba data]
  show ?case
  proof (cases "len = - 1 \<or> len = 0 \<or> (len = 2 \<and> num_block_read (priv s1) = 0) \<or>
                \<not> lbr + len < min 10240 lba")
    case True
    with "1.prems" p show ?thesis unfolding u
      by (auto simp: loop_state_def sr_err_def sr_dev_acquisition_stop_def)
  next
    case False
    then have n1: "len \<noteq> - 1" and n0: "len \<noteq> 0"
      and n2: "\<not> (len = 2 \<and> num_block_read (priv s1) = 0)"
      and lt: "lbr + len < min 10240 lba" by auto
    let ?s2 = "s1\<lparr>priv := (priv s1)
                 \<lparr>num_block_bytes := num_block_bytes (priv s1) + nat len,
                  num_block_read := num_block_read (priv s1) + 1\<rparr>\<rparr>"
    have r2: "retry_count (priv ?s2) \<le> 5" using "1.prems" p by simp
    from "1.IH" [OF rd [symmetric] refl n1 n0 n2 refl refl refl lt r2]
    show ?thesis unfolding u using n1 n0 n2 lt by auto
  qed
qed

lemma recv_block_loop_retry:
  "retry_count (priv s) \<le> 5 \<Longrightarrow>
   retry_count (priv (block_state (recv_block_loop ch s))) \<le> 5"
proof (induction ch s rule: recv_block_loop.induct)
  case (1 ch sdi)
  note u = recv_block_loop_unfold [of ch sdi]
  show ?case
  proof (cases "samples_left (priv sdi) < 0")
    case True
    with "1.prems" show ?thesis unfolding u by (simp add: block_state_def)
  next
    case False
    show ?thesis
    proof (cases "recv_read_loop sdi 0 (samples_left (priv sdi)) []")
      case (LOOP_RETURN s1)
      with recv_read_loop_retry [OF "1.prems", of 0 "samples_left (priv sdi)" "[]"] False
      show ?thesis unfolding u by (simp add: block_state_def loop_state_def)
    next
      case (LOOP_BREAK s1 n d)
      note ap = recv_after_pass_retry [of ch s1 n d]
      show ?thesis
      proof (cases "recv_after_pass ch s1 n d")
        case (PASS_RETURN s2)
        with ap LOOP_BREAK False show ?thesis unfolding u
          by (simp add: block_state_def pass_state_def)
      next
        case (PASS_DONE s2)
        with ap LOOP_BREAK False show ?thesis unfolding u
          by (simp add: block_state_def pass_state_def)
      next
        case (PASS_AGAIN s2)
        with ap have "retry_count (priv s2) \<le> 5" by (simp add: pass_state_def)
        from "1.IH" [OF refl False LOOP_BREAK PASS_AGAIN this]
        show ?thesis unfolding u using LOOP_BREAK PASS_AGAIN False by simp
      qed
    qed
  qed
qed


lemma recv_next_channel_retry:
  assumes "retry_count (priv s) \<le> 5" and "recv_next_channel s = Inr s'"
  shows "retry_count (priv s') \<le> 5"
proof (cases "channel_entry (priv s)")
  case Nil
  with assms show ?thesis by (simp add: recv_next_channel_def)
next
  case (Cons c nxt)
  show ?thesis
  proof (cases "nxt \<noteq> []")
    case True
    with assms Cons show ?thesis by (auto simp: recv_next_channel_def)
  next
    case False
    with assms Cons show ?thesis
      apply (simp add: recv_next_channel_def Let_def std_session_send_df_frame_end_def
               std_session_send_df_frame_begin_def dev_acquisition_stop_def sr_err_def
               siglent_sds_config_set_def
               split: if_splits protocol_version.splits prod.splits sum.splits)
      apply (auto dest!: send_priv capture_start_retry)
      done
  qed
qed

lemma recv_new_block_retry:
  "retry_count (priv (block_state (recv_new_block s))) = retry_count (priv s)"
proof -
  obtain r where r: "recv_new_block s = r" by simp
  then show ?thesis
    apply (simp add: recv_new_block_def Let_def block_state_def
             split: if_splits protocol_version.splits prod.splits)
    apply (auto dest!: read_begin_priv read_header_retry)
    done
qed

lemma recv_dispatch_retry:
  "recv_dispatch s = Inr (go, s') \<Longrightarrow> retry_count (priv s') = retry_count (priv s)"
  by (auto simp: recv_dispatch_def siglent_sds_trigger_wait_def siglent_sds_stop_wait_def
           dest!: event_wait_retry channel_start_retry
           split: wait_events.splits sum.splits prod.splits if_splits)

lemma get_digital_channel_priv:
  "get_digital_channel ch s len lo hi lf hf = Inr r \<Longrightarrow>
   priv (case r of DIG_RETURN rc s' \<Rightarrow> s' | DIG_NEXT s' l a b c d \<Rightarrow> s') = priv s"
proof (cases "ch_type ch = SR_CHANNEL_LOGIC \<and> ch_enabled ch")
  case False
  assume "get_digital_channel ch s len lo hi lf hf = Inr r"
  with False show ?thesis by (auto simp: get_digital_channel_def)
next
  case True
  assume step: "get_digital_channel ch s len lo hi lf hf = Inr r"
  from True have lg: "ch_type ch = SR_CHANNEL_LOGIC" and en: "ch_enabled ch" by auto
  obtain rc sdi1 where snd: "sr_scpi_send ''D%d:WF? DAT2'' [int (ch_index ch)] s = (rc, sdi1)"
    by (cases "sr_scpi_send ''D%d:WF? DAT2'' [int (ch_index ch)] s") auto
  obtain rc2 sdi2 where beg: "sr_scpi_read_begin sdi1 = (rc2, sdi2)"
    by (cases "sr_scpi_read_begin sdi1") auto
  obtain len0 bs sdi3 where rd: "sr_scpi_read_data RD_DIGITAL (- 1) sdi2 = (len0, bs, sdi3)"
    by (cases "sr_scpi_read_data RD_DIGITAL (- 1) sdi2") auto
  note p = send_priv [OF snd] read_begin_priv [OF beg] read_data_priv [OF rd]
  from step p show ?thesis
    unfolding get_digital_channel_read [OF lg en snd beg rd, of len lo hi lf hf]
    by (auto split: if_splits sum.splits prod.splits)
qed

lemma get_digital_channels_priv:
  "get_digital_channels l s len lo hi lf hf = Inr r \<Longrightarrow>
   priv (case r of DIG_RETURN rc s' \<Rightarrow> s' | DIG_NEXT s' l a b c d \<Rightarrow> s') = priv s"
proof (induction l arbitrary: s len lo hi lf hf)
  case Nil
  then show ?case by auto
next
  case (Cons ch l)
  from Cons.prems obtain r1 where step: "get_digital_channel ch s len lo hi lf hf = Inr r1"
    by (auto split: sum.splits)
  note p1 = get_digital_channel_priv [OF step]
  show ?case
  proof (cases r1)
    case (DIG_RETURN rc s1)
    with Cons.prems step p1 show ?thesis by auto
  next
    case (DIG_NEXT s1 len1 lo1 hi1 lf1 hf1)
    with Cons.prems step have "get_digital_channels l s1 len1 lo1 hi1 lf1 hf1 = Inr r" by simp
    from Cons.IH [OF this] p1 DIG_NEXT show ?thesis by simp
  qed
qed

lemma get_digital_retry:
  "siglent_sds_get_digital s = Inr (len, s') \<Longrightarrow> retry_count (priv s') = retry_count (priv s)"
  by (auto simp: siglent_sds_get_digital_def
           dest!: get_digital_channels_priv
           split: sum.splits dig_step.splits)

lemma recv_logic_retry:
  assumes "retry_count (priv s) \<le> 5" and "recv_logic s = Inr s'"
  shows "retry_count (priv s') \<le> 5"
  using assms
  apply (simp add: recv_logic_def Let_def dev_acquisition_stop_def
           std_session_send_df_frame_end_def std_session_send_df_frame_begin_def
           split: sum.splits prod.splits if_splits option.splits)
  apply (auto dest!: get_digital_retry capture_start_retry)
  done

lemma recv_analog_payload_retry:
  assumes "retry_count (priv s) \<le> 5" and "recv_analog_payload ch s = Inr s'"
  shows "retry_count (priv s') \<le> 5"
proof (cases "recv_block_loop ch s")
  case (BLOCK_RETURN s1)
  with assms recv_block_loop_retry [OF assms(1), of ch] show ?thesis
    by (simp add: recv_analog_payload_def block_state_def)
next
  case (BLOCK_DONE s1)
  with recv_block_loop_retry [OF assms(1), of ch] have "retry_count (priv s1) \<le> 5"
    by (simp add: block_state_def)
  from recv_next_channel_retry [OF this] assms(2) BLOCK_DONE show ?thesis
    by (simp add: recv_analog_payload_def)
qed

lemma receive_retry:
  assumes le: "retry_count (priv s) \<le> 5" and run: "siglent_sds_receive revents s = Inr s'"
  shows "retry_count (priv s') \<le> 5"
proof (cases "revents = G_IO_IN \<or> revents = 0")
  case False
  with assms show ?thesis by (auto simp: siglent_sds_receive_def Let_def)
next
  case True
  from run True obtain go s1 where d: "recv_dispatch (g_usleep 1000 s) = Inr (go, s1)"
    by (auto simp: siglent_sds_receive_def Let_def split: sum.splits)
  have r1: "retry_count (priv s1) \<le> 5" using recv_dispatch_retry [OF d] le by simp
  show ?thesis
  proof (cases go)
    case False
    with run True d r1 show ?thesis by (auto simp: siglent_sds_receive_def Let_def)
  next
    case go: True
    from run True d go obtain ch nxt where ce: "channel_entry (priv s1) = ch # nxt"
      by (cases "channel_entry (priv s1)") (auto simp: siglent_sds_receive_def Let_def)
    show ?thesis
    proof (cases "ch_type ch = SR_CHANNEL_ANALOG")
      case False
      with run True d go ce have "recv_logic s1 = Inr s'"
        by (simp add: siglent_sds_receive_def Let_def)
      from recv_logic_retry [OF r1 this] show ?thesis .
    next
      case an: True
      note nb = recv_new_block_retry [of s1]
      show ?thesis
      proof (cases "recv_new_block s1")
        case (BLOCK_RETURN s2)
        with run True d go ce an nb r1 show ?thesis
          by (simp add: siglent_sds_receive_def Let_def block_state_def)
      next
        case (BLOCK_DONE s2)
        with nb r1 have r2: "retry_count (priv s2) \<le> 5" by (simp add: block_state_def)
        from run True d go ce an BLOCK_DONE have "recv_analog_payload ch s2 = Inr s'"
          by (simp add: siglent_sds_receive_def Let_def)
        from recv_analog_payload_retry [OF r2 this] show ?thesis .
      qed
    qed
  qed
qed

subsection \<open>C3: the payload bytes read by one poll\<close>








lemma read_complete_session:
  "sr_scpi_read_complete s = (ok, s') \<Longrightarrow> session s' = session s @ [SCPI_READ_COMPLETE]"
  by (auto simp: sr_scpi_read_complete_def emit_def split: list.splits)







subsection \<open>C2: the conversion of an analog chunk\<close>


lemma payload_data_append: "payload_data (xs @ ys) = payload_data xs @ payload_data ys"
  by (induction xs rule: payload_data.induct) auto





lemma recv_after_pass_trace:
  assumes an: "ch_type ch = SR_CHANNEL_ANALOG"
  shows "\<exists>evs. session (pass_state (recv_after_pass ch s n d)) = session s @ evs \<and>
           vdiv (priv (pass_state (recv_after_pass ch s n d))) = vdiv (priv s) \<and>
           vert_offset (priv (pass_state (recv_after_pass ch s n d))) = vert_offset (priv s) \<and>
           (if n = 0 then no_analog evs
            else \<exists>evs'. evs =
                   DF_ANALOG ch
                     (map (sample_voltage (vdiv (priv s) (ch_index ch))
                             (vert_offset (priv s) (ch_index ch))) (take (nat n) d))
                     (analog_digits (libm_log10f s) (vdiv (priv s) (ch_index ch)))
                     SR_MQ_VOLTAGE SR_UNIT_VOLT # evs' \<and>
                   no_analog evs' \<and> payload_data evs' = [])"
proof (cases "n = 0")
  case True
  then show ?thesis
    by (simp add: recv_after_pass_def Let_def sr_err_def emit_def pass_state_def)
next
  case False
  let ?s2 = "s\<lparr>priv := (priv s)\<lparr>retry_count := 0\<rparr>\<rparr>"
  let ?pkt = "DF_ANALOG ch
                     (map (sample_voltage (vdiv (priv s) (ch_index ch))
                             (vert_offset (priv s) (ch_index ch))) (take (nat n) d))
                     (analog_digits (libm_log10f s) (vdiv (priv s) (ch_index ch)))
                     SR_MQ_VOLTAGE SR_UNIT_VOLT"
  let ?s3 = "send_analog ch n d ?s2"
  have s3: "session ?s3 = session s @ [?pkt]" and p3: "priv ?s3 = priv ?s2"
    by (simp_all add: send_analog_def Let_def emit_def)
  show ?thesis
  proof (cases "num_samples (priv ?s3) \<le> num_block_bytes (priv ?s3)")
    case more: False
    with False an have r: "recv_after_pass ch s n d = PASS_AGAIN ?s3"
      by (simp add: recv_after_pass_def Let_def)
    show ?thesis unfolding r using False s3 p3 by (simp add: pass_state_def)
  next
    case True
    let ?s4 = "?s3\<lparr>priv := (priv ?s3)\<lparr>num_header_bytes := 0, num_block_bytes := 0\<rparr>\<rparr>"
    obtain len bs s5 where rd: "sr_scpi_read_data RD_LINEFEED 3 ?s4 = (len, bs, s5)"
      by (cases "sr_scpi_read_data RD_LINEFEED 3 ?s4") auto
    let ?s6 = "if len \<noteq> 2 then abort_capture ''Expected linefeeds were missing.'' s5 else s5"
    obtain ok s7 where rc: "sr_scpi_read_complete ?s6 = (ok, s7)"
      by (cases "sr_scpi_read_complete ?s6") auto
    have s5: "session s5 = session s @ [?pkt, SCPI_READ_DATA RD_LINEFEED 3 len bs]"
      using read_data_session [OF rd] s3 by simp
    have p5: "priv s5 = priv ?s4" using read_data_priv [OF rd] .
    have s7: "session s7 = session ?s6 @ [SCPI_READ_COMPLETE]"
      using read_complete_session [OF rc] .
    have p7: "priv s7 = priv ?s6" using read_complete_priv [OF rc] .
    have r: "recv_after_pass ch s n d =
        (if \<not> ok then PASS_RETURN (abort_capture ''Read should have been completed.'' s7)
         else PASS_DONE (s7\<lparr>priv := (priv s7)\<lparr>num_block_read := 0\<rparr>\<rparr>))"
      using False an True rd rc by (simp add: recv_after_pass_def Let_def)
    show ?thesis unfolding r using False s5 p5 s7 p7 p3
      by (simp add: pass_state_def abort_capture_def dev_acquisition_stop_def
            std_session_send_df_frame_end_def sr_err_def emit_def)
  qed
qed




subsection \<open>C8: the digits of an analog packet\<close>

lemma ceiling_m1: "\<lceil>- 1 :: real\<rceil> = - 1"
  using ceiling_of_int [of "- 1", where ?'a = real] by simp

lemma digits_of_log:
  "- c_trunc l + (if l < 0 then 1 else 0) =
   (if l < 0 \<and> l \<in> \<int> then \<lceil>- l\<rceil> + 1 else \<lceil>- l\<rceil>)"
proof (cases "l < 0")
  case False
  then show ?thesis by (simp add: c_trunc_def ceiling_def)
next
  case True
  show ?thesis
  proof (cases "l \<in> \<int>")
    case True
    then obtain k where "l = of_int k" by (auto elim: Ints_cases)
    with \<open>l < 0\<close> show ?thesis by (simp add: c_trunc_def ceiling_def)
  next
    case False
    then have "- l \<notin> \<int>" by (metis Ints_minus minus_minus)
    then have "\<lceil>- l\<rceil> = \<lfloor>- l\<rfloor> + 1" by (metis Ints_of_int ceiling_altdef)
    moreover have "\<lfloor>- l\<rfloor> = - \<lceil>l\<rceil>" by (simp add: ceiling_def)
    ultimately show ?thesis using \<open>l < 0\<close> False by (simp add: c_trunc_def)
  qed
qed

text \<open>
  Claim C8, as the code has it. Let \<open>l\<close> be the \<^verbatim>\<open>float\<close> that \<^verbatim>\<open>log10f\<close> returns for a
  positive \<open>vdiv\<close>. The digits of the packet that \<open>send_analog\<close> emits are
  \<^verbatim>\<open>-(int) l + (l < 0)\<close>, and the conversion \<^verbatim>\<open>(int)\<close> truncates towards zero: they are
  \<open>\<lceil>- l\<rceil>\<close>, except where \<open>l\<close> is a negative integer; there they are \<open>\<lceil>- l\<rceil> + 1\<close>.
\<close>

theorem analog_digits_value:
  assumes "0 < vd" and "vdiv (priv sdi) (ch_index ch) = vd" and "libm_log10f sdi vd = l"
  shows "session (send_analog ch n buf sdi) =
           session sdi @
             [DF_ANALOG ch
                (map (sample_voltage vd (vert_offset (priv sdi) (ch_index ch))) (take (nat n) buf))
                (analog_digits (libm_log10f sdi) vd) SR_MQ_VOLTAGE SR_UNIT_VOLT] \<and>
         analog_digits (libm_log10f sdi) vd =
           (if l < 0 \<and> l \<in> \<int> then \<lceil>- l\<rceil> + 1 else \<lceil>- l\<rceil>)"
  using assms digits_of_log [of l]
  by (simp add: send_analog_def analog_digits_def Let_def emit_def)

theorem analog_digits_value_witness:
  "(0::real) < 13421773 / 134217728 \<and>
   libm_log10f example_tenth_sdi (13421773 / 134217728) = - 1 \<and>
   analog_digits (libm_log10f example_tenth_sdi) (13421773 / 134217728) = 2 \<and>
   session (send_analog (example_analog 0) 2 [25, 231] example_tenth_sdi) =
     [DF_ANALOG (example_analog 0) [13421773 / 134217728, - (13421773 / 134217728)] 2
        SR_MQ_VOLTAGE SR_UNIT_VOLT]"
proof -
  have pos: "(0::real) < 13421773 / 134217728" by simp
  have vd: "vdiv (priv example_tenth_sdi) (ch_index (example_analog 0)) = 13421773 / 134217728"
    by (simp add: example_tenth_sdi_def example_defs)
  have l: "libm_log10f example_tenth_sdi (13421773 / 134217728) = - 1"
    by (simp add: example_tenth_sdi_def example_defs log10f_nearest_tenth_float)
  have off: "vert_offset (priv example_tenth_sdi) (ch_index (example_analog 0)) = 0"
    and s0: "session example_tenth_sdi = []"
    by (simp_all add: example_tenth_sdi_def example_defs)
  from analog_digits_value [OF pos vd l, of 2 "[25, 231]"]
  have d: "analog_digits (libm_log10f example_tenth_sdi) (13421773 / 134217728) = 2"
    and s: "session (send_analog (example_analog 0) 2 [25, 231] example_tenth_sdi) =
     [DF_ANALOG (example_analog 0)
        (map (sample_voltage (13421773 / 134217728) 0) (take (nat 2) [25, 231]))
        (analog_digits (libm_log10f example_tenth_sdi) (13421773 / 134217728))
        SR_MQ_VOLTAGE SR_UNIT_VOLT]"
    unfolding off s0 by simp_all
  have "map (sample_voltage (13421773 / 134217728) 0) (take (nat 2) [25, 231 :: byte]) =
      [13421773 / 134217728, - (13421773 / 134217728)]"
    by (simp add: sample_voltage_def)
  with pos l d s show ?thesis by simp
qed

text \<open>
  The claim as stated fails at the \<^verbatim>\<open>float\<close> nearest to 0.1 volts per division: its decimal
  logarithm lies so little above \<open>-1\<close> that the correctly rounded \<^verbatim>\<open>log10f\<close> returns
  \<open>-1\<close>; the packet carries 2 digits, and \<open>\<lceil>- log10 vdiv\<rceil>\<close> is 1. And the formula with
  the floor, which the claim gives as the implementation, is not what the code computes
  at 0.5 volts per division, where the code gives 1 digit and the floor formula 2.
\<close>

theorem analog_digits_ceiling_counterexample:
  "session (send_analog (example_analog 0) 1 [25] example_tenth_sdi) =
     [DF_ANALOG (example_analog 0) [13421773 / 134217728] 2 SR_MQ_VOLTAGE SR_UNIT_VOLT] \<and>
   \<lceil>- log 10 (13421773 / 134217728 :: real)\<rceil> = 1 \<and>
   analog_digits log10f_nearest (1 / 2) = 1 \<and>
   - \<lfloor>log 10 (1 / 2 :: real)\<rfloor> + 1 = 2"
proof -
  have a: "session (send_analog (example_analog 0) 1 [25] example_tenth_sdi) =
     [DF_ANALOG (example_analog 0) [13421773 / 134217728] 2 SR_MQ_VOLTAGE SR_UNIT_VOLT]"
    by (simp add: send_analog_def emit_def example_tenth_sdi_def example_defs
          sample_voltage_def analog_digits_def c_trunc_def log10f_nearest_tenth_float
          ceiling_m1 Let_def)
  have b: "\<lceil>- log 10 (13421773 / 134217728 :: real)\<rceil> = 1"
    using log10_tenth_float by (simp add: ceiling_eq_iff)
  have "\<lceil>log10f_nearest (1 / 2)\<rceil> = 0"
    using log10f_nearest_half by (simp add: ceiling_eq_iff)
  then have c: "analog_digits log10f_nearest (1 / 2) = 1"
    using log10f_nearest_half by (simp add: analog_digits_def c_trunc_def Let_def)
  have "\<lfloor>log 10 (1 / 2 :: real)\<rfloor> = - 1"
    using log10_half by (simp add: floor_eq_iff)
  then have d: "- \<lfloor>log 10 (1 / 2 :: real)\<rfloor> + 1 = 2" by simp
  from a b c d show ?thesis by blast
qed

subsection \<open>C9: the logic channel\<close>

text \<open>
  An early \<^verbatim>\<open>return\<close> of \<^verbatim>\<open>siglent_sds_get_digital\<close> (lines 470 to 476) hands its value,
  \<^verbatim>\<open>SR_ERR\<close> or \<^verbatim>\<open>TRUE\<close>, to the handler and leaves \<^verbatim>\<open>devc->dig_buffer\<close> as it was; a
  run to the end stores a buffer.
\<close>

lemma get_digital_early_return:
  assumes "get_digital_channels (channels sdi) sdi 0 [] [] False False = Inr (DIG_RETURN r s')"
  shows "siglent_sds_get_digital sdi = Inr (r, s') \<and> dig_buffer (priv s') = dig_buffer (priv sdi)"
  using assms get_digital_channels_priv [OF assms]
  by (simp add: siglent_sds_get_digital_def)

lemma get_digital_sets_buffer:
  assumes "get_digital_channels (channels sdi) sdi 0 [] [] False False =
             Inr (DIG_NEXT s' n lo hi lf hf)"
    and "siglent_sds_get_digital sdi = Inr (len, sdi1)"
  shows "\<exists>buf. dig_buffer (priv sdi1) = Some buf"
  using assms by (auto simp: siglent_sds_get_digital_def split: sum.splits)

text \<open>
  Claim C9. When the dispatch lets the handler go on, the current channel is a logic
  channel and \<^verbatim>\<open>siglent_sds_get_digital\<close> returns a value other than 0, the handler reads
  \<^verbatim>\<open>devc->dig_buffer->len\<close>. Where the pointer is set, it sends the logic packet, the
  frame end and calls \<^verbatim>\<open>dev_acquisition_stop\<close>, whatever the frame count is; then, with
  \<open>num_frames + 1 = limit_frames\<close>, it calls \<^verbatim>\<open>dev_acquisition_stop\<close> a second time, and
  otherwise it rewinds the channel cursor, calls \<^verbatim>\<open>siglent_sds_capture_start\<close> and sends a
  frame begin. Where the pointer is unset, which is the case when the value comes from an
  early return in the first poll, the read is a NULL dereference and nothing is sent.
\<close>

theorem receive_logic_nonzero_return:
  assumes rev: "revents = G_IO_IN \<or> revents = 0"
    and disp: "recv_dispatch (g_usleep 1000 sdi0) = Inr (True, sdi)"
    and cur: "channel_entry (priv sdi) = ch # next"
    and logic: "ch_type ch = SR_CHANNEL_LOGIC"
    and dig: "siglent_sds_get_digital sdi = Inr (len, sdi1)"
    and nz: "len \<noteq> 0"
  shows "siglent_sds_receive revents sdi0 =
     (case dig_buffer (priv sdi1) of
        None \<Rightarrow> Inl NULL_DEREF
      | Some buf \<Rightarrow>
          (let sdi3 = sdi1\<lparr>session := session sdi1 @
                             [DF_LOGIC 2 buf, DF_FRAME_END, DEV_ACQUISITION_STOP],
                           priv := (priv sdi1)\<lparr>num_frames := num_frames (priv sdi1) + 1\<rparr>\<rparr>
           in if num_frames (priv sdi1) + 1 = limit_frames (priv sdi1)
              then Inr (sdi3\<lparr>session := session sdi3 @ [DEV_ACQUISITION_STOP]\<rparr>)
              else
                (case siglent_sds_capture_start
                        (sdi3\<lparr>priv := (priv sdi3)
                                 \<lparr>channel_entry := enabled_channels (priv sdi1)\<rparr>\<rparr>) of
                   Inl f \<Rightarrow> Inl f
                 | Inr (rc, sdi5) \<Rightarrow> Inr (sdi5\<lparr>session := session sdi5 @ [DF_FRAME_BEGIN]\<rparr>))))"
  using assms
  by (simp add: siglent_sds_receive_def recv_logic_def Let_def dev_acquisition_stop_def
        std_session_send_df_frame_end_def std_session_send_df_frame_begin_def emit_def
      split: sum.splits prod.splits option.splits)

theorem receive_logic_nonzero_return_witness:
  "siglent_sds_get_digital (g_usleep 1000 example_logic_stall) =
     Inr (C_TRUE,
          example_logic_stall
            \<lparr>conn := (example_conn [])\<lparr>send_rets := [True, True, True], read_begin_rets := []\<rparr>,
             session := [G_USLEEP 1000, SCPI_SEND ''D%d:WF? DAT2'' [1], SCPI_READ_BEGIN],
             clock_us := 1000\<rparr>) \<and>
   siglent_sds_receive G_IO_IN example_logic_stall = Inl NULL_DEREF \<and>
   map_sum id session (siglent_sds_receive G_IO_IN (example_logic_sdi SPO_MODEL 1)) =
     Inr [G_USLEEP 1000, SCPI_SEND ''D%d:WF? DAT2'' [1], SCPI_READ_BEGIN,
          SCPI_READ_DATA RD_DIGITAL (- 1) 16 (replicate 15 0 @ [5]),
          DF_LOGIC 2 [2, 0], DF_FRAME_END, DEV_ACQUISITION_STOP, DEV_ACQUISITION_STOP] \<and>
   map_sum id session (siglent_sds_receive G_IO_IN (example_logic_sdi SPO_MODEL 3)) =
     Inr [G_USLEEP 1000, SCPI_SEND ''D%d:WF? DAT2'' [1], SCPI_READ_BEGIN,
          SCPI_READ_DATA RD_DIGITAL (- 1) 16 (replicate 15 0 @ [5]),
          DF_LOGIC 2 [2, 0], DF_FRAME_END, DEV_ACQUISITION_STOP, DF_FRAME_BEGIN] \<and>
   map_sum id (\<lambda>s. (num_frames (priv s), channel_entry (priv s), wait_status (priv s)))
       (siglent_sds_receive G_IO_IN (example_logic_sdi SPO_MODEL 3)) =
     Inr (1, [example_logic 1], 2)"
proof -
  have rev: "G_IO_IN = G_IO_IN \<or> G_IO_IN = (0::int)" by simp
  have logic: "ch_type (example_logic 1) = SR_CHANNEL_LOGIC"
    by (simp add: example_defs)
  have nz: "(1::int) \<noteq> 0" by simp
  let ?F = "g_usleep 1000 example_logic_stall"
  let ?F1 = "example_logic_stall
            \<lparr>conn := (example_conn [])\<lparr>send_rets := [True, True, True], read_begin_rets := []\<rparr>,
             session := [G_USLEEP 1000, SCPI_SEND ''D%d:WF? DAT2'' [1], SCPI_READ_BEGIN],
             clock_us := 1000\<rparr>"
  have fdisp: "recv_dispatch ?F = Inr (True, ?F)"
    by (simp add: recv_dispatch_def g_usleep_def emit_def example_logic_stall_def
          example_logic_sdi_def example_defs)
  have fcur: "channel_entry (priv ?F) = example_logic 1 # []"
    by (simp add: g_usleep_def emit_def example_logic_stall_def example_logic_sdi_def
          example_defs)
  have fdig: "siglent_sds_get_digital ?F = Inr (1, ?F1)"
    by (simp add: siglent_sds_get_digital_def get_digital_channel_def example_logic_stall_def
          example_logic_sdi_def example_defs g_usleep_def sr_scpi_send_def
          sr_scpi_read_begin_def emit_def Let_def)
  have fbuf: "dig_buffer (priv ?F1) = None"
    by (simp add: example_logic_stall_def example_logic_sdi_def example_defs)
  from receive_logic_nonzero_return [OF rev fdisp fcur logic fdig nz]
  have z: "siglent_sds_receive G_IO_IN example_logic_stall = Inl NULL_DEREF"
    unfolding fbuf by simp
  have one: "siglent_sds_receive G_IO_IN (example_logic_sdi SPO_MODEL limit) =
     (let sdi1 = (example_logic_sdi SPO_MODEL limit)
             \<lparr>conn := (example_conn [])\<lparr>send_rets := [True, True, True], read_begin_rets := [True]\<rparr>,
              priv := (priv (example_logic_sdi SPO_MODEL limit))\<lparr>dig_buffer := Some [2, 0]\<rparr>,
              session := [G_USLEEP 1000, SCPI_SEND ''D%d:WF? DAT2'' [1], SCPI_READ_BEGIN,
                          SCPI_READ_DATA RD_DIGITAL (- 1) 16 (replicate 15 0 @ [5])],
              clock_us := 1000\<rparr>;
          sdi3 = sdi1\<lparr>session := session sdi1 @
                         [DF_LOGIC 2 [2, 0], DF_FRAME_END, DEV_ACQUISITION_STOP],
                       priv := (priv sdi1)\<lparr>num_frames := num_frames (priv sdi1) + 1\<rparr>\<rparr>
      in if num_frames (priv sdi1) + 1 = limit_frames (priv sdi1)
         then Inr (sdi3\<lparr>session := session sdi3 @ [DEV_ACQUISITION_STOP]\<rparr>)
         else
           (case siglent_sds_capture_start
                   (sdi3\<lparr>priv := (priv sdi3)\<lparr>channel_entry := enabled_channels (priv sdi1)\<rparr>\<rparr>) of
              Inl f \<Rightarrow> Inl f
            | Inr (rc, sdi5) \<Rightarrow> Inr (sdi5\<lparr>session := session sdi5 @ [DF_FRAME_BEGIN]\<rparr>)))"
    for limit
  proof -
    let ?X = "example_logic_sdi SPO_MODEL limit"
    let ?S = "g_usleep 1000 ?X"
    let ?S1 = "?X\<lparr>conn := (example_conn [])\<lparr>send_rets := [True, True, True], read_begin_rets := [True]\<rparr>,
              priv := (priv ?X)\<lparr>dig_buffer := Some [2, 0]\<rparr>,
              session := [G_USLEEP 1000, SCPI_SEND ''D%d:WF? DAT2'' [1], SCPI_READ_BEGIN,
                          SCPI_READ_DATA RD_DIGITAL (- 1) 16 (replicate 15 0 @ [5])],
              clock_us := 1000\<rparr>"
    have sb: "sample_bits 8 (5::byte) (Suc 0) [] 0 False [] = (8, True, [2, 0, 2, 0, 0, 0, 0, 0])"
      by (simp add: eval_nat_numeral Let_def)
    have disp: "recv_dispatch ?S = Inr (True, ?S)"
      by (simp add: recv_dispatch_def g_usleep_def emit_def example_logic_sdi_def example_defs)
    have cur: "channel_entry (priv ?S) = example_logic 1 # []"
      by (simp add: g_usleep_def emit_def example_logic_sdi_def example_defs)
    have dig: "siglent_sds_get_digital ?S = Inr (1, ?S1)"
      by (simp add: siglent_sds_get_digital_def get_digital_channel_def example_logic_sdi_def
            example_defs g_usleep_def sr_scpi_send_def sr_scpi_read_begin_def
            sr_scpi_read_data_def emit_def Let_def sb)
    have buf: "dig_buffer (priv ?S1) = Some [2, 0]" by simp
    from receive_logic_nonzero_return [OF rev disp cur logic dig nz]
    show ?thesis unfolding buf by (simp add: Let_def)
  qed
  have a: "map_sum id session (siglent_sds_receive G_IO_IN (example_logic_sdi SPO_MODEL 1)) =
     Inr [G_USLEEP 1000, SCPI_SEND ''D%d:WF? DAT2'' [1], SCPI_READ_BEGIN,
          SCPI_READ_DATA RD_DIGITAL (- 1) 16 (replicate 15 0 @ [5]),
          DF_LOGIC 2 [2, 0], DF_FRAME_END, DEV_ACQUISITION_STOP, DEV_ACQUISITION_STOP]"
    by (subst one) (simp add: Let_def example_logic_sdi_def example_defs)
  have b: "siglent_sds_capture_start s =
      Inr (SR_OK, s\<lparr>priv := (priv s)\<lparr>retry_count := 0, wait_status := 2\<rparr>\<rparr>)"
    if "protocol (priv s) = SPO_MODEL" and "data_source (priv s) = DATA_SOURCE_READ_ONLY" for s
    using that by (rule capture_start_spo_read_only)
  have c: "map_sum id session (siglent_sds_receive G_IO_IN (example_logic_sdi SPO_MODEL 3)) =
     Inr [G_USLEEP 1000, SCPI_SEND ''D%d:WF? DAT2'' [1], SCPI_READ_BEGIN,
          SCPI_READ_DATA RD_DIGITAL (- 1) 16 (replicate 15 0 @ [5]),
          DF_LOGIC 2 [2, 0], DF_FRAME_END, DEV_ACQUISITION_STOP, DF_FRAME_BEGIN]"
    by (subst one) (simp add: Let_def example_logic_sdi_def example_defs b)
  have d: "map_sum id (\<lambda>s. (num_frames (priv s), channel_entry (priv s), wait_status (priv s)))
       (siglent_sds_receive G_IO_IN (example_logic_sdi SPO_MODEL 3)) =
     Inr (1, [example_logic 1], 2)"
    by (subst one) (simp add: Let_def example_logic_sdi_def example_defs b)
  from fdig z a c d show ?thesis by blast
qed

subsection \<open>The handler at a position of its payload loops\<close>

lemma nth_read_loop:
  "nth_read s lbr lba data j = Some (t, k, d) \<Longrightarrow>
   recv_read_loop s lbr lba data = recv_read_loop t k lba d \<and> lbr \<le> k \<and>
   (0 < j \<longrightarrow> lbr < k \<and> 0 < num_block_read (priv t)) \<and>
   (0 \<le> lbr \<and> length data = nat lbr \<longrightarrow> length d = nat k) \<and>
   retry_count (priv t) = retry_count (priv s)"
proof (induction j arbitrary: s lbr data)
  case 0
  then show ?case by simp
next
  case (Suc j)
  obtain len bs s1 where rd:
    "sr_scpi_read_data RD_PAYLOAD (samples_left (priv s)) s = (len, bs, s1)"
    by (cases "sr_scpi_read_data RD_PAYLOAD (samples_left (priv s)) s") auto
  let ?s2 = "s1\<lparr>priv := (priv s1)
                 \<lparr>num_block_bytes := num_block_bytes (priv s1) + nat len,
                  num_block_read := num_block_read (priv s1) + 1\<rparr>\<rparr>"
  from Suc.prems rd have n1: "len \<noteq> - 1" and n0: "len \<noteq> 0"
    and n2: "\<not> (len = 2 \<and> num_block_read (priv s1) = 0)"
    and lt: "lbr + len < min 10240 lba"
    and rec: "nth_read ?s2 (lbr + len) lba (data @ bs) j = Some (t, k, d)"
    by (auto simp: Let_def split: if_splits)
  from read_data_ret [OF rd] n1 n0 have len: "len = int (length bs)" and pos: "0 < len" by auto
  note p = read_data_priv [OF rd]
  have u: "recv_read_loop s lbr lba data = recv_read_loop ?s2 (lbr + len) lba (data @ bs)"
    unfolding recv_read_loop_unfold [OF rd, of lbr lba data] using n1 n0 n2 lt by auto
  from Suc.IH [OF rec]
  have i1: "recv_read_loop ?s2 (lbr + len) lba (data @ bs) = recv_read_loop t k lba d"
    and i2: "lbr + len \<le> k"
    and i3: "0 < j \<longrightarrow> 0 < num_block_read (priv t)"
    and i4: "0 \<le> lbr + len \<and> length (data @ bs) = nat (lbr + len) \<longrightarrow> length d = nat k"
    and i5: "retry_count (priv t) = retry_count (priv ?s2)"
    by auto
  have nb: "0 < num_block_read (priv t)"
  proof (cases j)
    case 0
    with rec show ?thesis by auto
  next
    case (Suc j')
    with i3 show ?thesis by simp
  qed
  have ln: "0 \<le> lbr \<and> length data = nat lbr \<longrightarrow> length d = nat k"
    using i4 len by (simp add: nat_add_distrib)
  from u i1 i2 pos nb ln i5 p show ?case by simp
qed

lemma recv_read_loop_block_read:
  assumes "recv_read_loop s lbr lba data = LOOP_BREAK s1 n d"
    and "0 < lbr \<longrightarrow> 0 < num_block_read (priv s)"
  shows "lbr \<le> n \<and> (0 < n \<longrightarrow> 0 < num_block_read (priv s1))"
  using assms
proof (induction s lbr lba data rule: recv_read_loop.induct)
  case (1 sdi lbr lba data)
  obtain len bs s0 where rd:
    "sr_scpi_read_data RD_PAYLOAD (samples_left (priv sdi)) sdi = (len, bs, s0)"
    by (cases "sr_scpi_read_data RD_PAYLOAD (samples_left (priv sdi)) sdi") auto
  note p = read_data_priv [OF rd]
  note u = recv_read_loop_unfold [OF rd, of lbr lba data]
  show ?case
  proof (cases "len = - 1 \<or> len = 0 \<or> (len = 2 \<and> num_block_read (priv s0) = 0)")
    case True
    with "1.prems" p show ?thesis unfolding u
      by (auto simp: sr_err_def emit_def split: if_splits)
  next
    case False
    then have n1: "len \<noteq> - 1" and n0: "len \<noteq> 0"
      and n2: "\<not> (len = 2 \<and> num_block_read (priv s0) = 0)" by auto
    from read_data_ret [OF rd] n1 n0 have pos: "0 < len" by auto
    let ?s2 = "s0\<lparr>priv := (priv s0)
                 \<lparr>num_block_bytes := num_block_bytes (priv s0) + nat len,
                  num_block_read := num_block_read (priv s0) + 1\<rparr>\<rparr>"
    show ?thesis
    proof (cases "lbr + len < min 10240 lba")
      case nolt: False
      with n1 n0 n2 "1.prems"(1) have "s1 = ?s2 \<and> n = lbr + len" unfolding u by auto
      with pos show ?thesis by simp
    next
      case True
      with n1 n0 n2 "1.prems"(1)
      have rec: "recv_read_loop ?s2 (lbr + len) lba (data @ bs) = LOOP_BREAK s1 n d"
        unfolding u by auto
      have i: "0 < lbr + len \<longrightarrow> 0 < num_block_read (priv ?s2)" by simp
      from "1.IH" [OF rd [symmetric] refl n1 n0 n2 refl refl refl True rec i] pos
      show ?thesis by auto
    qed
  qed
qed

lemma nth_pass_block:
  "nth_pass ch sdi i = Some p \<Longrightarrow>
   recv_block_loop ch sdi = recv_block_loop ch p \<and>
   (0 < i \<longrightarrow> 0 < num_block_read (priv p) \<and> retry_count (priv p) = 0)"
proof (induction i arbitrary: sdi)
  case 0
  then show ?case by simp
next
  case (Suc i)
  from Suc.prems have nn: "\<not> samples_left (priv sdi) < 0" by (auto split: if_splits)
  from Suc.prems nn obtain s1 n d s2 where
    lp: "recv_read_loop sdi 0 (samples_left (priv sdi)) [] = LOOP_BREAK s1 n d"
    and ap: "recv_after_pass ch s1 n d = PASS_AGAIN s2"
    and rec: "nth_pass ch s2 i = Some p"
    by (auto split: if_splits loop_result.splits pass_result.splits)
  have u: "recv_block_loop ch sdi = recv_block_loop ch s2"
    unfolding recv_block_loop_unfold [of ch sdi] using nn lp ap by simp
  from recv_after_pass_again [OF ap] have nz: "n \<noteq> 0" by simp
  from recv_read_loop_block_read [OF lp] nz have nb1: "0 < num_block_read (priv s1)" by auto
  from ap have p2: "num_block_read (priv s2) = num_block_read (priv s1)"
    and r2: "retry_count (priv s2) = 0"
    by (auto simp: recv_after_pass_def Let_def send_analog_def emit_def
          split: if_splits prod.splits)
  from Suc.IH [OF rec] have i1: "recv_block_loop ch s2 = recv_block_loop ch p"
    and i2: "0 < i \<longrightarrow> 0 < num_block_read (priv p) \<and> retry_count (priv p) = 0" by auto
  have "0 < num_block_read (priv p) \<and> retry_count (priv p) = 0"
  proof (cases i)
    case 0
    with rec nb1 p2 r2 show ?thesis by simp
  next
    case (Suc i')
    with i2 show ?thesis by simp
  qed
  with u i1 show ?case by simp
qed

lemma nth_pass_Suc:
  "nth_pass ch sdi i = Some p \<Longrightarrow> nth_pass ch sdi (Suc i) = nth_pass ch p (Suc 0)"
proof (induction i arbitrary: sdi)
  case 0
  then show ?case by simp
next
  case (Suc i)
  from Suc.prems have nn: "\<not> samples_left (priv sdi) < 0" by (auto split: if_splits)
  from Suc.prems nn obtain s1 n d s2 where
    lp: "recv_read_loop sdi 0 (samples_left (priv sdi)) [] = LOOP_BREAK s1 n d"
    and ap: "recv_after_pass ch s1 n d = PASS_AGAIN s2"
    and rec: "nth_pass ch s2 i = Some p"
    by (auto split: if_splits loop_result.splits pass_result.splits)
  have "nth_pass ch sdi (Suc (Suc i)) = nth_pass ch s2 (Suc i)"
    using nn lp ap by (subst nth_pass.simps) simp
  with Suc.IH [OF rec] show ?case by simp
qed

lemma receive_analog_payload:
  assumes "revents = G_IO_IN \<or> revents = 0"
    and "recv_dispatch (g_usleep 1000 sdi0) = Inr (True, s)"
    and "channel_entry (priv s) = ch # nxt"
    and "ch_type ch = SR_CHANNEL_ANALOG"
    and "recv_new_block s = BLOCK_DONE sdi"
  shows "siglent_sds_receive revents sdi0 = recv_analog_payload ch sdi"
  using assms by (simp add: siglent_sds_receive_def Let_def)

lemma loop_position:
  assumes "nth_pass ch sdi i = Some p" and "0 \<le> samples_left (priv p)"
    and "nth_read p 0 (samples_left (priv p)) [] j = Some (t, k, d)"
  shows "recv_analog_payload ch sdi =
     (case recv_read_loop t k (samples_left (priv p)) d of
        LOOP_RETURN s1 \<Rightarrow> Inr s1
      | LOOP_BREAK s1 n d1 \<Rightarrow>
          (case recv_after_pass ch s1 n d1 of
             PASS_RETURN s2 \<Rightarrow> Inr s2
           | PASS_DONE s2 \<Rightarrow> recv_next_channel s2
           | PASS_AGAIN s2 \<Rightarrow> recv_analog_payload ch s2))"
proof -
  from nth_pass_block [OF assms(1)] have a: "recv_block_loop ch sdi = recv_block_loop ch p"
    by simp
  from nth_read_loop [OF assms(3)]
  have b: "recv_read_loop p 0 (samples_left (priv p)) [] =
           recv_read_loop t k (samples_left (priv p)) d" by simp
  show ?thesis
    unfolding recv_analog_payload_def a recv_block_loop_unfold [of ch p] b [symmetric]
    using assms(2)
    by (simp split: loop_result.splits pass_result.splits)
qed

lemma read_data_log10f:
  "sr_scpi_read_data site n s = (len, bs, s') \<Longrightarrow> libm_log10f s' = libm_log10f s"
  by (auto simp: sr_scpi_read_data_def emit_def split: list.splits rd.splits if_splits)

subsection \<open>C5: a read of the two line feeds only\<close>

text \<open>
  Claim C5. Let the handler come to the payload loop of an analog channel, and let the
  payload read return exactly 2 bytes while \<open>num_block_read = 0\<close>. With \<open>retry_count < 5\<close>
  the handler logs the error, increments \<open>retry_count\<close>, sleeps 100 ms, sets
  \<open>wait_event = WAIT_BLOCK\<close> (with \<open>wait_status = 1\<close>) and returns. With \<open>retry_count\<close> at 5
  or above it leaves the read loop, logs that it abandons the channel, sends no packet,
  resets \<open>retry_count\<close> and goes on to the channel progression; when the cursor has a next
  channel, it moves the cursor there and sets \<open>wait_event = WAIT_BLOCK\<close>. The read in
  question is the first payload read of the poll: at every later position of the loops
  \<open>num_block_read\<close> is positive.
\<close>

theorem empty_waveform_retry:
  assumes rev: "revents = G_IO_IN \<or> revents = 0"
    and disp: "recv_dispatch (g_usleep 1000 sdi0) = Inr (True, s)"
    and cur: "channel_entry (priv s) = ch # nxt"
    and analog: "ch_type ch = SR_CHANNEL_ANALOG"
    and hdr: "recv_new_block s = BLOCK_DONE sdi"
    and avail: "0 \<le> samples_left (priv sdi)"
    and rd: "sr_scpi_read_data RD_PAYLOAD (samples_left (priv sdi)) sdi = (2, bs, sdi1)"
    and nbr: "num_block_read (priv sdi) = 0"
  shows "siglent_sds_receive revents sdi0 =
           (if retry_count (priv sdi) < 5 then
              Inr (sdi1\<lparr>priv := (priv sdi)\<lparr>retry_count := retry_count (priv sdi) + 1,
                                 wait_status := 1, wait_event := WAIT_BLOCK\<rparr>,
                       session := session sdi1 @
                         [SR_ERR_LOG ''Promised waveform was missing from datastream'',
                          G_USLEEP 100000],
                       clock_us := clock_us sdi1 + 100000\<rparr>)
            else
              recv_next_channel
                (sdi1\<lparr>priv := (priv sdi)\<lparr>retry_count := 0\<rparr>,
                       session := session sdi1 @
                         [SR_ERR_LOG ''Promised waveform was missing from datastream'',
                          SR_ERR_LOG ''Abort processing channel'']\<rparr>)) \<and>
         (\<forall>c1 c2 rest. \<not> retry_count (priv sdi) < 5 \<and> channel_entry (priv sdi) = c1 # c2 # rest \<longrightarrow>
            siglent_sds_receive revents sdi0 =
              Inr (sdi1\<lparr>priv := (priv sdi)\<lparr>retry_count := 0, channel_entry := c2 # rest,
                                 wait_status := 1, wait_event := WAIT_BLOCK\<rparr>,
                       session := session sdi1 @
                         [SR_ERR_LOG ''Promised waveform was missing from datastream'',
                          SR_ERR_LOG ''Abort processing channel'']\<rparr>)) \<and>
         (\<forall>i j p t k d. nth_pass ch sdi i = Some p \<and>
              nth_read p 0 (samples_left (priv p)) [] j = Some (t, k, d) \<and> (0 < i \<or> 0 < j) \<longrightarrow>
            0 < num_block_read (priv t))"
proof -
  have p: "priv sdi1 = priv sdi" using read_data_priv [OF rd] .
  note r = receive_analog_payload [OF rev disp cur analog hdr]
  have lp: "recv_read_loop sdi 0 (samples_left (priv sdi)) [] =
      (if retry_count (priv sdi) < 5 then
         LOOP_RETURN
           (sdi1\<lparr>priv := (priv sdi)\<lparr>retry_count := retry_count (priv sdi) + 1,
                            wait_status := 1, wait_event := WAIT_BLOCK\<rparr>,
                  session := session sdi1 @
                    [SR_ERR_LOG ''Promised waveform was missing from datastream'',
                     G_USLEEP 100000],
                  clock_us := clock_us sdi1 + 100000\<rparr>)
       else LOOP_BREAK
              (sdi1\<lparr>session := session sdi1 @
                       [SR_ERR_LOG ''Promised waveform was missing from datastream'']\<rparr>)
              0 [])"
    using nbr unfolding recv_read_loop_unfold [OF rd, of 0 "samples_left (priv sdi)" "[]"] p
    by (simp add: set_wait_event_def siglent_sds_set_wait_event_def g_usleep_def emit_def
          sr_err_def)
  have a: "recv_analog_payload ch sdi =
           (if retry_count (priv sdi) < 5 then
              Inr (sdi1\<lparr>priv := (priv sdi)\<lparr>retry_count := retry_count (priv sdi) + 1,
                                 wait_status := 1, wait_event := WAIT_BLOCK\<rparr>,
                       session := session sdi1 @
                         [SR_ERR_LOG ''Promised waveform was missing from datastream'',
                          G_USLEEP 100000],
                       clock_us := clock_us sdi1 + 100000\<rparr>)
            else
              recv_next_channel
                (sdi1\<lparr>priv := (priv sdi)\<lparr>retry_count := 0\<rparr>,
                       session := session sdi1 @
                         [SR_ERR_LOG ''Promised waveform was missing from datastream'',
                          SR_ERR_LOG ''Abort processing channel'']\<rparr>))"
    using avail p
    by (simp add: recv_analog_payload_def recv_block_loop_unfold [of ch sdi] lp
          recv_after_pass_def sr_err_def emit_def)
  have b: "siglent_sds_receive revents sdi0 =
              Inr (sdi1\<lparr>priv := (priv sdi)\<lparr>retry_count := 0, channel_entry := c2 # rest,
                                 wait_status := 1, wait_event := WAIT_BLOCK\<rparr>,
                       session := session sdi1 @
                         [SR_ERR_LOG ''Promised waveform was missing from datastream'',
                          SR_ERR_LOG ''Abort processing channel'']\<rparr>)"
    if "\<not> retry_count (priv sdi) < 5" and "channel_entry (priv sdi) = c1 # c2 # rest"
    for c1 c2 rest
    unfolding r a using that
    by (simp add: recv_next_channel_def set_wait_event_def siglent_sds_set_wait_event_def)
  have c: "0 < num_block_read (priv t)"
    if "nth_pass ch sdi i = Some p" and "nth_read p 0 (samples_left (priv p)) [] j = Some (t, k, d)"
      and "0 < i \<or> 0 < j" for i j p t k d
  proof (cases "0 < j")
    case True
    with nth_read_loop [OF that(2)] show ?thesis by simp
  next
    case False
    with that(2) have "t = p" by simp
    moreover from False that(3) have "0 < i" by simp
    ultimately show ?thesis using nth_pass_block [OF that(1)] by simp
  qed
  from r a b c show ?thesis by (intro conjI allI impI) (simp, blast, blast)
qed

theorem empty_waveform_retry_witness:
  "map_sum id (\<lambda>s. (session s, retry_count (priv s), wait_event (priv s),
                     channel_entry (priv s), clock_us s))
     (siglent_sds_receive G_IO_IN (example_empty_sdi 4)) =
   Inr ([G_USLEEP 1000, G_USLEEP 0, SCPI_READ_BEGIN,
         SCPI_READ_DATA RD_HEADER 363 363 (replicate 75 0 @ [100, 0, 0, 0] @ replicate 284 0),
         SCPI_READ_DATA RD_PAYLOAD 100 2 [10, 10],
         SR_ERR_LOG ''Promised waveform was missing from datastream'',
         G_USLEEP 100000],
        5, WAIT_BLOCK, [example_analog 0, example_analog 1], 101000) \<and>
   map_sum id (\<lambda>s. (session s, retry_count (priv s), wait_event (priv s),
                     channel_entry (priv s), clock_us s))
     (siglent_sds_receive G_IO_IN (example_empty_sdi 5)) =
   Inr ([G_USLEEP 1000, G_USLEEP 0, SCPI_READ_BEGIN,
         SCPI_READ_DATA RD_HEADER 363 363 (replicate 75 0 @ [100, 0, 0, 0] @ replicate 284 0),
         SCPI_READ_DATA RD_PAYLOAD 100 2 [10, 10],
         SR_ERR_LOG ''Promised waveform was missing from datastream'',
         SR_ERR_LOG ''Abort processing channel''],
        0, WAIT_BLOCK, [example_analog 1], 1000)"
proof -
  let ?hd = "replicate 75 0 @ [100, 0, 0, 0] @ replicate 284 (0::byte)"
  have t: "siglent_sds_receive G_IO_IN (example_empty_sdi r) =
     (let sdi = (example_empty_sdi r)
             \<lparr>conn := (example_conn [RD_DATA [10, 10]])\<lparr>read_begin_rets := [True]\<rparr>,
              priv := (priv (example_empty_sdi r))
                 \<lparr>num_header_bytes := 363, num_samples := 100, block_header_size := 15\<rparr>,
              session := [G_USLEEP 1000, G_USLEEP 0, SCPI_READ_BEGIN,
                          SCPI_READ_DATA RD_HEADER 363 363 ?hd],
              clock_us := 1000\<rparr>;
          sdi1 = sdi\<lparr>conn := (example_conn [])\<lparr>read_begin_rets := [True]\<rparr>,
                     session := session sdi @ [SCPI_READ_DATA RD_PAYLOAD 100 2 [10, 10]]\<rparr>
      in if r < 5 then
              Inr (sdi1\<lparr>priv := (priv sdi)\<lparr>retry_count := retry_count (priv sdi) + 1,
                                 wait_status := 1, wait_event := WAIT_BLOCK\<rparr>,
                       session := session sdi1 @
                         [SR_ERR_LOG ''Promised waveform was missing from datastream'',
                          G_USLEEP 100000],
                       clock_us := clock_us sdi1 + 100000\<rparr>)
         else
              Inr (sdi1\<lparr>priv := (priv sdi)\<lparr>retry_count := 0,
                                 channel_entry := [example_analog 1],
                                 wait_status := 1, wait_event := WAIT_BLOCK\<rparr>,
                       session := session sdi1 @
                         [SR_ERR_LOG ''Promised waveform was missing from datastream'',
                          SR_ERR_LOG ''Abort processing channel'']\<rparr>))" for r
  proof -
    let ?X = "example_empty_sdi r"
    let ?S = "g_usleep 1000 ?X"
    let ?H = "?X\<lparr>conn := (example_conn [RD_DATA [10, 10]])\<lparr>read_begin_rets := [True]\<rparr>,
              priv := (priv ?X)
                 \<lparr>num_header_bytes := 363, num_samples := 100, block_header_size := 15\<rparr>,
              session := [G_USLEEP 1000, G_USLEEP 0, SCPI_READ_BEGIN,
                          SCPI_READ_DATA RD_HEADER 363 363 ?hd],
              clock_us := 1000\<rparr>"
    let ?H1 = "?H\<lparr>conn := (example_conn [])\<lparr>read_begin_rets := [True]\<rparr>,
                     session := session ?H @ [SCPI_READ_DATA RD_PAYLOAD 100 2 [10, 10]]\<rparr>"
    have rev: "G_IO_IN = G_IO_IN \<or> G_IO_IN = (0::int)" by simp
    have disp: "recv_dispatch ?S = Inr (True, ?S)"
      by (simp add: recv_dispatch_def g_usleep_def emit_def example_empty_sdi_def example_defs)
    have cur: "channel_entry (priv ?S) = example_analog 0 # [example_analog 1]"
      by (simp add: g_usleep_def emit_def example_empty_sdi_def example_defs)
    have analog: "ch_type (example_analog 0) = SR_CHANNEL_ANALOG" by (simp add: example_defs)
    have hdr: "recv_new_block ?S = BLOCK_DONE ?H"
      by (simp add: recv_new_block_def siglent_sds_read_header_def read_header_loop.simps
            example_empty_sdi_def example_defs g_usleep_def emit_def sr_scpi_read_begin_def
            sr_scpi_read_data_def le32_def le32_signed_def c_int_cast_def nth_append Let_def)
    have sl: "samples_left (priv ?H) = 100"
      by (simp add: samples_left_def c_int_cast_def example_empty_sdi_def example_defs)
    have avail: "0 \<le> samples_left (priv ?H)" unfolding sl by simp
    have rd: "sr_scpi_read_data RD_PAYLOAD (samples_left (priv ?H)) ?H = (2, [10, 10], ?H1)"
      unfolding sl
      by (simp add: sr_scpi_read_data_def emit_def example_empty_sdi_def example_defs)
    have nbr: "num_block_read (priv ?H) = 0"
      by (simp add: example_empty_sdi_def example_defs)
    have rc: "retry_count (priv ?H) = r" by (simp add: example_empty_sdi_def example_defs)
    have ce: "channel_entry (priv ?H) = example_analog 0 # example_analog 1 # []"
      by (simp add: example_empty_sdi_def example_defs)
    note th = empty_waveform_retry [OF rev disp cur analog hdr avail rd nbr]
    show ?thesis
    proof (cases "r < 5")
      case True
      with th rc show ?thesis by (simp add: Let_def)
    next
      case False
      with rc have nr: "\<not> retry_count (priv ?H) < 5" by simp
      note th2 = th [THEN conjunct2, THEN conjunct1, rule_format,
          of "example_analog 0" "example_analog 1" "[]", OF conjI [OF nr ce]]
      from th2 False show ?thesis by (simp add: Let_def)
    qed
  qed
  have a: "map_sum id (\<lambda>s. (session s, retry_count (priv s), wait_event (priv s),
                     channel_entry (priv s), clock_us s))
     (siglent_sds_receive G_IO_IN (example_empty_sdi 4)) =
   Inr ([G_USLEEP 1000, G_USLEEP 0, SCPI_READ_BEGIN,
         SCPI_READ_DATA RD_HEADER 363 363 ?hd,
         SCPI_READ_DATA RD_PAYLOAD 100 2 [10, 10],
         SR_ERR_LOG ''Promised waveform was missing from datastream'',
         G_USLEEP 100000],
        5, WAIT_BLOCK, [example_analog 0, example_analog 1], 101000)"
    by (subst t) (simp add: Let_def example_empty_sdi_def example_defs)
  have b: "map_sum id (\<lambda>s. (session s, retry_count (priv s), wait_event (priv s),
                     channel_entry (priv s), clock_us s))
     (siglent_sds_receive G_IO_IN (example_empty_sdi 5)) =
   Inr ([G_USLEEP 1000, G_USLEEP 0, SCPI_READ_BEGIN,
         SCPI_READ_DATA RD_HEADER 363 363 ?hd,
         SCPI_READ_DATA RD_PAYLOAD 100 2 [10, 10],
         SR_ERR_LOG ''Promised waveform was missing from datastream'',
         SR_ERR_LOG ''Abort processing channel''],
        0, WAIT_BLOCK, [example_analog 1], 1000)"
    by (subst t) (simp add: Let_def example_empty_sdi_def example_defs)
  from a b show ?thesis by (rule conjI)
qed

subsection \<open>C4: a payload read that returns -1\<close>

text \<open>
  Claim C4, as the code has it. Let the handler come to the payload loop of an analog
  channel, and let a payload read return \<open>-1\<close> at any position of the loops: in turn \<open>i\<close>
  of the outer loop, after \<open>j\<close> reads of this turn have delivered \<open>k\<close> bytes
  (\<^verbatim>\<open>loop_bytes_read\<close>, which every turn starts at 0). With \<open>k = 0\<close> the handler increments
  \<open>retry_count\<close> and sleeps 1 ms when \<open>retry_count < 5\<close>, and otherwise logs the error,
  sends the frame end and stops the acquisition; in both cases it returns. With \<open>k \<noteq> 0\<close>
  the read loop ends, the handler resets \<open>retry_count\<close>, sends the \<open>k\<close> bytes as an analog
  packet and, the block being incomplete, starts the next turn in the same call, where a
  further \<open>-1\<close> meets \<open>k = 0\<close> again. Every turn that ends leaves \<open>retry_count = 0\<close>, as
  does \<^verbatim>\<open>siglent_sds_capture_start\<close>; and a poll that starts with \<open>retry_count \<le> 5\<close> ends
  with \<open>retry_count \<le> 5\<close>.
\<close>

theorem read_stall_retry:
  assumes rev: "revents = G_IO_IN \<or> revents = 0"
    and disp: "recv_dispatch (g_usleep 1000 sdi0) = Inr (True, s)"
    and cur: "channel_entry (priv s) = ch # nxt"
    and analog: "ch_type ch = SR_CHANNEL_ANALOG"
    and hdr: "recv_new_block s = BLOCK_DONE sdi"
    and pass: "nth_pass ch sdi i = Some p"
    and avail: "0 \<le> samples_left (priv p)"
    and reads: "nth_read p 0 (samples_left (priv p)) [] j = Some (t, k, d)"
    and rd: "sr_scpi_read_data RD_PAYLOAD (samples_left (priv t)) t = (- 1, bs, t1)"
  shows "(k = 0 \<longrightarrow>
            siglent_sds_receive revents sdi0 =
              Inr (if retry_count (priv t) < 5
                   then t1\<lparr>priv := (priv t)\<lparr>retry_count := retry_count (priv t) + 1\<rparr>,
                           session := session t1 @ [G_USLEEP 1000],
                           clock_us := clock_us t1 + 1000\<rparr>
                   else t1\<lparr>session := session t1 @
                             [SR_ERR_LOG ''Read error, aborting capture.'', DF_FRAME_END,
                              DEV_ACQUISITION_STOP]\<rparr>)) \<and>
         (k \<noteq> 0 \<longrightarrow>
            siglent_sds_receive revents sdi0 =
              (case recv_after_pass ch t1 k d of
                 PASS_RETURN s2 \<Rightarrow> Inr s2
               | PASS_DONE s2 \<Rightarrow> recv_next_channel s2
               | PASS_AGAIN s2 \<Rightarrow> recv_analog_payload ch s2) \<and>
            (\<exists>evs. session (pass_state (recv_after_pass ch t1 k d)) =
               session t1 @
                 DF_ANALOG ch
                   (map (sample_voltage (vdiv (priv t) (ch_index ch))
                           (vert_offset (priv t) (ch_index ch))) d)
                   (analog_digits (libm_log10f t) (vdiv (priv t) (ch_index ch)))
                   SR_MQ_VOLTAGE SR_UNIT_VOLT # evs) \<and>
            (num_block_bytes (priv t) < num_samples (priv t) \<longrightarrow>
               nth_pass ch sdi (Suc i) =
                 Some (t1\<lparr>priv := (priv t)\<lparr>retry_count := 0\<rparr>,
                          session := session t1 @
                            [DF_ANALOG ch
                               (map (sample_voltage (vdiv (priv t) (ch_index ch))
                                       (vert_offset (priv t) (ch_index ch))) d)
                               (analog_digits (libm_log10f t) (vdiv (priv t) (ch_index ch)))
                               SR_MQ_VOLTAGE SR_UNIT_VOLT]\<rparr>))) \<and>
         0 \<le> k \<and> (k = 0 \<longleftrightarrow> j = 0) \<and>
         (\<forall>c s n d. retry_count (priv (pass_state (recv_after_pass c s n d))) = 0) \<and>
         (\<forall>s rc s'. siglent_sds_capture_start s = Inr (rc, s') \<longrightarrow> retry_count (priv s') = 0) \<and>
         (\<forall>s revents s'. retry_count (priv s) \<le> 5 \<and> siglent_sds_receive revents s = Inr s' \<longrightarrow>
            retry_count (priv s') \<le> 5)"
proof -
  let ?lba = "samples_left (priv p)"
  let ?pkt = "DF_ANALOG ch
                   (map (sample_voltage (vdiv (priv t) (ch_index ch))
                           (vert_offset (priv t) (ch_index ch))) d)
                   (analog_digits (libm_log10f t) (vdiv (priv t) (ch_index ch)))
                   SR_MQ_VOLTAGE SR_UNIT_VOLT"
  have p1: "priv t1 = priv t" using read_data_priv [OF rd] .
  have l1: "libm_log10f t1 = libm_log10f t" using read_data_log10f [OF rd] .
  note r = receive_analog_payload [OF rev disp cur analog hdr]
  note pos = loop_position [OF pass avail reads]
  from nth_read_loop [OF reads]
  have eq: "recv_read_loop p 0 ?lba [] = recv_read_loop t k ?lba d"
    and k0: "0 \<le> k" and kj: "0 < j \<longrightarrow> 0 < k" and ld: "length d = nat k"
    by simp_all
  have kj0: "k = 0 \<longleftrightarrow> j = 0"
  proof
    assume "k = 0" with kj show "j = 0" by auto
  next
    assume "j = 0" with reads show "k = 0" by simp
  qed
  note u = recv_read_loop_unfold [OF rd, of k ?lba d]
  have a: "siglent_sds_receive revents sdi0 =
              Inr (if retry_count (priv t) < 5
                   then t1\<lparr>priv := (priv t)\<lparr>retry_count := retry_count (priv t) + 1\<rparr>,
                           session := session t1 @ [G_USLEEP 1000],
                           clock_us := clock_us t1 + 1000\<rparr>
                   else t1\<lparr>session := session t1 @
                             [SR_ERR_LOG ''Read error, aborting capture.'', DF_FRAME_END,
                              DEV_ACQUISITION_STOP]\<rparr>)" if "k = 0"
    unfolding r pos u p1 using that
    by (simp add: g_usleep_def emit_def abort_capture_def dev_acquisition_stop_def
          std_session_send_df_frame_end_def sr_err_def)
  have brk: "recv_read_loop t k ?lba d = LOOP_BREAK t1 k d" if "k \<noteq> 0"
    unfolding u using that k0 by simp
  have b: "siglent_sds_receive revents sdi0 =
              (case recv_after_pass ch t1 k d of
                 PASS_RETURN s2 \<Rightarrow> Inr s2
               | PASS_DONE s2 \<Rightarrow> recv_next_channel s2
               | PASS_AGAIN s2 \<Rightarrow> recv_analog_payload ch s2)" if "k \<noteq> 0"
    unfolding r pos brk [OF that] by simp
  have c: "\<exists>evs. session (pass_state (recv_after_pass ch t1 k d)) = session t1 @ ?pkt # evs"
    if "k \<noteq> 0"
  proof -
    from recv_after_pass_trace [OF analog, of t1 k d] that
    obtain evs evs' where
      "session (pass_state (recv_after_pass ch t1 k d)) = session t1 @ evs"
      and "evs = DF_ANALOG ch
                     (map (sample_voltage (vdiv (priv t1) (ch_index ch))
                             (vert_offset (priv t1) (ch_index ch))) (take (nat k) d))
                     (analog_digits (libm_log10f t1) (vdiv (priv t1) (ch_index ch)))
                     SR_MQ_VOLTAGE SR_UNIT_VOLT # evs'"
      by auto
    then show ?thesis unfolding p1 l1 using ld by auto
  qed
  have d: "nth_pass ch sdi (Suc i) =
                 Some (t1\<lparr>priv := (priv t)\<lparr>retry_count := 0\<rparr>, session := session t1 @ [?pkt]\<rparr>)"
    if "k \<noteq> 0" and "num_block_bytes (priv t) < num_samples (priv t)"
  proof -
    have ap: "recv_after_pass ch t1 k d =
        PASS_AGAIN (t1\<lparr>priv := (priv t)\<lparr>retry_count := 0\<rparr>, session := session t1 @ [?pkt]\<rparr>)"
      using that analog p1 l1 ld
      by (simp add: recv_after_pass_def Let_def send_analog_def emit_def)
    have "nth_pass ch p (Suc 0) =
        Some (t1\<lparr>priv := (priv t)\<lparr>retry_count := 0\<rparr>, session := session t1 @ [?pkt]\<rparr>)"
      using avail by (simp add: eq brk [OF that(1)] ap)
    with nth_pass_Suc [OF pass] show ?thesis by simp
  qed
  from a b c d k0 kj0 recv_after_pass_retry capture_start_retry receive_retry
  show ?thesis by blast
qed

lemma example_midblock_enter:
  "recv_dispatch (g_usleep 1000 (example_midblock_sdi r rds)) =
     Inr (True, g_usleep 1000 (example_midblock_sdi r rds))"
  "channel_entry (priv (g_usleep 1000 (example_midblock_sdi r rds))) =
     example_analog 0 # [example_analog 1]"
  "recv_new_block (g_usleep 1000 (example_midblock_sdi r rds)) =
     BLOCK_DONE (g_usleep 1000 (example_midblock_sdi r rds))"
  "samples_left (priv (g_usleep 1000 (example_midblock_sdi r rds))) = 90"
  by (simp_all add: recv_dispatch_def recv_new_block_def g_usleep_def emit_def
        samples_left_def c_int_cast_def example_midblock_sdi_def example_defs)

theorem read_stall_retry_witness:
  "map_sum id (\<lambda>s. (session s, retry_count (priv s), clock_us s))
     (siglent_sds_receive G_IO_IN (example_midblock_sdi 4 [RD_ERR])) =
   Inr ([G_USLEEP 1000, SCPI_READ_DATA RD_PAYLOAD 90 (- 1) [], G_USLEEP 1000], 5, 2000) \<and>
   map_sum id (\<lambda>s. (session s, retry_count (priv s), clock_us s))
     (siglent_sds_receive G_IO_IN (example_midblock_sdi 5 [RD_ERR])) =
   Inr ([G_USLEEP 1000, SCPI_READ_DATA RD_PAYLOAD 90 (- 1) [],
         SR_ERR_LOG ''Read error, aborting capture.'', DF_FRAME_END, DEV_ACQUISITION_STOP],
        5, 1000) \<and>
   map_sum id (\<lambda>s. (session s, retry_count (priv s), clock_us s))
     (siglent_sds_receive G_IO_IN
        (example_midblock_sdi 3 [RD_DATA [25, 0, 231], RD_ERR, RD_ERR])) =
   Inr ([G_USLEEP 1000, SCPI_READ_DATA RD_PAYLOAD 90 3 [25, 0, 231],
         SCPI_READ_DATA RD_PAYLOAD 87 (- 1) [],
         DF_ANALOG (example_analog 0) [1, 0, - 1] 0 SR_MQ_VOLTAGE SR_UNIT_VOLT,
         SCPI_READ_DATA RD_PAYLOAD 87 (- 1) [], G_USLEEP 1000],
        1, 2000)"
proof -
  have rev: "G_IO_IN = G_IO_IN \<or> G_IO_IN = (0::int)" by simp
  have analog: "ch_type (example_analog 0) = SR_CHANNEL_ANALOG" by (simp add: example_defs)
  have first: "map_sum id (\<lambda>s. (session s, retry_count (priv s), clock_us s))
       (siglent_sds_receive G_IO_IN (example_midblock_sdi r [RD_ERR])) =
     Inr (if r < 5
          then ([G_USLEEP 1000, SCPI_READ_DATA RD_PAYLOAD 90 (- 1) [], G_USLEEP 1000],
                r + 1, 2000)
          else ([G_USLEEP 1000, SCPI_READ_DATA RD_PAYLOAD 90 (- 1) [],
                 SR_ERR_LOG ''Read error, aborting capture.'', DF_FRAME_END,
                 DEV_ACQUISITION_STOP], r, 1000))" for r
  proof -
    let ?S = "g_usleep 1000 (example_midblock_sdi r [RD_ERR])"
    let ?T1 = "?S\<lparr>conn := example_conn [],
                   session := session ?S @ [SCPI_READ_DATA RD_PAYLOAD 90 (- 1) []]\<rparr>"
    note e = example_midblock_enter [of r "[RD_ERR]"]
    have pass: "nth_pass (example_analog 0) ?S 0 = Some ?S" by simp
    have avail: "0 \<le> samples_left (priv ?S)" unfolding e by simp
    have reads: "nth_read ?S 0 (samples_left (priv ?S)) [] 0 = Some (?S, 0, [])" by simp
    have rd: "sr_scpi_read_data RD_PAYLOAD (samples_left (priv ?S)) ?S = (- 1, [], ?T1)"
      unfolding e
      by (simp add: sr_scpi_read_data_def emit_def g_usleep_def example_midblock_sdi_def
            example_defs)
    from read_stall_retry [OF rev e(1) e(2) analog e(3) pass avail reads rd]
    have "siglent_sds_receive G_IO_IN (example_midblock_sdi r [RD_ERR]) =
              Inr (if retry_count (priv ?S) < 5
                   then ?T1\<lparr>priv := (priv ?S)\<lparr>retry_count := retry_count (priv ?S) + 1\<rparr>,
                           session := session ?T1 @ [G_USLEEP 1000],
                           clock_us := clock_us ?T1 + 1000\<rparr>
                   else ?T1\<lparr>session := session ?T1 @
                             [SR_ERR_LOG ''Read error, aborting capture.'', DF_FRAME_END,
                              DEV_ACQUISITION_STOP]\<rparr>)"
      by simp
    then show ?thesis
      by (simp add: g_usleep_def emit_def example_midblock_sdi_def example_defs)
  qed
  have second: "map_sum id (\<lambda>s. (session s, retry_count (priv s), clock_us s))
     (siglent_sds_receive G_IO_IN
        (example_midblock_sdi 3 [RD_DATA [25, 0, 231], RD_ERR, RD_ERR])) =
   Inr ([G_USLEEP 1000, SCPI_READ_DATA RD_PAYLOAD 90 3 [25, 0, 231],
         SCPI_READ_DATA RD_PAYLOAD 87 (- 1) [],
         DF_ANALOG (example_analog 0) [1, 0, - 1] 0 SR_MQ_VOLTAGE SR_UNIT_VOLT,
         SCPI_READ_DATA RD_PAYLOAD 87 (- 1) [], G_USLEEP 1000],
        1, 2000)"
  proof -
    let ?rds = "[RD_DATA [25, 0, 231], RD_ERR, RD_ERR]"
    let ?S = "g_usleep 1000 (example_midblock_sdi 3 ?rds)"
    let ?T = "?S\<lparr>conn := example_conn [RD_ERR, RD_ERR],
                  priv := (priv ?S)\<lparr>num_block_bytes := 13, num_block_read := 2\<rparr>,
                  session := session ?S @ [SCPI_READ_DATA RD_PAYLOAD 90 3 [25, 0, 231]]\<rparr>"
    let ?T1 = "?T\<lparr>conn := example_conn [RD_ERR],
                   session := session ?T @ [SCPI_READ_DATA RD_PAYLOAD 87 (- 1) []]\<rparr>"
    let ?pkt = "DF_ANALOG (example_analog 0)
                  (map (sample_voltage (vdiv (priv ?T) (ch_index (example_analog 0)))
                          (vert_offset (priv ?T) (ch_index (example_analog 0))))
                     [25, 0, 231])
                  (analog_digits (libm_log10f ?T) (vdiv (priv ?T) (ch_index (example_analog 0))))
                  SR_MQ_VOLTAGE SR_UNIT_VOLT"
    let ?P = "?T1\<lparr>priv := (priv ?T)\<lparr>retry_count := 0\<rparr>, session := session ?T1 @ [?pkt]\<rparr>"
    let ?Q = "?P\<lparr>conn := example_conn [],
                  session := session ?P @ [SCPI_READ_DATA RD_PAYLOAD 87 (- 1) []]\<rparr>"
    note e = example_midblock_enter [of 3 ?rds]
    have pass0: "nth_pass (example_analog 0) ?S 0 = Some ?S" by simp
    have avail0: "0 \<le> samples_left (priv ?S)" unfolding e by simp
    have reads1: "nth_read ?S 0 (samples_left (priv ?S)) [] (Suc 0) = Some (?T, 3, [25, 0, 231])"
      by (simp add: sr_scpi_read_data_def emit_def g_usleep_def example_midblock_sdi_def
            example_defs samples_left_def c_int_cast_def Let_def)
    have slT: "samples_left (priv ?T) = 87"
      by (simp add: samples_left_def c_int_cast_def g_usleep_def emit_def
            example_midblock_sdi_def example_defs)
    have rdT: "sr_scpi_read_data RD_PAYLOAD (samples_left (priv ?T)) ?T = (- 1, [], ?T1)"
      unfolding slT
      by (simp add: sr_scpi_read_data_def emit_def g_usleep_def example_midblock_sdi_def
            example_defs)
    have more: "num_block_bytes (priv ?T) < num_samples (priv ?T)"
      by (simp add: g_usleep_def emit_def example_midblock_sdi_def example_defs)
    from read_stall_retry [OF rev e(1) e(2) analog e(3) pass0 avail0 reads1 rdT] more
    have pass1: "nth_pass (example_analog 0) ?S (Suc 0) = Some ?P" by simp
    have slP: "samples_left (priv ?P) = 87"
      by (simp add: samples_left_def c_int_cast_def g_usleep_def emit_def
            example_midblock_sdi_def example_defs)
    have avail1: "0 \<le> samples_left (priv ?P)" unfolding slP by simp
    have reads0: "nth_read ?P 0 (samples_left (priv ?P)) [] 0 = Some (?P, 0, [])" by simp
    have rdP: "sr_scpi_read_data RD_PAYLOAD (samples_left (priv ?P)) ?P = (- 1, [], ?Q)"
      unfolding slP
      by (simp add: sr_scpi_read_data_def emit_def g_usleep_def example_midblock_sdi_def
            example_defs)
    from read_stall_retry [OF rev e(1) e(2) analog e(3) pass1 avail1 reads0 rdP]
    have "siglent_sds_receive G_IO_IN (example_midblock_sdi 3 ?rds) =
              Inr (if retry_count (priv ?P) < 5
                   then ?Q\<lparr>priv := (priv ?P)\<lparr>retry_count := retry_count (priv ?P) + 1\<rparr>,
                           session := session ?Q @ [G_USLEEP 1000],
                           clock_us := clock_us ?Q + 1000\<rparr>
                   else ?Q\<lparr>session := session ?Q @
                             [SR_ERR_LOG ''Read error, aborting capture.'', DF_FRAME_END,
                              DEV_ACQUISITION_STOP]\<rparr>)"
      by simp
    then show ?thesis
      by (simp add: g_usleep_def emit_def example_midblock_sdi_def example_defs
            sample_voltage_def analog_digits_def c_trunc_def Let_def)
  qed
  from first [of 4] first [of 5] second show ?thesis by simp
qed

text \<open>
  The claim as stated fails: it lets the bytes read in the current poll decide. In this
  poll the first read delivers 3 bytes and the second returns \<open>-1\<close>, which flushes them and
  resets \<open>retry_count\<close> from 4 to 0; the third read returns \<open>-1\<close> again, and although 3
  bytes have been read in this poll, the handler increments \<open>retry_count\<close> to 1, sleeps
  1 ms and returns.
\<close>

theorem read_stall_after_flush_counterexample:
  "map_sum id (\<lambda>s. (payload_bytes (session s), drop 4 (session s), retry_count (priv s),
                     clock_us s))
     (siglent_sds_receive G_IO_IN
        (example_midblock_sdi 4 [RD_DATA [25, 0, 231], RD_ERR, RD_ERR])) =
   Inr (3, [SCPI_READ_DATA RD_PAYLOAD 87 (- 1) [], G_USLEEP 1000], 1, 2000)"
  by (simp add: siglent_sds_receive_def recv_dispatch_def recv_new_block_def
        recv_analog_payload_def recv_block_loop.simps recv_read_loop.simps
        recv_after_pass_def example_midblock_sdi_def example_defs samples_left_def
        c_int_cast_def sr_scpi_read_data_def emit_def g_usleep_def send_analog_def
        sample_voltage_def analog_digits_def c_trunc_def Let_def)

end
